(* ===== verification/Prelude.thy ===== *)
theory Prelude
  imports Complex_Main "HOL-Library.AList" "HOL-Library.Sublist" "HOL-Library.Char_ord"
    "HOL-Library.List_Lexorder"
begin

text \<open>
  The fragment of Python that the modelled components share: exceptions as a result type,
  dynamically typed values (what the sources annotate as \<open>Any\<close>), insertion-ordered
  dictionaries, truthiness, the equality \<open>==\<close>, and the string methods the sources call.

  Strings are lists of characters read as the code points U+0000 to U+00FF; case mapping is
  that of ASCII and of the letters of Latin-1 whose image is again in Latin-1. A dictionary is
  an association list in insertion order; \<open>AList.update\<close> overwrites an existing key in
  place and appends a new one, as \<open>d[k] = v\<close> does. Keys are strings; where a source would go
  on with a dictionary the model has no value for, the result is \<open>OutsideModel\<close>, which is no
  exception of the program.
\<close>

named_theorems result_simps \<open>rewrite rules for successful and failing computations\<close>
named_theorems dict_simps \<open>lookups in dictionaries after updates\<close>
named_theorems str_defs \<open>definitions of the string methods\<close>

section \<open>Exceptions\<close>

datatype exn =
    ValueError string
  | KeyError string
  | IndexError
  | TypeError
  | AttributeError
  | FileNotFoundError
  | RuntimeError string
  | OverflowError
  | OutsideModel

type_synonym 'a result = "exn + 'a"

fun res_bind :: "'a result \<Rightarrow> ('a \<Rightarrow> 'b result) \<Rightarrow> 'b result" where
  "res_bind (Inl e) f = Inl e"
| "res_bind (Inr x) f = f x"

fun res_map :: "('a \<Rightarrow> 'b result) \<Rightarrow> 'a list \<Rightarrow> 'b list result" where
  "res_map f [] = Inr []"
| "res_map f (x # xs) = res_bind (f x) (\<lambda>y. res_bind (res_map f xs) (\<lambda>ys. Inr (y # ys)))"

fun res_foldl :: "('s \<Rightarrow> 'a \<Rightarrow> 's result) \<Rightarrow> 's \<Rightarrow> 'a list \<Rightarrow> 's result" where
  "res_foldl f s [] = Inr s"
| "res_foldl f s (x # xs) = res_bind (f s x) (\<lambda>s'. res_foldl f s' xs)"

section \<open>Values\<close>

datatype nonfinite = PosInf | NegInf | NaN

datatype pyval =
    PNone
  | PBool bool
  | PInt int
  | PFloat rat
  | PNonFinite nonfinite
  | PStr string
  | PList "pyval list"
  | PDict "(string \<times> pyval) list"

type_synonym dict = "(string \<times> pyval) list"

fun is_PDict :: "pyval \<Rightarrow> bool" where
  "is_PDict (PDict d) = True"
| "is_PDict _ = False"

fun is_PStr :: "pyval \<Rightarrow> bool" where
  "is_PStr (PStr s) = True"
| "is_PStr _ = False"

fun truthy :: "pyval \<Rightarrow> bool" where
  "truthy PNone = False"
| "truthy (PBool b) = b"
| "truthy (PInt i) = (i \<noteq> 0)"
| "truthy (PFloat q) = (q \<noteq> 0)"
| "truthy (PNonFinite f) = True"
| "truthy (PStr s) = (s \<noteq> [])"
| "truthy (PList xs) = (xs \<noteq> [])"
| "truthy (PDict d) = (d \<noteq> [])"

text \<open>\<open>a or b\<close>\<close>

definition py_or :: "pyval \<Rightarrow> pyval \<Rightarrow> pyval" where
  "py_or a b = (if truthy a then a else b)"

text \<open>The exact value of a finite number; booleans are the integers 0 and 1.\<close>

fun num_of :: "pyval \<Rightarrow> rat option" where
  "num_of (PBool b) = Some (if b then 1 else 0)"
| "num_of (PInt i) = Some (of_int i)"
| "num_of (PFloat q) = Some q"
| "num_of _ = None"

text \<open>
  Python's \<open>==\<close>: numbers compare by value across their types, a NaN is unequal to
  everything, dictionaries compare without regard to order.
\<close>

fun py_eq :: "pyval \<Rightarrow> pyval \<Rightarrow> bool"
  and py_eq_list :: "pyval list \<Rightarrow> pyval list \<Rightarrow> bool"
  and py_eq_items :: "(string \<times> pyval) list \<Rightarrow> (string \<times> pyval) list \<Rightarrow> bool" where
  "py_eq PNone b = (b = PNone)"
| "py_eq (PBool x) b = (num_of b = num_of (PBool x))"
| "py_eq (PInt i) b = (num_of b = num_of (PInt i))"
| "py_eq (PFloat q) b = (num_of b = num_of (PFloat q))"
| "py_eq (PNonFinite f) b = (f \<noteq> NaN \<and> b = PNonFinite f)"
| "py_eq (PStr s) b = (b = PStr s)"
| "py_eq (PList xs) b = (case b of PList ys \<Rightarrow> py_eq_list xs ys | _ \<Rightarrow> False)"
| "py_eq (PDict d) b =
     (case b of PDict e \<Rightarrow> length d = length e \<and> py_eq_items d e | _ \<Rightarrow> False)"
| "py_eq_list [] ys = (ys = [])"
| "py_eq_list (x # xs) ys = (case ys of [] \<Rightarrow> False | y # ys' \<Rightarrow> py_eq x y \<and> py_eq_list xs ys')"
| "py_eq_items [] e = True"
| "py_eq_items ((k, v) # d) e =
     (case map_of e k of None \<Rightarrow> False | Some w \<Rightarrow> py_eq v w \<and> py_eq_items d e)"

text \<open>\<open>type(a) is type(b)\<close>\<close>

fun type_tag :: "pyval \<Rightarrow> nat" where
  "type_tag PNone = 0"
| "type_tag (PBool _) = 1"
| "type_tag (PInt _) = 2"
| "type_tag (PFloat _) = 3"
| "type_tag (PNonFinite _) = 3"
| "type_tag (PStr _) = 4"
| "type_tag (PList _) = 5"
| "type_tag (PDict _) = 6"

section \<open>Dictionaries\<close>

definition dict_get :: "(string \<times> 'v) list \<Rightarrow> string \<Rightarrow> 'v \<Rightarrow> 'v" where
  "dict_get d k dflt = (case map_of d k of None \<Rightarrow> dflt | Some v \<Rightarrow> v)"

definition dict_update :: "(string \<times> 'v) list \<Rightarrow> (string \<times> 'v) list \<Rightarrow> (string \<times> 'v) list" where
  "dict_update d e = foldl (\<lambda>d' (k, v). AList.update k v d') d e"

definition dict_keys :: "(string \<times> 'v) list \<Rightarrow> string list" where
  "dict_keys d = map fst d"

definition dict_ok :: "(string \<times> 'v) list \<Rightarrow> bool" where
  "dict_ok d \<longleftrightarrow> distinct (map fst d)"

text \<open>The operations on values that are only known to be some object.\<close>

fun py_get :: "pyval \<Rightarrow> string \<Rightarrow> pyval \<Rightarrow> pyval result" where
  "py_get (PDict d) k dflt = Inr (dict_get d k dflt)"
| "py_get _ k dflt = Inl AttributeError"

fun py_items :: "pyval \<Rightarrow> dict result" where
  "py_items (PDict d) = Inr d"
| "py_items _ = Inl AttributeError"

section \<open>Strings\<close>

definition is_space :: "char \<Rightarrow> bool" where
  "is_space c \<longleftrightarrow> (let n = (of_char c :: nat) in
     9 \<le> n \<and> n \<le> 13 \<or> 28 \<le> n \<and> n \<le> 32 \<or> n = 133 \<or> n = 160)"

definition is_digit :: "char \<Rightarrow> bool" where
  "is_digit c \<longleftrightarrow> (let n = (of_char c :: nat) in 48 \<le> n \<and> n \<le> 57)"

definition lower_char :: "char \<Rightarrow> char" where
  "lower_char c = (let n = (of_char c :: nat) in
     if 65 \<le> n \<and> n \<le> 90 \<or> 192 \<le> n \<and> n \<le> 222 \<and> n \<noteq> 215 then char_of (n + 32) else c)"

definition upper_char :: "char \<Rightarrow> string" where
  "upper_char c = (let n = (of_char c :: nat) in
     if 97 \<le> n \<and> n \<le> 122 \<or> 224 \<le> n \<and> n \<le> 254 \<and> n \<noteq> 247 then [char_of (n - 32)]
     else if n = 223 then ''SS'' else [c])"

definition str_lower :: "string \<Rightarrow> string" where
  "str_lower s = map lower_char s"

definition str_upper :: "string \<Rightarrow> string" where
  "str_upper s = concat (map upper_char s)"

definition lstrip_by :: "(char \<Rightarrow> bool) \<Rightarrow> string \<Rightarrow> string" where
  "lstrip_by p s = dropWhile p s"

definition rstrip_by :: "(char \<Rightarrow> bool) \<Rightarrow> string \<Rightarrow> string" where
  "rstrip_by p s = rev (dropWhile p (rev s))"

definition str_strip :: "string \<Rightarrow> string" where
  "str_strip s = rstrip_by is_space (lstrip_by is_space s)"

definition str_startswith :: "string \<Rightarrow> string \<Rightarrow> bool" where
  "str_startswith s p \<longleftrightarrow> take (length p) s = p"

definition str_endswith :: "string \<Rightarrow> string \<Rightarrow> bool" where
  "str_endswith s p \<longleftrightarrow> str_startswith (rev s) (rev p)"

text \<open>\<open>p in s\<close>\<close>

fun str_contains :: "string \<Rightarrow> string \<Rightarrow> bool" where
  "str_contains p [] = (p = [])"
| "str_contains p (c # s) = (str_startswith (c # s) p \<or> str_contains p s)"

text \<open>\<open>k in v\<close> and \<open>v[k]\<close> for a string \<open>k\<close>\<close>

fun py_in :: "string \<Rightarrow> pyval \<Rightarrow> bool result" where
  "py_in k (PDict d) = Inr (map_of d k \<noteq> None)"
| "py_in k (PStr s) = Inr (str_contains k s)"
| "py_in k (PList xs) = Inr (list_ex (\<lambda>x. py_eq x (PStr k)) xs)"
| "py_in k _ = Inl TypeError"

fun py_index :: "pyval \<Rightarrow> string \<Rightarrow> pyval result" where
  "py_index (PDict d) k = (case map_of d k of None \<Rightarrow> Inl (KeyError k) | Some v \<Rightarrow> Inr v)"
| "py_index _ k = Inl TypeError"

text \<open>The elements a \<open>for\<close> loop or \<open>list\<close> takes from a value.\<close>

fun py_iter :: "pyval \<Rightarrow> pyval list result" where
  "py_iter (PList xs) = Inr xs"
| "py_iter (PStr s) = Inr (map (\<lambda>c. PStr [c]) s)"
| "py_iter (PDict d) = Inr (map (\<lambda>p. PStr (fst p)) d)"
| "py_iter _ = Inl TypeError"

text \<open>\<open>s.count(c)\<close> for a single character.\<close>

definition str_count_char :: "char \<Rightarrow> string \<Rightarrow> nat" where
  "str_count_char c s = count_list s c"

text \<open>\<open>s.replace(p, r)\<close> for a non-empty \<open>p\<close>: leftmost, non-overlapping occurrences.\<close>

function str_replace :: "string \<Rightarrow> string \<Rightarrow> string \<Rightarrow> string" where
  "str_replace p r [] = []"
| "str_replace p r (c # s) =
     (if p \<noteq> [] \<and> str_startswith (c # s) p
      then r @ str_replace p r (drop (length p) (c # s))
      else c # str_replace p r s)"
  by pat_completeness auto
termination
  by (relation "measure (\<lambda>(p, r, s). length s)") auto

text \<open>\<open>s.split(c)\<close>, \<open>s.split(c, 1)\<close> for a single character, and \<open>sep.join(parts)\<close>.\<close>

fun str_split :: "char \<Rightarrow> string \<Rightarrow> string list" where
  "str_split c [] = [[]]"
| "str_split c (x # s) =
     (if x = c then [] # str_split c s
      else (case str_split c s of [] \<Rightarrow> [[x]] | p # ps \<Rightarrow> (x # p) # ps))"

definition str_split1 :: "char \<Rightarrow> string \<Rightarrow> string list" where
  "str_split1 c s =
     (if c \<in> set s then [takeWhile (\<lambda>x. x \<noteq> c) s, tl (dropWhile (\<lambda>x. x \<noteq> c) s)] else [s])"

fun str_join :: "string \<Rightarrow> string list \<Rightarrow> string" where
  "str_join sep [] = []"
| "str_join sep [p] = p"
| "str_join sep (p # q # ps) = p @ sep @ str_join sep (q # ps)"

text \<open>\<open>str.splitlines()\<close>\<close>

definition is_line_break :: "char \<Rightarrow> bool" where
  "is_line_break c \<longleftrightarrow> (let n = (of_char c :: nat) in
     10 \<le> n \<and> n \<le> 13 \<or> 28 \<le> n \<and> n \<le> 30 \<or> n = 133)"

fun splitlines_acc :: "string \<Rightarrow> string \<Rightarrow> string list" where
  "splitlines_acc acc [] = (if acc = [] then [] else [rev acc])"
| "splitlines_acc acc (c # s) =
     (if is_line_break c
      then rev acc # (if c = char_of (13 :: nat) \<and> s \<noteq> [] \<and> hd s = char_of (10 :: nat)
                      then splitlines_acc [] (tl s) else splitlines_acc [] s)
      else splitlines_acc (c # acc) s)"

definition splitlines :: "string \<Rightarrow> string list" where
  "splitlines s = splitlines_acc [] s"

text \<open>Decimal notation of integers.\<close>

definition digit_char :: "nat \<Rightarrow> char" where
  "digit_char n = char_of (48 + n)"

fun show_nat :: "nat \<Rightarrow> string" where
  "show_nat n = (if n < 10 then [digit_char n] else show_nat (n div 10) @ [digit_char (n mod 10)])"

declare show_nat.simps [simp del]

definition show_int :: "int \<Rightarrow> string" where
  "show_int i = (if i < 0 then CHR ''-'' # show_nat (nat (- i)) else show_nat (nat i))"

text \<open>
  \<open>int(s)\<close> for a string: surrounding white space, one sign, digits with single underscores
  between them; \<open>None\<close> stands for the \<open>ValueError\<close>.
\<close>

definition digit_val :: "char \<Rightarrow> nat" where
  "digit_val c = of_char c - 48"

fun parse_digits :: "nat \<Rightarrow> bool \<Rightarrow> string \<Rightarrow> nat option" where
  "parse_digits acc after_digit [] = (if after_digit then Some acc else None)"
| "parse_digits acc after_digit (c # s) =
     (if is_digit c then parse_digits (10 * acc + digit_val c) True s
      else if c = CHR ''_'' \<and> after_digit then parse_digits acc False s
      else None)"

definition parse_int :: "string \<Rightarrow> int option" where
  "parse_int s = (case str_strip s of
       [] \<Rightarrow> None
     | c # r \<Rightarrow>
         if c = CHR ''-'' then map_option (\<lambda>n. - int n) (parse_digits 0 False r)
         else if c = CHR ''+'' then map_option int (parse_digits 0 False r)
         else map_option int (parse_digits 0 False (c # r)))"

lemmas [str_defs] = str_lower_def str_upper_def lstrip_by_def rstrip_by_def str_strip_def
  str_startswith_def str_endswith_def str_count_char_def str_split1_def

section \<open>Laws of the result type\<close>

lemma res_bind_Inr_iff [result_simps]:
  "res_bind m f = Inr y \<longleftrightarrow> (\<exists>x. m = Inr x \<and> f x = Inr y)"
  by (cases m) auto

lemma res_bind_Inl_iff [result_simps]:
  "res_bind m f = Inl e \<longleftrightarrow> m = Inl e \<or> (\<exists>x. m = Inr x \<and> f x = Inl e)"
  by (cases m) auto

lemma res_bind_assoc: "res_bind (res_bind m f) g = res_bind m (\<lambda>x. res_bind (f x) g)"
  by (cases m) auto

lemma res_bind_Inr_right [simp]: "res_bind m Inr = m"
  by (cases m) auto

lemma res_map_Inr_iff [result_simps]:
  "res_map f xs = Inr ys \<longleftrightarrow> list_all2 (\<lambda>x y. f x = Inr y) xs ys"
  by (induction xs arbitrary: ys) (auto simp: result_simps list_all2_Cons1)

lemma res_map_length: "res_map f xs = Inr ys \<Longrightarrow> length ys = length xs"
  by (auto simp: result_simps dest: list_all2_lengthD)

lemma res_map_pure: "res_map (\<lambda>x. Inr (g x)) xs = Inr (map g xs)"
  by (induction xs) auto

lemma res_foldl_append:
  "res_foldl f s (xs @ ys) = res_bind (res_foldl f s xs) (\<lambda>s'. res_foldl f s' ys)"
  by (induction xs arbitrary: s) (auto simp: res_bind_assoc)

lemma res_foldl_pure: "res_foldl (\<lambda>s x. Inr (g s x)) s xs = Inr (foldl g s xs)"
  by (induction xs arbitrary: s) auto

lemma res_foldl_invariant:
  assumes "res_foldl f s xs = Inr s'" and "P s"
    and "\<And>s x t. x \<in> set xs \<Longrightarrow> P s \<Longrightarrow> f s x = Inr t \<Longrightarrow> P t"
  shows "P s'"
  using assms
proof (induction xs arbitrary: s)
  case Nil
  then show ?case by simp
next
  case (Cons x xs)
  from Cons.prems(1) obtain t where t: "f s x = Inr t" and rest: "res_foldl f t xs = Inr s'"
    by (auto simp: result_simps)
  have "P t" using Cons.prems(2,3) t by auto
  with rest show ?case using Cons.IH Cons.prems(3) by auto
qed

section \<open>Laws of dictionaries\<close>

lemma map_of_update [dict_simps]: "map_of (AList.update k v d) = (map_of d)(k \<mapsto> v)"
  by (simp add: update_conv')

lemma dict_update_Nil [simp]: "dict_update d [] = d"
  by (simp add: dict_update_def)

lemma dict_update_Cons [simp]: "dict_update d ((k, v) # e) = dict_update (AList.update k v d) e"
  by (simp add: dict_update_def)

lemma update_fresh: "k \<notin> fst ` set d \<Longrightarrow> AList.update k v d = d @ [(k, v)]"
  by (induction d) auto

lemma dict_update_append: "dict_update d (e @ f) = dict_update (dict_update d e) f"
  by (simp add: dict_update_def)

lemma dict_ok_Nil [simp]: "dict_ok []"
  by (simp add: dict_ok_def)

lemma dict_ok_update [simp]: "dict_ok d \<Longrightarrow> dict_ok (AList.update k v d)"
  by (simp add: dict_ok_def distinct_update)

lemma dict_ok_dict_update [simp]: "dict_ok d \<Longrightarrow> dict_ok (dict_update d e)"
  by (induction e arbitrary: d) auto

lemma list_all_update [intro]: "list_all P d \<Longrightarrow> P (k, v) \<Longrightarrow> list_all P (AList.update k v d)"
  by (induction d) auto

lemma list_all_dict_update [intro]:
  "list_all P d \<Longrightarrow> list_all P e \<Longrightarrow> list_all P (dict_update d e)"
proof (induction e arbitrary: d)
  case (Cons p e)
  then show ?case by (cases p) (simp add: list_all_update)
qed simp

lemma dom_dict_update [dict_simps]:
  "fst ` set (dict_update d e) = fst ` set d \<union> fst ` set e"
proof (induction e arbitrary: d)
  case (Cons p e)
  obtain k v where p: "p = (k, v)" by (cases p)
  have "fst ` set (AList.update k v d) = {k} \<union> fst ` set d"
    using dom_update [of k v d] by simp
  with p show ?case by (simp add: Cons.IH)
qed simp

lemma map_of_dict_update [dict_simps]: "map_of (dict_update d e) = map_of d ++ map_of (rev e)"
  by (induction e arbitrary: d) (auto simp: map_of_update)

lemma dict_get_update [dict_simps]:
  "dict_get (AList.update k v d) k' x = (if k' = k then v else dict_get d k' x)"
  by (simp add: dict_get_def map_of_update)

lemma dict_ok_map_of: "dict_ok d \<Longrightarrow> (k, v) \<in> set d \<longleftrightarrow> map_of d k = Some v"
  by (auto simp: dict_ok_def)

lemma dict_ok_rev_map_of: "dict_ok d \<Longrightarrow> map_of (rev d) = map_of d"
  by (rule map_of_inject_set [THEN iffD2]) (auto simp: dict_ok_def rev_map [symmetric])

section \<open>Laws of equality\<close>

fun no_nan :: "pyval \<Rightarrow> bool" where
  "no_nan (PNonFinite f) = (f \<noteq> NaN)"
| "no_nan (PList xs) = list_all no_nan xs"
| "no_nan (PDict d) = (dict_ok d \<and> list_all (\<lambda>(k, v). no_nan v) d)"
| "no_nan _ = True"

lemma py_eq_list_refl: "(\<And>x. x \<in> set xs \<Longrightarrow> py_eq x x) \<Longrightarrow> py_eq_list xs xs"
  by (induction xs) auto

lemma py_eq_items_refl:
  assumes "\<And>k v. (k, v) \<in> set d \<Longrightarrow> map_of e k = Some v \<and> py_eq v v"
  shows "py_eq_items d e"
  using assms
proof (induction d)
  case (Cons p d)
  obtain k v where p: "p = (k, v)" by (cases p)
  have "map_of e k = Some v \<and> py_eq v v" using Cons.prems [of k v] p by simp
  moreover have "py_eq_items d e" by (rule Cons.IH) (use Cons.prems in auto)
  ultimately show ?case using p by simp
qed simp

lemma py_eq_refl: "no_nan v \<Longrightarrow> py_eq v v"
proof (induction v)
  case (PList xs)
  then have "py_eq_list xs xs" by (intro py_eq_list_refl) (auto simp: list_all_iff)
  then show ?case by simp
next
  case (PDict d)
  then have "py_eq_items d d"
    by (intro py_eq_items_refl) (force simp: list_all_iff dict_ok_map_of)
  then show ?case by simp
qed auto

lemma py_eq_PStr [simp]: "py_eq v (PStr s) \<longleftrightarrow> v = PStr s"
  by (cases v) auto

section \<open>Laws of strings\<close>

lemma str_startswith_prefix: "str_startswith s p \<longleftrightarrow> prefix p s"
  by (auto simp: str_startswith_def prefix_def dest: sym [of _ p])
    (metis append_take_drop_id)

lemma str_endswith_suffix: "str_endswith s p \<longleftrightarrow> suffix p s"
  by (simp add: str_endswith_def str_startswith_prefix suffix_to_prefix)

lemma str_contains_sublist: "str_contains p s \<longleftrightarrow> sublist p s"
  by (induction s) (auto simp: str_startswith_prefix sublist_Cons_right)

lemma str_strip_Nil [simp]: "str_strip [] = []"
  by (simp add: str_defs)

lemma str_join_split: "str_join [c] (str_split c s) = s"
proof (induction s)
  case (Cons x s)
  then show ?case by (cases "str_split c s" rule: list.exhaust; cases "tl (str_split c s)")
      (auto split: list.splits)
qed simp

lemma str_split_nonempty [simp]: "str_split c s \<noteq> []"
  by (induction s) (auto split: list.splits)

end
