(* ===== verification/SpecCompiler.thy ===== *)
theory SpecCompiler
  imports Prelude
begin

text \<open>
  The spec compiler, \<open>ml/spec_compiler/schemas.py\<close> and \<open>ml/spec_compiler/compiler.py\<close>:
  merging of deterministic, AI-suggested and reviewer mappings, generation of the declarative
  parser specification, and code generation for the four target runtimes.

  The candidate package is the dictionary that \<open>run_pipeline\<close> assembles; a mapping item is a
  dictionary whose \<open>raw_field\<close> and \<open>canonical_field\<close> may be missing, which is \<open>None\<close>.
  \<open>json.dumps(x, indent=2)\<close> and \<open>hashlib.sha256(b).hexdigest()\<close> are parameters.
  \<open>parser_spec_valid\<close> transcribes \<open>packages/contracts/parser_spec.schema.json\<close>.
\<close>

section \<open>Schemas\<close>

datatype TargetRuntime = ULPF_PARSER_SPEC | VECTOR_REMAP | LOGSTASH | PYTHON_NATIVE

record FieldMapping =
  fm_raw_field :: string
  fm_canonical_field :: string
  fm_transformer :: "string option"
  fm_override_applied :: bool

record CompiledParserSpec =
  cs_spec_id :: string
  cs_source_id :: string
  cs_version :: int
  cs_target_runtime :: TargetRuntime
  cs_mappings :: "FieldMapping list"
  cs_compiled_code :: string
  cs_spec_hash :: string

record mapping_item =
  mi_raw_field :: "string option"
  mi_canonical_field :: "string option"

record candidate_package =
  cp_source_id :: "string option"
  cp_detected_format :: "string option"
  cp_deterministic_mappings :: "mapping_item list"
  cp_ai_candidate_specs :: "mapping_item list list"

type_synonym resolved = "(string \<times> FieldMapping) list"

section \<open>Merging\<close>

definition mk_mapping :: "string \<Rightarrow> string \<Rightarrow> FieldMapping" where
  "mk_mapping raw canonical = \<lparr>fm_raw_field = raw, fm_canonical_field = canonical,
     fm_transformer = None, fm_override_applied = False\<rparr>"

definition mk_override :: "string \<Rightarrow> string \<Rightarrow> FieldMapping" where
  "mk_override raw canonical = \<lparr>fm_raw_field = raw, fm_canonical_field = canonical,
     fm_transformer = None, fm_override_applied = True\<rparr>"

text \<open>\<open>raw and canonical\<close>: both present and non-empty.\<close>

fun item_pair :: "mapping_item \<Rightarrow> (string \<times> string) option" where
  "item_pair it = (case (mi_raw_field it, mi_canonical_field it) of
     (Some raw, Some canonical) \<Rightarrow> if raw \<noteq> [] \<and> canonical \<noteq> [] then Some (raw, canonical) else None
   | _ \<Rightarrow> None)"

definition add_deterministic :: "resolved \<Rightarrow> mapping_item \<Rightarrow> resolved" where
  "add_deterministic m it = (case item_pair it of
     Some (raw, canonical) \<Rightarrow> AList.update raw (mk_mapping raw canonical) m
   | None \<Rightarrow> m)"

definition add_ai :: "resolved \<Rightarrow> mapping_item \<Rightarrow> resolved" where
  "add_ai m it = (case item_pair it of
     Some (raw, canonical) \<Rightarrow>
       if raw \<notin> set (map fst m) then AList.update raw (mk_mapping raw canonical) m else m
   | None \<Rightarrow> m)"

definition add_override :: "resolved \<Rightarrow> string \<times> string \<Rightarrow> resolved" where
  "add_override m rc = (case rc of (raw, canonical) \<Rightarrow> AList.update raw (mk_override raw canonical) m)"

definition resolve_mappings :: "candidate_package \<Rightarrow> (string \<times> string) list option \<Rightarrow> resolved" where
  "resolve_mappings pkg reviewer_overrides =
     (let overrides = (case reviewer_overrides of None \<Rightarrow> [] | Some o' \<Rightarrow> o');
          m1 = foldl add_deterministic [] (cp_deterministic_mappings pkg);
          m2 = foldl (foldl add_ai) m1 (cp_ai_candidate_specs pkg)
      in foldl add_override m2 overrides)"

definition merge_overrides ::
    "candidate_package \<Rightarrow> (string \<times> string) list option \<Rightarrow> FieldMapping list" where
  "merge_overrides pkg reviewer_overrides = map snd (resolve_mappings pkg reviewer_overrides)"

section \<open>The declarative parser specification\<close>

definition spec_format :: "string \<Rightarrow> string \<times> string" where
  "spec_format detected_format = (let fmt_lower = str_lower detected_format in
     if str_contains ''json'' fmt_lower then (''json'', ''json'')
     else if str_contains ''syslog'' fmt_lower then (''syslog'', ''syslog'')
     else if str_contains ''cef'' fmt_lower then (''cef'', ''cef'')
     else if str_contains ''leef'' fmt_lower then (''leef'', ''leef'')
     else if str_contains ''csv'' fmt_lower \<or> str_contains ''tsv'' fmt_lower then (''csv'', ''csv'')
     else (''key_value'', ''key_value''))"

definition is_low_alnum :: "char \<Rightarrow> bool" where
  "is_low_alnum c \<longleftrightarrow> (let n = (of_char c :: nat) in 97 \<le> n \<and> n \<le> 122 \<or> 48 \<le> n \<and> n \<le> 57)"

definition is_id_char :: "char \<Rightarrow> bool" where
  "is_id_char c \<longleftrightarrow> is_low_alnum c \<or> c = CHR ''.'' \<or> c = CHR ''_'' \<or> c = CHR ''-''"

text \<open>
  \<open>re.sub(r"[^a-z0-9._-]", "_", source_id.lower()).strip("_")\<close> and the repair of an id that
  does not start with a letter or digit. After the substitution only the characters of
  \<open>is_id_char\<close> are left, on which \<open>isalnum\<close> is \<open>is_low_alnum\<close>.
\<close>

definition clean_parser_id :: "string \<Rightarrow> string" where
  "clean_parser_id source_id =
     (let sub = map (\<lambda>c. if is_id_char c then c else CHR ''_'') (str_lower source_id);
          clean_id = rstrip_by (\<lambda>c. c = CHR ''_'') (lstrip_by (\<lambda>c. c = CHR ''_'') sub)
      in case clean_id of
           [] \<Rightarrow> ''source_parser''
         | c # _ \<Rightarrow> if is_low_alnum c then clean_id else ''source_'' @ clean_id)"

definition field_typing :: "string \<Rightarrow> string \<times> string list" where
  "field_typing canonical = (let canon = str_lower canonical in
     if str_contains ''ip'' canon then (''ip'', [''trim'', ''ip''])
     else if str_contains ''port'' canon \<or> str_contains ''status_code'' canon
       then (''integer'', [''integer''])
     else if str_contains ''time'' canon \<or> str_contains ''timestamp'' canon
       then (''timestamp'', [''timestamp''])
     else if str_contains ''is_'' canon \<or> str_contains ''enabled'' canon
       then (''boolean'', [''boolean''])
     else (''string'', [''trim'']))"

definition field_def :: "string \<Rightarrow> string \<Rightarrow> string list \<Rightarrow> pyval" where
  "field_def ty map_to transforms = PDict [(''type'', PStr ty), (''map_to'', PStr map_to),
     (''transformations'', PList (map PStr transforms))]"

definition mapping_def :: "FieldMapping \<Rightarrow> pyval" where
  "mapping_def m = (case field_typing (fm_canonical_field m) of
     (ty, transforms) \<Rightarrow> field_def ty (fm_canonical_field m) transforms)"

definition fields_dict :: "FieldMapping list \<Rightarrow> dict" where
  "fields_dict mappings =
     (let d = foldl (\<lambda>d m. AList.update (fm_raw_field m) (mapping_def m) d) [] mappings
      in if d = [] then [(''raw_message'', field_def ''string'' ''event.action'' [''trim''])] else d)"

definition generate_ulpf_parser_spec :: "string \<Rightarrow> string \<Rightarrow> FieldMapping list \<Rightarrow> dict" where
  "generate_ulpf_parser_spec source_id detected_format mappings =
     [(''dsl_version'', PStr ''1.0''),
      (''parser'', PDict [(''id'', PStr (clean_parser_id source_id)), (''version'', PStr ''1.0.0'')]),
      (''match'', PDict [(''format'', PStr (fst (spec_format detected_format)))]),
      (''body_parser'', PDict [(''type'', PStr (snd (spec_format detected_format)))]),
      (''fields'', PDict (fields_dict mappings)),
      (''unknown_fields'', PDict [(''policy'', PStr ''preserve'')]),
      (''raw'', PDict [(''preserve'', PBool True)])]"

section \<open>Code generation\<close>

definition nl :: string where "nl = [char_of (10 :: nat)]"

definition quote :: string where "quote = [char_of (34 :: nat)]"

definition python_lines :: "FieldMapping list \<Rightarrow> string list" where
  "python_lines mappings =
     [''def parse_log(event: dict) -> dict:'', ''    parsed = {}'']
     @ concat (map (\<lambda>m.
         [''    if '' @ quote @ fm_raw_field m @ quote @ '' in event:'',
          ''        parsed['' @ quote @ fm_canonical_field m @ quote @ ''] = event['' @ quote
            @ fm_raw_field m @ quote @ '']'']) mappings)
     @ [''    return parsed'']"

definition vrl_line :: "FieldMapping \<Rightarrow> string" where
  "vrl_line m = ''.'' @ fm_canonical_field m @ '' = delete(.'' @ fm_raw_field m @ '')''"

definition logstash_dict :: "FieldMapping list \<Rightarrow> dict" where
  "logstash_dict mappings =
     foldl (\<lambda>d m. AList.update (fm_raw_field m) (PStr (fm_canonical_field m)) d) [] mappings"

definition generate_compiled_code ::
    "(pyval \<Rightarrow> string) \<Rightarrow> FieldMapping list \<Rightarrow> TargetRuntime \<Rightarrow> string \<Rightarrow> string \<Rightarrow> string" where
  "generate_compiled_code json_dumps mappings target_runtime source_id detected_format =
     (case target_runtime of
        ULPF_PARSER_SPEC \<Rightarrow>
          json_dumps (PDict (generate_ulpf_parser_spec source_id detected_format mappings))
      | PYTHON_NATIVE \<Rightarrow> str_join nl (python_lines mappings)
      | VECTOR_REMAP \<Rightarrow> str_join nl (map vrl_line mappings)
      | LOGSTASH \<Rightarrow> json_dumps (PDict (logstash_dict mappings)))"

definition compile_spec ::
    "(pyval \<Rightarrow> string) \<Rightarrow> (string \<Rightarrow> string) \<Rightarrow> candidate_package
     \<Rightarrow> (string \<times> string) list option \<Rightarrow> TargetRuntime \<Rightarrow> CompiledParserSpec" where
  "compile_spec json_dumps sha256_hex pkg reviewer_overrides target_runtime =
     (let source_id = (case cp_source_id pkg of None \<Rightarrow> ''unknown_source'' | Some s \<Rightarrow> s);
          detected_format = (case cp_detected_format pkg of None \<Rightarrow> ''key_value'' | Some f \<Rightarrow> f);
          mappings = merge_overrides pkg reviewer_overrides;
          compiled_code = generate_compiled_code json_dumps mappings target_runtime source_id
            detected_format;
          spec_hash = take 16 (sha256_hex (source_id @ '':'' @ compiled_code))
      in \<lparr>cs_spec_id = ''spec_'' @ source_id @ ''_'' @ spec_hash, cs_source_id = source_id,
          cs_version = 1, cs_target_runtime = target_runtime, cs_mappings = mappings,
          cs_compiled_code = compiled_code, cs_spec_hash = spec_hash\<rparr>)"

section \<open>The contract of parser specifications\<close>

definition id_pattern :: "string \<Rightarrow> bool" where
  "id_pattern s = (case s of [] \<Rightarrow> False | c # r \<Rightarrow> is_low_alnum c \<and> list_all is_id_char r)"

definition is_letter :: "char \<Rightarrow> bool" where
  "is_letter c \<longleftrightarrow> (let n = (of_char c :: nat) in 65 \<le> n \<and> n \<le> 90 \<or> 97 \<le> n \<and> n \<le> 122)"

definition path_segment :: "string \<Rightarrow> bool" where
  "path_segment s = (case s of [] \<Rightarrow> False
     | c # r \<Rightarrow> is_letter c \<and> list_all (\<lambda>x. is_letter x \<or> is_digit x \<or> x = CHR ''_'') r)"

text \<open>\<open>^[A-Za-z][A-Za-z0-9_]*(\.[A-Za-z][A-Za-z0-9_]*)*$\<close>\<close>

definition map_to_pattern :: "string \<Rightarrow> bool" where
  "map_to_pattern s = list_all path_segment (str_split (CHR ''.'') s)"

definition field_types :: "string list" where
  "field_types = [''string'', ''integer'', ''float'', ''boolean'', ''ip'', ''timestamp'']"

definition operations :: "string list" where
  "operations = [''trim'', ''lowercase'', ''uppercase'', ''integer'', ''float'', ''boolean'', ''ip'',
     ''timestamp'', ''enum_map'', ''split'', ''join'', ''substring'', ''json_pointer'', ''key_value'',
     ''regex_capture'', ''cef_parse'', ''leef_parse'', ''syslog_parse'', ''csv_parse'']"

definition body_types :: "string list" where
  "body_types = [''key_value'', ''json'', ''cef'', ''leef'', ''syslog'', ''csv'']"

definition is_operation :: "pyval \<Rightarrow> bool" where
  "is_operation v = (case v of PStr s \<Rightarrow> s \<in> set operations | _ \<Rightarrow> False)"

definition str_prop :: "dict \<Rightarrow> string \<Rightarrow> (string \<Rightarrow> bool) \<Rightarrow> bool" where
  "str_prop d k p = (case map_of d k of Some (PStr s) \<Rightarrow> p s | _ \<Rightarrow> False)"

definition obj_prop :: "dict \<Rightarrow> string \<Rightarrow> (dict \<Rightarrow> bool) \<Rightarrow> bool" where
  "obj_prop d k p = (case map_of d k of Some (PDict e) \<Rightarrow> p e | _ \<Rightarrow> False)"

definition keys_within :: "dict \<Rightarrow> string list \<Rightarrow> bool" where
  "keys_within d ks = list_all (\<lambda>(k, v). k \<in> set ks) d"

definition field_valid :: "pyval \<Rightarrow> bool" where
  "field_valid v = (case v of
     PDict d \<Rightarrow> keys_within d [''type'', ''map_to'', ''enum'', ''transformations'']
       \<and> str_prop d ''type'' (\<lambda>s. s \<in> set field_types) \<and> str_prop d ''map_to'' map_to_pattern
       \<and> (case map_of d ''enum'' of None \<Rightarrow> True
            | Some (PDict e) \<Rightarrow> list_all (\<lambda>(k, x). is_PStr x) e | Some _ \<Rightarrow> False)
       \<and> (case map_of d ''transformations'' of None \<Rightarrow> True
            | Some (PList xs) \<Rightarrow> list_all is_operation xs | Some _ \<Rightarrow> False)
   | _ \<Rightarrow> False)"

definition version_pattern :: "string \<Rightarrow> bool" where
  "version_pattern s = (let parts = str_split (CHR ''.'') s in
     length parts = 3 \<and> list_all (\<lambda>p. p \<noteq> [] \<and> list_all is_digit p) parts)"

definition opt_prop :: "dict \<Rightarrow> string \<Rightarrow> (pyval \<Rightarrow> bool) \<Rightarrow> bool" where
  "opt_prop d k p = (case map_of d k of None \<Rightarrow> True | Some v \<Rightarrow> p v)"

definition is_string_array :: "pyval \<Rightarrow> bool" where
  "is_string_array v = (case v of PList xs \<Rightarrow> list_all is_PStr xs | _ \<Rightarrow> False)"

definition parser_spec_valid :: "dict \<Rightarrow> bool" where
  "parser_spec_valid spec \<longleftrightarrow>
     keys_within spec [''dsl_version'', ''parser'', ''match'', ''body_parser'', ''fields'',
       ''unknown_fields'', ''raw'']
     \<and> str_prop spec ''dsl_version'' (\<lambda>s. s = ''1.0'')
     \<and> obj_prop spec ''parser'' (\<lambda>p. keys_within p [''id'', ''version'']
         \<and> str_prop p ''id'' id_pattern \<and> str_prop p ''version'' version_pattern)
     \<and> obj_prop spec ''match'' (\<lambda>p. keys_within p [''format'', ''body_contains'']
         \<and> str_prop p ''format'' (\<lambda>s. s \<in> set body_types) \<and> opt_prop p ''body_contains'' is_string_array)
     \<and> obj_prop spec ''body_parser'' (\<lambda>p. keys_within p [''type'', ''pair_separator'', ''key_value_separator'', ''delimiter'', ''headers'']
         \<and> str_prop p ''type'' (\<lambda>s. s \<in> set body_types) \<and> opt_prop p ''pair_separator'' is_PStr
         \<and> opt_prop p ''key_value_separator'' is_PStr \<and> opt_prop p ''delimiter'' is_PStr
         \<and> opt_prop p ''headers'' is_string_array)
     \<and> obj_prop spec ''fields'' (\<lambda>p. p \<noteq> [] \<and> list_all (\<lambda>(k, v). field_valid v) p)
     \<and> obj_prop spec ''unknown_fields'' (\<lambda>p. keys_within p [''policy'']
         \<and> str_prop p ''policy'' (\<lambda>s. s = ''preserve''))
     \<and> obj_prop spec ''raw'' (\<lambda>p. p = [(''preserve'', PBool True)])"

section \<open>Lemmas on merging\<close>

lemma add_deterministic_map_of:
  "map_of (add_deterministic m it) = (case item_pair it of
     Some (r, c) \<Rightarrow> (map_of m)(r \<mapsto> mk_mapping r c) | None \<Rightarrow> map_of m)"
  by (auto simp: add_deterministic_def dict_simps split: option.splits)

lemma add_ai_map_of:
  "map_of (add_ai m it) = (case item_pair it of
     Some (r, c) \<Rightarrow> (if map_of m r = None then (map_of m)(r \<mapsto> mk_mapping r c) else map_of m)
   | None \<Rightarrow> map_of m)"
  by (auto simp: add_ai_def dict_simps map_of_eq_None_iff split: option.splits)

definition valid_pairs :: "mapping_item list \<Rightarrow> (string \<times> FieldMapping) list" where
  "valid_pairs its = map (\<lambda>(r, c). (r, mk_mapping r c)) (List.map_filter item_pair its)"

lemma valid_pairs_simps [simp]:
  "valid_pairs [] = []"
  "valid_pairs (it # its) = (case item_pair it of
     Some (r, c) \<Rightarrow> (r, mk_mapping r c) # valid_pairs its | None \<Rightarrow> valid_pairs its)"
  by (auto simp: valid_pairs_def List.map_filter_simps split: option.splits)

lemma valid_pairs_append: "valid_pairs (xs @ ys) = valid_pairs xs @ valid_pairs ys"
  by (induction xs) (auto split: option.splits)

lemma foldl_deterministic_map_of:
  "map_of (foldl add_deterministic m its) = map_of m ++ map_of (rev (valid_pairs its))"
  by (induction its arbitrary: m)
    (auto simp: add_deterministic_map_of map_add_upd_left simp del: item_pair.simps
      split: option.splits)

lemma foldl_ai_map_of:
  "map_of (foldl add_ai m its) = map_of (valid_pairs its) ++ map_of m"
proof (induction its arbitrary: m)
  case (Cons it its)
  show ?case
  proof (cases "item_pair it")
    case (Some rc)
    then show ?thesis
      by (cases rc; cases "map_of m (fst rc)")
        (auto simp: Cons.IH add_ai_map_of map_add_def fun_eq_iff simp del: item_pair.simps
          split: option.splits)
  qed (simp add: Cons.IH add_ai_map_of del: item_pair.simps)
qed simp

lemma foldl_concat: "foldl (foldl f) m xss = foldl f m (concat xss)"
  by (induction xss arbitrary: m) auto

definition override_pairs :: "(string \<times> string) list \<Rightarrow> (string \<times> FieldMapping) list" where
  "override_pairs ov = map (\<lambda>(r, c). (r, mk_override r c)) ov"

lemma foldl_override_map_of:
  "map_of (foldl add_override m ov) = map_of m ++ map_of (rev (override_pairs ov))"
  by (induction ov arbitrary: m)
    (auto simp: add_override_def override_pairs_def dict_simps map_add_upd_left)

definition resolved_ok :: "resolved \<Rightarrow> bool" where
  "resolved_ok m \<longleftrightarrow> dict_ok m \<and> (\<forall>k v. map_of m k = Some v \<longrightarrow> fm_raw_field v = k)"

lemma resolved_ok_update:
  "resolved_ok m \<Longrightarrow> fm_raw_field v = k \<Longrightarrow> resolved_ok (AList.update k v m)"
  by (simp add: resolved_ok_def dict_simps)

lemma resolved_ok_steps:
  "resolved_ok m \<Longrightarrow> resolved_ok (add_deterministic m it)"
  "resolved_ok m \<Longrightarrow> resolved_ok (add_ai m it)"
  "resolved_ok m \<Longrightarrow> resolved_ok (add_override m rc)"
  by (auto simp: add_deterministic_def add_ai_def add_override_def mk_mapping_def mk_override_def
      simp del: item_pair.simps split: option.splits prod.splits intro: resolved_ok_update)

lemma foldl_resolved_ok:
  "(\<And>m x. resolved_ok m \<Longrightarrow> resolved_ok (f m x)) \<Longrightarrow> resolved_ok m \<Longrightarrow> resolved_ok (foldl f m xs)"
  by (induction xs arbitrary: m) auto

lemma resolve_mappings_ok: "resolved_ok (resolve_mappings pkg ov)"
proof -
  have "resolved_ok []" by (simp add: resolved_ok_def)
  then show ?thesis unfolding resolve_mappings_def Let_def foldl_concat
    by (intro foldl_resolved_ok resolved_ok_steps)
qed

lemma set_merge_overrides:
  "m \<in> set (merge_overrides pkg ov)
     \<longleftrightarrow> map_of (resolve_mappings pkg ov) (fm_raw_field m) = Some m"
proof -
  have ok: "dict_ok (resolve_mappings pkg ov)"
    and key: "\<And>k v. map_of (resolve_mappings pkg ov) k = Some v \<Longrightarrow> fm_raw_field v = k"
    using resolve_mappings_ok [of pkg ov] by (auto simp: resolved_ok_def)
  have "m \<in> set (merge_overrides pkg ov)
      \<longleftrightarrow> (\<exists>k. map_of (resolve_mappings pkg ov) k = Some m)"
    unfolding merge_overrides_def using dict_ok_map_of [OF ok] by force
  then show ?thesis using key by blast
qed

lemma distinct_merge_overrides: "distinct (map fm_raw_field (merge_overrides pkg ov))"
proof -
  have ok: "resolved_ok (resolve_mappings pkg ov)" by (rule resolve_mappings_ok)
  then have "map fm_raw_field (merge_overrides pkg ov) = map fst (resolve_mappings pkg ov)"
    by (auto simp: merge_overrides_def resolved_ok_def dict_ok_map_of)
  then show ?thesis using ok by (simp add: resolved_ok_def dict_ok_def)
qed

section \<open>Lemmas on the generated specification\<close>

lemma list_all_strip: "list_all p s \<Longrightarrow> list_all p (rstrip_by q (lstrip_by q s))"
  by (auto simp: rstrip_by_def lstrip_by_def list_all_iff dest!: set_dropWhileD)

lemma clean_parser_id_pattern: "id_pattern (clean_parser_id source_id)"
proof -
  define sub where "sub = map (\<lambda>c. if is_id_char c then c else CHR ''_'') (str_lower source_id)"
  define clean where "clean = rstrip_by (\<lambda>c. c = CHR ''_'') (lstrip_by (\<lambda>c. c = CHR ''_'') sub)"
  have "list_all is_id_char sub" by (auto simp: sub_def list_all_iff is_id_char_def)
  then have all: "list_all is_id_char clean" unfolding clean_def by (rule list_all_strip)
  have "clean_parser_id source_id = (case clean of [] \<Rightarrow> ''source_parser''
      | c # _ \<Rightarrow> if is_low_alnum c then clean else ''source_'' @ clean)"
    unfolding clean_parser_id_def clean_def sub_def Let_def ..
  moreover have "is_low_alnum (CHR ''s'')" "list_all is_id_char ''ource_''"
    "list_all is_id_char ''ource_parser''" by code_simp+
  ultimately show ?thesis using all by (cases clean) (simp_all add: id_pattern_def)
qed

lemma field_typing_valid:
  "fst (field_typing c) \<in> set field_types" "list_all is_operation (map PStr (snd (field_typing c)))"
  by (simp_all add: field_typing_def Let_def field_types_def is_operation_def operations_def)

lemma mapping_def_valid: "field_valid (mapping_def m) \<longleftrightarrow> map_to_pattern (fm_canonical_field m)"
  using field_typing_valid [of "fm_canonical_field m"]
  by (auto simp: mapping_def_def field_def_def field_valid_def keys_within_def str_prop_def
      split: prod.splits)

lemma foldl_update_distinct:
  assumes "distinct (map f ms)" "f ` set ms \<inter> fst ` set d = {}"
  shows "foldl (\<lambda>d m. AList.update (f m) (g m) d) d ms = d @ map (\<lambda>m. (f m, g m)) ms"
  using assms
proof (induction ms arbitrary: d)
  case (Cons m ms)
  then have "AList.update (f m) (g m) d = d @ [(f m, g m)]"
    by (intro update_fresh) auto
  with Cons show ?case by auto
qed simp

lemma fields_dict_distinct:
  assumes "distinct (map fm_raw_field ms)"
  shows "fields_dict ms \<noteq> []"
    and "list_all (\<lambda>(k, v). field_valid v) (fields_dict ms) \<longleftrightarrow> list_all (\<lambda>m. map_to_pattern (fm_canonical_field m)) ms"
proof -
  have "field_valid (field_def ''string'' ''event.action'' [''trim''])" by code_simp
  then show "fields_dict ms \<noteq> []"
    "list_all (\<lambda>(k, v). field_valid v) (fields_dict ms) \<longleftrightarrow> list_all (\<lambda>m. map_to_pattern (fm_canonical_field m)) ms"
    using foldl_update_distinct [OF assms, of "[]" mapping_def]
    by (auto simp: fields_dict_def Let_def list_all_iff mapping_def_valid)
qed

lemma spec_format_body_types:
  "fst (spec_format f) \<in> set body_types" "snd (spec_format f) \<in> set body_types"
  by (simp_all add: spec_format_def Let_def body_types_def)

section \<open>Properties\<close>

text \<open>
  C5. Precedence of mappings: for every raw field the merged result holds the reviewer's
  override if there is one, otherwise the last valid deterministic mapping, otherwise the first
  valid AI suggestion, and nothing else; raw fields are not repeated.
\<close>

theorem merge_precedence:
  "map_of (resolve_mappings pkg (Some ov))
     = map_of (valid_pairs (concat (cp_ai_candidate_specs pkg)))
       ++ map_of (rev (valid_pairs (cp_deterministic_mappings pkg)))
       ++ map_of (rev (override_pairs ov))
   \<and> (\<forall>m. m \<in> set (merge_overrides pkg (Some ov))
         \<longleftrightarrow> map_of (resolve_mappings pkg (Some ov)) (fm_raw_field m) = Some m)
   \<and> distinct (map fm_raw_field (merge_overrides pkg (Some ov)))"
  by (simp add: resolve_mappings_def foldl_concat foldl_override_map_of foldl_ai_map_of
      foldl_deterministic_map_of set_merge_overrides distinct_merge_overrides)

text \<open>
  C6. Contract conformance of generated specifications: for every source id and detected format the
  specification generated from merged mappings satisfies \<open>parser_spec.schema.json\<close> if and only if the
  canonical field of every mapping is a dotted path of identifiers. Identifier, formats, types and
  operations always conform; the paths are the callers' business, since neither merging nor
  generation looks at them, and an override may be any text.
\<close>

theorem generated_spec_conforms:
  "parser_spec_valid (generate_ulpf_parser_spec source_id detected_format (merge_overrides pkg ov))
   \<longleftrightarrow> list_all (\<lambda>m. map_to_pattern (fm_canonical_field m)) (merge_overrides pkg ov)"
proof -
  note f = fields_dict_distinct [OF distinct_merge_overrides]
  have "version_pattern ''1.0.0''" by code_simp
  then show ?thesis
    using f clean_parser_id_pattern [of source_id] spec_format_body_types [of detected_format]
    by (simp add: parser_spec_valid_def generate_ulpf_parser_spec_def keys_within_def str_prop_def
        obj_prop_def opt_prop_def)
qed

text \<open>An override with an ordinary path, and one with a text that is none.\<close>

definition override_package :: candidate_package where
  "override_package = \<lparr>cp_source_id = Some ''Palo Alto'', cp_detected_format = Some ''CEF'', cp_deterministic_mappings = [],
     cp_ai_candidate_specs = []\<rparr>"

theorem generated_spec_conforms_witness:
  "parser_spec_valid (generate_ulpf_parser_spec ''Palo Alto'' ''CEF''
     (merge_overrides override_package (Some [(''src'', ''src.ip''), (''dpt'', ''dst.port'')])))
   \<and> \<not> parser_spec_valid (generate_ulpf_parser_spec ''Palo Alto'' ''CEF''
     (merge_overrides override_package (Some [(''src'', ''source ip'')])))"
proof -
  have "list_all (\<lambda>m. map_to_pattern (fm_canonical_field m))
      (merge_overrides override_package (Some [(''src'', ''src.ip''), (''dpt'', ''dst.port'')]))"
    "\<not> list_all (\<lambda>m. map_to_pattern (fm_canonical_field m)) (merge_overrides override_package (Some [(''src'', ''source ip'')]))"
    by code_simp+
  then show ?thesis unfolding generated_spec_conforms by blast
qed

end
