(* ===== verification/Deployer.thy ===== *)
theory Deployer
  imports SpecCompiler
begin

text \<open>
  The deployment engine, \<open>ml/deployment/deployer.py\<close>: the registry of active specifications
  per source and the history used by rollback. Both dictionaries are maps, since only lookups
  matter; \<open>deploy_spec\<close> and \<open>rollback\<close> return the new engine or the exception they raise,
  in which case the engine is unchanged.

  The interface \<open>revision_stack\<close> states what the engine promises its clients: per source a
  stack of revisions, onto which a deployment pushes and from which a rollback pops, never below
  one revision. The engine is an interpretation of it.
\<close>

section \<open>State and operations\<close>

record engine =
  active_registry :: "string \<rightharpoonup> CompiledParserSpec"
  revision_history :: "string \<rightharpoonup> CompiledParserSpec list"

definition init_engine :: engine where
  "init_engine = \<lparr>active_registry = Map.empty, revision_history = Map.empty\<rparr>"

record deploy_receipt =
  dr_status :: string
  dr_source_id :: string
  dr_active_spec_id :: string
  dr_spec_hash :: string
  dr_version :: "int option"

definition deploy_spec ::
    "engine \<Rightarrow> CompiledParserSpec \<Rightarrow> bool \<Rightarrow> (engine \<times> deploy_receipt) result" where
  "deploy_spec e spec validation_passed =
     (if \<not> validation_passed then Inl (ValueError (''Cannot deploy spec '' @ cs_spec_id spec
         @ '': Test bench validation failed.''))
      else
        let source_id = cs_source_id spec;
            e1 = (case active_registry e source_id of
                    None \<Rightarrow> e
                  | Some old \<Rightarrow>
                      let h = (case revision_history e source_id of None \<Rightarrow> [] | Some l \<Rightarrow> l)
                      in e\<lparr>revision_history := (revision_history e)(source_id \<mapsto> h @ [old])\<rparr>);
            e2 = e1\<lparr>active_registry := (active_registry e1)(source_id \<mapsto> spec)\<rparr>
        in Inr (e2, \<lparr>dr_status = ''DEPLOYED'', dr_source_id = source_id,
                     dr_active_spec_id = cs_spec_id spec, dr_spec_hash = cs_spec_hash spec,
                     dr_version = Some (cs_version spec)\<rparr>))"

definition no_history :: "string \<Rightarrow> string" where
  "no_history source_id = ''No historical revision available for rollback on source: '' @ source_id"

definition rollback :: "engine \<Rightarrow> string \<Rightarrow> (engine \<times> deploy_receipt) result" where
  "rollback e source_id =
     (case revision_history e source_id of
        None \<Rightarrow> Inl (KeyError (no_history source_id))
      | Some h \<Rightarrow>
          if h = [] then Inl (KeyError (no_history source_id))
          else
            let previous_spec = last h;
                e' = e\<lparr>revision_history := (revision_history e)(source_id \<mapsto> butlast h),
                       active_registry := (active_registry e)(source_id \<mapsto> previous_spec)\<rparr>
            in Inr (e', \<lparr>dr_status = ''ROLLED_BACK'', dr_source_id = source_id,
                         dr_active_spec_id = cs_spec_id previous_spec,
                         dr_spec_hash = cs_spec_hash previous_spec, dr_version = None\<rparr>))"

definition get_active_spec :: "engine \<Rightarrow> string \<Rightarrow> CompiledParserSpec option" where
  "get_active_spec e source_id = active_registry e source_id"

section \<open>Invariant and runs\<close>

text \<open>A source with a history has an active specification; every specification is filed under its source.\<close>

definition engine_inv :: "engine \<Rightarrow> bool" where
  "engine_inv e \<longleftrightarrow>
     (\<forall>s. active_registry e s = None \<longrightarrow> revision_history e s = None)
     \<and> (\<forall>s a. active_registry e s = Some a \<longrightarrow> cs_source_id a = s)
     \<and> (\<forall>s h. revision_history e s = Some h \<longrightarrow> list_all (\<lambda>a. cs_source_id a = s) h)"

inductive engine_step :: "engine \<Rightarrow> engine \<Rightarrow> bool" where
  step_deploy: "deploy_spec e spec b = Inr (e', r) \<Longrightarrow> engine_step e e'"
| step_rollback: "rollback e s = Inr (e', r) \<Longrightarrow> engine_step e e'"

inductive engine_reachable :: "engine \<Rightarrow> bool" where
  reach_init: "engine_reachable init_engine"
| reach_step: "engine_reachable e \<Longrightarrow> engine_step e e' \<Longrightarrow> engine_reachable e'"

inductive_cases engine_step_cases [elim]: "engine_step e e'"

text \<open>All revisions of a source, the active one first, then the history from the newest to the oldest.\<close>

definition history_of :: "engine \<Rightarrow> string \<Rightarrow> CompiledParserSpec list" where
  "history_of e s = (case revision_history e s of None \<Rightarrow> [] | Some h \<Rightarrow> h)"

definition revisions :: "engine \<Rightarrow> string \<Rightarrow> CompiledParserSpec list" where
  "revisions e s = (case active_registry e s of None \<Rightarrow> [] | Some a \<Rightarrow> a # rev (history_of e s))"

section \<open>The interface of a revision stack\<close>

locale revision_stack =
  fixes inv :: "'e \<Rightarrow> bool"
    and stack :: "'e \<Rightarrow> 'k \<Rightarrow> 'a list"
    and key :: "'a \<Rightarrow> 'k"
    and push :: "'e \<Rightarrow> 'a \<Rightarrow> 'e option"
    and pop :: "'e \<Rightarrow> 'k \<Rightarrow> 'e option"
  assumes push_inv: "inv e \<Longrightarrow> push e a = Some e' \<Longrightarrow> inv e'"
    and pop_inv: "inv e \<Longrightarrow> pop e k = Some e' \<Longrightarrow> inv e'"
    and push_total: "push e a \<noteq> None"
    and push_stack: "inv e \<Longrightarrow> push e a = Some e'
          \<Longrightarrow> stack e' = (stack e)(key a := a # stack e (key a))"
    and pop_None: "inv e \<Longrightarrow> pop e k = None \<longleftrightarrow> length (stack e k) \<le> 1"
    and pop_stack: "inv e \<Longrightarrow> pop e k = Some e' \<Longrightarrow> stack e' = (stack e)(k := tl (stack e k))"
begin

lemma push_pop:
  assumes "inv e" "push e a = Some e1" "stack e (key a) \<noteq> []"
  shows "\<exists>e2. pop e1 (key a) = Some e2 \<and> stack e2 = stack e"
proof -
  note i = push_inv [OF assms(1,2)]
  note s = push_stack [OF assms(1,2)]
  from assms(3) s have "pop e1 (key a) \<noteq> None" by (simp add: pop_None [OF i] not_le)
  then obtain e2 where e2: "pop e1 (key a) = Some e2" by blast
  have "stack e2 = stack e" using pop_stack [OF i e2] s by auto
  with e2 show ?thesis by blast
qed

text \<open>\<open>n\<close> pops undo \<open>n\<close> pushes to the same key.\<close>

fun pushes :: "'e \<Rightarrow> 'a list \<Rightarrow> 'e option" where
  "pushes e [] = Some e"
| "pushes e (a # as) = (case push e a of None \<Rightarrow> None | Some e' \<Rightarrow> pushes e' as)"

fun pops :: "'e \<Rightarrow> 'k \<Rightarrow> nat \<Rightarrow> 'e option" where
  "pops e k 0 = Some e"
| "pops e k (Suc n) = (case pop e k of None \<Rightarrow> None | Some e' \<Rightarrow> pops e' k n)"

lemma pops_stack:
  "inv e \<Longrightarrow> n < length (stack e k) \<Longrightarrow>
     \<exists>e'. pops e k n = Some e' \<and> inv e' \<and> stack e' = (stack e)(k := drop n (stack e k))"
proof (induction n arbitrary: e)
  case 0
  then show ?case by simp
next
  case (Suc n)
  then have "pop e k \<noteq> None" by (simp add: pop_None)
  then obtain e1 where e1: "pop e k = Some e1" by blast
  have s1: "stack e1 = (stack e)(k := tl (stack e k))" using Suc.prems(1) e1 by (rule pop_stack)
  have "n < length (stack e1 k)" using Suc.prems(2) s1 by simp
  with Suc.IH [OF pop_inv [OF Suc.prems(1) e1]] obtain e' where
    "pops e1 k n = Some e'" "inv e'" "stack e' = (stack e1)(k := drop n (stack e1 k))" by blast
  then show ?case using e1 s1 by (auto simp: drop_Suc)
qed

lemma pushes_stack:
  "inv e \<Longrightarrow> list_all (\<lambda>a. key a = k) as \<Longrightarrow>
     \<exists>e'. pushes e as = Some e' \<and> inv e' \<and> stack e' = (stack e)(k := rev as @ stack e k)"
proof (induction as arbitrary: e)
  case Nil
  then show ?case by simp
next
  case (Cons a as)
  obtain e1 where e1: "push e a = Some e1" using push_total by blast
  have s1: "stack e1 = (stack e)(k := a # stack e k)"
    using push_stack [OF Cons.prems(1) e1] Cons.prems(2) by simp
  have "list_all (\<lambda>a. key a = k) as" using Cons.prems(2) by simp
  from Cons.IH [OF push_inv [OF Cons.prems(1) e1] this] obtain e' where
    "pushes e1 as = Some e'" "inv e'" "stack e' = (stack e1)(k := rev as @ stack e1 k)" by blast
  then show ?case using e1 s1 by auto
qed

lemma pushes_pops:
  assumes "inv e" "list_all (\<lambda>a. key a = k) as" "stack e k \<noteq> []"
  shows "\<exists>e1 e2. pushes e as = Some e1 \<and> pops e1 k (length as) = Some e2 \<and> stack e2 = stack e"
proof -
  from pushes_stack [OF assms(1,2)] obtain e1 where e1: "pushes e as = Some e1" "inv e1"
    and s1: "stack e1 = (stack e)(k := rev as @ stack e k)" by blast
  have "length as < length (stack e1 k)" using assms(3) s1 by simp
  from pops_stack [OF e1(2) this] e1(1) s1 show ?thesis by auto
qed

end

section \<open>The engine is a revision stack\<close>

definition deploy_push :: "engine \<Rightarrow> CompiledParserSpec \<Rightarrow> engine option" where
  "deploy_push e spec = (case deploy_spec e spec True of Inr (e', _) \<Rightarrow> Some e' | Inl _ \<Rightarrow> None)"

definition rollback_pop :: "engine \<Rightarrow> string \<Rightarrow> engine option" where
  "rollback_pop e s = (case rollback e s of Inr (e', _) \<Rightarrow> Some e' | Inl _ \<Rightarrow> None)"

lemma deploy_spec_passed: "deploy_spec e spec b = Inr er \<Longrightarrow> b"
  by (auto simp: deploy_spec_def split: if_splits)

lemma deploy_push_Some: "deploy_spec e spec b = Inr (e', r) \<Longrightarrow> deploy_push e spec = Some e'"
  using deploy_spec_passed by (fastforce simp: deploy_push_def)

lemma rollback_pop_Some: "rollback e s = Inr (e', r) \<Longrightarrow> rollback_pop e s = Some e'"
  by (simp add: rollback_pop_def)

lemma deploy_push_fields:
  assumes "deploy_push e spec = Some e'"
  shows "active_registry e' = (active_registry e)(cs_source_id spec \<mapsto> spec)"
    and "revision_history e' = (case active_registry e (cs_source_id spec) of
           None \<Rightarrow> revision_history e
         | Some old \<Rightarrow> (revision_history e)(cs_source_id spec \<mapsto>
             history_of e (cs_source_id spec) @ [old]))"
  using assms by (auto simp: deploy_push_def deploy_spec_def history_of_def Let_def split: option.splits)

lemma rollback_pop_fields:
  assumes "rollback_pop e k = Some e'"
  shows "history_of e k \<noteq> []" "revision_history e k = Some (history_of e k)"
    and "active_registry e' = (active_registry e)(k \<mapsto> last (history_of e k))"
    and "revision_history e' = (revision_history e)(k \<mapsto> butlast (history_of e k))"
  using assms
  by (auto simp: rollback_pop_def rollback_def history_of_def Let_def split: option.splits if_splits)

lemma engine_inv_history:
  "engine_inv e \<Longrightarrow> active_registry e s = None \<Longrightarrow> history_of e s = []"
  "engine_inv e \<Longrightarrow> a \<in> set (history_of e s) \<Longrightarrow> cs_source_id a = s"
  by (auto simp: engine_inv_def history_of_def list_all_iff split: option.splits)
    (metis list_all_iff)

lemma deploy_push_inv:
  assumes "engine_inv e" "deploy_push e spec = Some e'"
  shows "engine_inv e'"
proof (cases "active_registry e (cs_source_id spec)")
  case None
  then show ?thesis using assms(1) deploy_push_fields [OF assms(2)]
    by (auto simp: engine_inv_def)
next
  case (Some old)
  have "list_all (\<lambda>a. cs_source_id a = cs_source_id spec) (history_of e (cs_source_id spec) @ [old])"
    using assms(1) Some engine_inv_history(2) [OF assms(1)]
    by (auto simp: list_all_iff engine_inv_def)
  then show ?thesis using assms(1) deploy_push_fields [OF assms(2)] Some
    by (simp add: engine_inv_def)
qed

lemma rollback_pop_inv:
  assumes "engine_inv e" "rollback_pop e k = Some e'"
  shows "engine_inv e'"
proof -
  note f = rollback_pop_fields [OF assms(2)]
  have "cs_source_id a = k" if "a \<in> set (history_of e k)" for a
    using engine_inv_history(2) [OF assms(1) that] .
  then have "cs_source_id (last (history_of e k)) = k"
    and "list_all (\<lambda>a. cs_source_id a = k) (butlast (history_of e k))"
    using f(1) by (auto simp: list_all_iff dest: in_set_butlastD)
  then show ?thesis using assms(1) by (simp add: engine_inv_def f(3,4))
qed

lemma deploy_push_stack:
  assumes "engine_inv e" "deploy_push e spec = Some e'"
  shows "revisions e' = (revisions e)(cs_source_id spec := spec # revisions e (cs_source_id spec))"
proof
  fix s
  note f = deploy_push_fields [OF assms(2)]
  show "revisions e' s = ((revisions e)(cs_source_id spec := spec # revisions e (cs_source_id spec))) s"
  proof (cases "active_registry e (cs_source_id spec)")
    case None
    then show ?thesis using engine_inv_history(1) [OF assms(1) None] f
      by (simp add: revisions_def history_of_def split: option.split)
  next
    case (Some old)
    then have "history_of e' s = (if s = cs_source_id spec
        then history_of e (cs_source_id spec) @ [old] else history_of e s)"
      using f(2) by (simp add: history_of_def [of e'] history_of_def [of e s])
    then show ?thesis using f(1) Some
      by (cases "s = cs_source_id spec") (simp_all add: revisions_def split: option.split)
  qed
qed

lemma rollback_pop_stack:
  assumes "engine_inv e" "rollback_pop e k = Some e'"
  shows "revisions e' = (revisions e)(k := tl (revisions e k))"
proof
  fix s
  note f = rollback_pop_fields [OF assms(2)]
  obtain a where a: "active_registry e k = Some a"
    using assms(1) f(1) engine_inv_history(1) by fastforce
  have hist: "history_of e' s = (if s = k then butlast (history_of e k) else history_of e s)"
    using f(4) by (simp add: history_of_def [of e'] history_of_def [of e s])
  have "last (history_of e k) # rev (butlast (history_of e k)) = rev (history_of e k)"
    by (subst (3) append_butlast_last_id [OF f(1), symmetric])
      (simp only: rev_append rev.simps append.simps)
  then show "revisions e' s = ((revisions e)(k := tl (revisions e k))) s"
    using f(3) hist a by (cases "s = k") (simp_all add: revisions_def split: option.split)
qed

lemma rollback_pop_None:
  assumes "engine_inv e"
  shows "rollback_pop e k = None \<longleftrightarrow> length (revisions e k) \<le> 1"
proof (cases "active_registry e k")
  case None
  with assms have "revision_history e k = None" by (simp add: engine_inv_def)
  with None show ?thesis by (simp add: rollback_pop_def rollback_def revisions_def history_of_def)
next
  case (Some a)
  then show ?thesis by (auto simp: rollback_pop_def rollback_def revisions_def history_of_def Let_def
        split: option.splits)
qed

interpretation dep: revision_stack engine_inv revisions cs_source_id deploy_push rollback_pop
proof (unfold_locales, goal_cases)
  case 1 then show ?case by (rule deploy_push_inv)
next
  case 2 then show ?case by (rule rollback_pop_inv)
next
  case 3 show ?case by (simp add: deploy_push_def deploy_spec_def Let_def)
next
  case 4 then show ?case by (rule deploy_push_stack)
next
  case 5 then show ?case by (rule rollback_pop_None)
next
  case 6 then show ?case by (rule rollback_pop_stack)
qed

lemma reachable_engine_inv: "engine_reachable e \<Longrightarrow> engine_inv e"
proof (induction rule: engine_reachable.induct)
  case reach_init
  show ?case by (simp add: engine_inv_def init_engine_def)
next
  case (reach_step e e')
  from reach_step(2) show ?case
    using reach_step(3) deploy_push_inv deploy_push_Some rollback_pop_inv rollback_pop_Some
    by cases blast+
qed

text \<open>Histories of calls, as a client makes them.\<close>

fun deploy_all :: "engine \<Rightarrow> CompiledParserSpec list \<Rightarrow> engine result" where
  "deploy_all e [] = Inr e"
| "deploy_all e (a # as) = res_bind (deploy_spec e a True) (\<lambda>(e', _). deploy_all e' as)"

fun rollback_times :: "engine \<Rightarrow> string \<Rightarrow> nat \<Rightarrow> engine result" where
  "rollback_times e s 0 = Inr e"
| "rollback_times e s (Suc n) = res_bind (rollback e s) (\<lambda>(e', _). rollback_times e' s n)"

lemma deploy_all_pushes: "dep.pushes e as = Some e' \<Longrightarrow> deploy_all e as = Inr e'"
  by (induction as arbitrary: e)
    (auto simp: deploy_push_def split: option.splits sum.splits)

lemma rollback_times_pops: "dep.pops e k n = Some e' \<Longrightarrow> rollback_times e k n = Inr e'"
  by (induction n arbitrary: e)
    (auto simp: rollback_pop_def split: option.splits sum.splits)

section \<open>Properties\<close>

text \<open>
  C7. The deployment engine refines a stack of revisions per source: in every state reachable
  by deployments and rollbacks, a deployment pushes the new specification on the stack of its
  own source and leaves every other source alone, and a rollback pops the stack of its source.
\<close>

theorem engine_refines_stack:
  assumes "engine_reachable e"
  shows "(deploy_spec e spec True = Inr (e1, r1) \<longrightarrow>
            revisions e1 = (revisions e)(cs_source_id spec := spec # revisions e (cs_source_id spec))
            \<and> get_active_spec e1 (cs_source_id spec) = Some spec)
       \<and> (rollback e s = Inr (e2, r2) \<longrightarrow> revisions e2 = (revisions e)(s := tl (revisions e s)))
       \<and> ((\<exists>x. rollback e s = Inl x) \<longleftrightarrow> length (revisions e s) \<le> 1)"
proof (intro conjI impI)
  note inv = reachable_engine_inv [OF assms]
  show "revisions e1 = (revisions e)(cs_source_id spec := spec # revisions e (cs_source_id spec))"
    and "get_active_spec e1 (cs_source_id spec) = Some spec"
    if d: "deploy_spec e spec True = Inr (e1, r1)"
    using dep.push_stack [OF inv deploy_push_Some [OF d]] d
    by (auto simp: deploy_spec_def get_active_spec_def Let_def)
  show "revisions e2 = (revisions e)(s := tl (revisions e s))" if r: "rollback e s = Inr (e2, r2)"
    using inv rollback_pop_Some [OF r] by (rule dep.pop_stack)
  show "(\<exists>x. rollback e s = Inl x) \<longleftrightarrow> length (revisions e s) \<le> 1"
    using dep.pop_None [OF inv, of s] by (auto simp: rollback_pop_def split: sum.splits)
qed

definition demo_spec :: "string \<Rightarrow> string \<Rightarrow> CompiledParserSpec" where
  "demo_spec src ident = \<lparr>cs_spec_id = ident, cs_source_id = src, cs_version = 1,
     cs_target_runtime = LOGSTASH, cs_mappings = [], cs_compiled_code = [], cs_spec_hash = []\<rparr>"

theorem engine_refines_stack_witness:
  "(\<exists>x. rollback init_engine ''fw'' = Inl x) \<longleftrightarrow> length (revisions init_engine ''fw'') \<le> 1"
  using engine_refines_stack [OF reach_init, of "demo_spec ''fw'' ''a''"] by blast

text \<open>
  C8. Rollback undoes deployment: after deploying any number of specifications to a source
  that already had an active one, the same number of rollbacks succeeds and restores every
  source's active specification and history.
\<close>

theorem rollbacks_undo_deployments:
  assumes "engine_reachable e" "list_all (\<lambda>a. cs_source_id a = s) specs"
    "get_active_spec e s \<noteq> None"
  shows "\<exists>e1 e2. deploy_all e specs = Inr e1 \<and> rollback_times e1 s (length specs) = Inr e2
           \<and> revisions e2 = revisions e \<and> get_active_spec e2 = get_active_spec e"
proof -
  note inv = reachable_engine_inv [OF assms(1)]
  have "revisions e s \<noteq> []" using assms(3) by (auto simp: revisions_def get_active_spec_def)
  from dep.pushes_pops [OF inv assms(2) this] obtain e1 e2 where
    "deploy_all e specs = Inr e1" "rollback_times e1 s (length specs) = Inr e2"
    and eq: "revisions e2 = revisions e"
    using deploy_all_pushes rollback_times_pops by blast
  moreover have "get_active_spec e2 = get_active_spec e"
  proof
    fix k
    show "get_active_spec e2 k = get_active_spec e k"
      using fun_cong [OF eq, of k] by (auto simp: get_active_spec_def revisions_def split: option.splits)
  qed
  ultimately show ?thesis by blast
qed

definition demo_engine :: engine where
  "demo_engine = init_engine\<lparr>active_registry := [''fw'' \<mapsto> demo_spec ''fw'' ''a'']\<rparr>"

lemma demo_engine_reachable: "engine_reachable demo_engine"
proof (rule reach_step [OF reach_init step_deploy [where b = True]])
  show "deploy_spec init_engine (demo_spec ''fw'' ''a'') True = Inr (demo_engine,
      \<lparr>dr_status = ''DEPLOYED'', dr_source_id = ''fw'', dr_active_spec_id = ''a'',
       dr_spec_hash = [], dr_version = Some 1\<rparr>)"
    by (simp add: deploy_spec_def demo_engine_def demo_spec_def init_engine_def Let_def)
qed

theorem rollbacks_undo_deployments_witness:
  "\<exists>e1 e2. deploy_all demo_engine [demo_spec ''fw'' ''b'', demo_spec ''fw'' ''c''] = Inr e1
     \<and> rollback_times e1 ''fw'' 2 = Inr e2 \<and> revisions e2 = revisions demo_engine
     \<and> get_active_spec e2 = get_active_spec demo_engine"
proof -
  have a: "list_all (\<lambda>a. cs_source_id a = ''fw'') [demo_spec ''fw'' ''b'', demo_spec ''fw'' ''c'']"
    by (simp add: demo_spec_def)
  have b: "get_active_spec demo_engine ''fw'' \<noteq> None"
    by (simp add: demo_engine_def get_active_spec_def)
  from rollbacks_undo_deployments [OF demo_engine_reachable a b] show ?thesis
    by (simp add: numeral_2_eq_2 del: deploy_all.simps rollback_times.simps)
qed

end
