(* ===== verification/PyFloat.thy ===== *)
theory PyFloat
  imports Prelude "HOL-Library.Log_Nat"
begin

text \<open>
  Python's \<open>float\<close>, an IEEE 754 binary64 number, as a rational with explicit rounding.
  \<open>fl x\<close> is the double nearest to the exact value \<open>x\<close> (ties to even, subnormals
  included); every float operation of a source is written \<open>fl (a + b)\<close>, a decimal literal
  such as \<open>0.95\<close> is \<open>fl (95 / 100)\<close>, and the true division of two integers is
  \<open>fl (a / b)\<close>, since CPython rounds it correctly. Overflow beyond the largest double is
  not modelled: the sources only form ratios, scores and times.

  \<open>py_round x n\<close> is \<open>round(x, n)\<close>: the exact value is rounded to \<open>n\<close> decimals, ties
  to even, and the decimal is rounded to a double.

  What the components need of rounding is the interface \<open>rounding\<close>: it is monotone and
  fixes 0 and 1. Its interpretation \<open>ieee\<close> proves it for \<open>fl\<close>.
\<close>

named_theorems float_bounds \<open>bounds kept by rounded operations\<close>

section \<open>Definitions\<close>

definition round_half_even :: "rat \<Rightarrow> int" where
  "round_half_even x = (let n = \<lfloor>x\<rfloor>; f = x - of_int n in
     if f < 1 / 2 then n else if f > 1 / 2 then n + 1 else if even n then n else n + 1)"

text \<open>The exponent \<open>e\<close> with \<open>2 powi e \<le> x < 2 powi (e + 1)\<close>, for positive \<open>x\<close>.\<close>

definition ilog2 :: "rat \<Rightarrow> int" where
  "ilog2 x = (let (n, d) = quotient_of x;
                  e = int (floorlog 2 (nat n)) - int (floorlog 2 (nat d))
              in if 2 powi e \<le> x then e else e - 1)"

definition ulp_exp :: "rat \<Rightarrow> int" where
  "ulp_exp x = max (ilog2 \<bar>x\<bar> - 52) (- 1074)"

definition fl :: "rat \<Rightarrow> rat" where
  "fl x = (if x = 0 then 0
     else of_int (round_half_even (x / 2 powi ulp_exp x)) * 2 powi ulp_exp x)"

definition py_round :: "rat \<Rightarrow> nat \<Rightarrow> rat" where
  "py_round x n = fl (of_int (round_half_even (x * 10 ^ n)) / 10 ^ n)"

text \<open>The number of binary digits by arithmetic on integers, for evaluation.\<close>

function bit_len :: "int \<Rightarrow> int" where
  "bit_len i = (if i \<le> 0 then 0 else 1 + bit_len (i div 2))"
  by pat_completeness auto
termination
  by (relation "measure nat") auto

declare bit_len.simps [simp del]

lemma bit_len_floorlog: "bit_len i = int (floorlog 2 (nat i))"
proof (induction i rule: bit_len.induct)
  case (1 i)
  then show ?case
    by (subst bit_len.simps, subst compute_floorlog) (auto simp: nat_div_distrib)
qed

lemma ilog2_code [code]:
  "ilog2 x = (let (n, d) = quotient_of x; e = bit_len n - bit_len d
              in if 2 powi e \<le> x then e else e - 1)"
  by (simp add: ilog2_def bit_len_floorlog)

section \<open>Rounding to the nearest integer\<close>

lemma round_half_even_of_int [simp]: "round_half_even (of_int n) = n"
  by (simp add: round_half_even_def)

lemma round_half_even_bounds:
  "of_int (round_half_even x) \<le> x + 1 / 2" "x - 1 / 2 \<le> of_int (round_half_even x)"
  using of_int_floor_le [of x] floor_less_iff [of x "\<lfloor>x\<rfloor> + 1"]
  by (simp_all add: round_half_even_def Let_def split: if_splits, linarith+)

lemma round_half_even_cases: "round_half_even x = \<lfloor>x\<rfloor> \<or> round_half_even x = \<lfloor>x\<rfloor> + 1"
  by (auto simp: round_half_even_def Let_def)

lemma round_half_even_mono:
  assumes "x \<le> y"
  shows "round_half_even x \<le> round_half_even y"
proof (cases "\<lfloor>x\<rfloor> = \<lfloor>y\<rfloor>")
  case True
  with assms show ?thesis by (auto simp: round_half_even_def Let_def)
next
  case False
  with floor_mono [OF assms] have "\<lfloor>x\<rfloor> + 1 \<le> \<lfloor>y\<rfloor>" by linarith
  then show ?thesis using round_half_even_cases [of x] round_half_even_cases [of y] by linarith
qed

lemma round_half_even_uminus: "round_half_even (- x) = - round_half_even x"
proof (cases "x \<in> \<int>")
  case True
  then obtain n where "x = of_int n" by (auto elim: Ints_cases)
  then have "round_half_even (- x) = round_half_even (of_int (- n))" by simp
  also have "\<dots> = - round_half_even x" using \<open>x = of_int n\<close> by (simp only: round_half_even_of_int)
  finally show ?thesis .
next
  case False
  then have "x \<noteq> of_int \<lfloor>x\<rfloor>" by (metis Ints_of_int)
  then have "\<lfloor>- x\<rfloor> = - \<lfloor>x\<rfloor> - 1" by (simp add: floor_minus ceiling_altdef)
  then show ?thesis by (auto simp: round_half_even_def Let_def)
qed

section \<open>The binary exponent\<close>

lemma powi_two_mono: "a \<le> b \<Longrightarrow> (2 :: rat) powi a \<le> 2 powi b"
  by (simp add: power_int_increasing)

lemma powi_two_strict_mono: "a < b \<Longrightarrow> (2 :: rat) powi a < 2 powi b"
  by (simp add: power_int_strict_increasing)

lemma powi_two_less_iff: "(2 :: rat) powi a < 2 powi b \<longleftrightarrow> a < b"
  by (metis powi_two_mono powi_two_strict_mono not_le)

lemma powi_two_nat: "(2 :: rat) powi int n = 2 ^ n"
  by simp

lemma powi_two_pos: "0 < (2 :: rat) powi a"
  by simp

lemma floorlog_rat_bounds:
  assumes "0 < n"
  shows "(2 :: rat) powi (int (floorlog 2 (nat n)) - 1) \<le> of_int n"
    and "of_int n < (2 :: rat) powi int (floorlog 2 (nat n))"
proof -
  define a where "a = floorlog 2 (nat n)"
  have b: "2 ^ (a - 1) \<le> nat n" "nat n < 2 ^ a"
    using floorlog_bounds [of "nat n" 2] assms by (auto simp: a_def)
  have "a \<noteq> 0" using assms by (simp add: a_def floorlog_eq_zero_iff)
  then have i: "int a - 1 = int (a - 1)" by simp
  have "(2 :: rat) ^ (a - 1) = of_nat (2 ^ (a - 1))" by simp
  also have "\<dots> \<le> of_nat (nat n)" using b(1) of_nat_le_iff by blast
  also have "\<dots> = of_int n" using assms by simp
  finally show "(2 :: rat) powi (int a - 1) \<le> of_int n" unfolding i powi_two_nat .
  have "(of_int n :: rat) = of_nat (nat n)" using assms by simp
  also have "\<dots> < of_nat (2 ^ a)" using b(2) of_nat_less_iff by blast
  finally show "of_int n < (2 :: rat) powi int a" unfolding powi_two_nat by simp
qed

lemma ilog2_bounds:
  assumes "0 < x"
  shows "2 powi ilog2 x \<le> x" "x < 2 powi (ilog2 x + 1)"
proof -
  obtain n d where q: "quotient_of x = (n, d)" by (cases "quotient_of x")
  have d: "0 < d" using q by (rule quotient_of_denom_pos)
  have x: "x = of_int n / of_int d" using q by (rule quotient_of_div)
  have n: "0 < n" using assms d unfolding x by (simp add: zero_less_divide_iff)
  define a b where "a = int (floorlog 2 (nat n))" and "b = int (floorlog 2 (nat d))"
  note nb = floorlog_rat_bounds [OF n, folded a_def]
  note db = floorlog_rat_bounds [OF d, folded b_def]
  have dp: "0 < (of_int d :: rat)" using d by simp
  have "x < 2 powi a / of_int d" unfolding x using nb(2) dp by (rule divide_strict_right_mono)
  also have "\<dots> \<le> 2 powi a / 2 powi (b - 1)"
    by (rule divide_left_mono) (use db(1) dp in auto)
  also have "\<dots> = 2 powi (a - b + 1)" by (simp add: power_int_diff [symmetric] algebra_simps)
  finally have upper: "x < 2 powi (a - b + 1)" .
  have "2 powi (a - b - 1) = 2 powi (a - 1) / (2 :: rat) powi b"
    by (simp add: power_int_diff [symmetric] algebra_simps)
  also have "\<dots> \<le> 2 powi (a - 1) / of_int d"
    by (rule divide_left_mono) (use db(2) dp in auto)
  also have "\<dots> \<le> x" unfolding x using nb(1) dp by (simp add: divide_right_mono)
  finally have lower: "2 powi (a - b - 1) \<le> x" .
  have "ilog2 x = (if 2 powi (a - b) \<le> x then a - b else a - b - 1)"
    by (simp add: ilog2_def q a_def b_def)
  then show "2 powi ilog2 x \<le> x" "x < 2 powi (ilog2 x + 1)"
    using upper lower by (auto simp: not_le)
qed

lemma ilog2_unique:
  assumes "2 powi e \<le> x" "x < 2 powi (e + 1)"
  shows "ilog2 x = e"
proof -
  have "0 < x" using assms(1) powi_two_pos [of e] by linarith
  note b = ilog2_bounds [OF this]
  have "e < ilog2 x + 1" "ilog2 x < e + 1"
    using assms b powi_two_less_iff by (meson le_less_trans)+
  then show ?thesis by linarith
qed

lemma ilog2_mono:
  assumes "0 < x" "x \<le> y"
  shows "ilog2 x \<le> ilog2 y"
proof -
  have "2 powi ilog2 x < (2 :: rat) powi (ilog2 y + 1)"
    using ilog2_bounds(1) [OF assms(1)] ilog2_bounds(2) [of y] assms by linarith
  then show ?thesis by (simp add: powi_two_less_iff)
qed

section \<open>Rounding to doubles\<close>

lemma fl_zero [simp]: "fl 0 = 0"
  by (simp add: fl_def)

lemma ulp_exp_uminus [simp]: "ulp_exp (- x) = ulp_exp x"
  by (simp add: ulp_exp_def)

lemma fl_uminus: "fl (- x) = - fl x"
  by (simp add: fl_def round_half_even_uminus)

lemma ulp_exp_mono: "0 < x \<Longrightarrow> x \<le> y \<Longrightarrow> ulp_exp x \<le> ulp_exp y"
  using ilog2_mono [of x y] by (simp add: ulp_exp_def)

text \<open>\<open>x\<close> in units of its last place.\<close>

lemma scaled_upper:
  assumes "0 < x"
  shows "x / 2 powi ulp_exp x < 2 ^ 53"
proof -
  have "x < 2 powi (ilog2 x + 1)" using assms by (rule ilog2_bounds)
  also have "\<dots> \<le> 2 powi (ulp_exp x + 53)"
    using assms by (intro powi_two_mono) (simp add: ulp_exp_def)
  also have "\<dots> = 2 ^ 53 * 2 powi ulp_exp x"
    using power_int_add [of "2 :: rat" "ulp_exp x" 53] by simp
  finally show ?thesis by (simp add: pos_divide_less_eq)
qed

lemma scaled_lower:
  assumes "0 < x" "- 1074 < ulp_exp x"
  shows "2 ^ 52 \<le> x / 2 powi ulp_exp x"
proof -
  have "ilog2 x = ulp_exp x + 52" using assms by (auto simp: ulp_exp_def max_def split: if_splits)
  then have "2 ^ 52 * 2 powi ulp_exp x = (2 :: rat) powi ilog2 x"
    using power_int_add [of "2 :: rat" "ulp_exp x" 52] by simp
  also have "\<dots> \<le> x" using assms(1) by (rule ilog2_bounds)
  finally show ?thesis by (simp add: pos_le_divide_eq)
qed

lemma fl_scaled_upper: "0 < x \<Longrightarrow> round_half_even (x / 2 powi ulp_exp x) \<le> 2 ^ 53"
  using round_half_even_mono [OF less_imp_le [OF scaled_upper]]
    round_half_even_of_int [of "2 ^ 53"] by simp

lemma fl_scaled_lower:
  "0 < x \<Longrightarrow> - 1074 < ulp_exp x \<Longrightarrow> 2 ^ 52 \<le> round_half_even (x / 2 powi ulp_exp x)"
  using round_half_even_mono [OF scaled_lower] round_half_even_of_int [of "2 ^ 52"] by simp

lemma fl_nonneg: "0 \<le> x \<Longrightarrow> 0 \<le> fl x"
  using round_half_even_mono [of 0 "x / 2 powi ulp_exp x"] round_half_even_of_int [of 0]
  by (simp add: fl_def)

lemma fl_mono_pos:
  assumes "0 < x" "x \<le> y"
  shows "fl x \<le> fl y"
proof (cases "ulp_exp x = ulp_exp y")
  case True
  have "x / 2 powi ulp_exp x \<le> y / 2 powi ulp_exp x"
    using assms by (simp add: divide_right_mono)
  with True assms show ?thesis
    by (simp add: fl_def round_half_even_mono mult_right_mono)
next
  case False
  with ulp_exp_mono [OF assms] have lt: "ulp_exp x < ulp_exp y" by simp
  then have sub: "- 1074 < ulp_exp y" by (simp add: ulp_exp_def)
  have "fl x = of_int (round_half_even (x / 2 powi ulp_exp x)) * 2 powi ulp_exp x"
    using assms by (simp add: fl_def)
  also have "\<dots> \<le> of_int (2 ^ 53) * 2 powi ulp_exp x"
    using fl_scaled_upper [OF assms(1)] by (intro mult_right_mono) (simp_all only: of_int_le_iff, simp)
  also have "\<dots> = 2 powi (ulp_exp x + 53)"
    using power_int_add [of "2 :: rat" "ulp_exp x" 53] by simp
  also have "\<dots> \<le> 2 powi (ulp_exp y + 52)" using lt by (intro powi_two_mono) simp
  also have "\<dots> = of_int (2 ^ 52) * 2 powi ulp_exp y"
    using power_int_add [of "2 :: rat" "ulp_exp y" 52] by simp
  also have "\<dots> \<le> of_int (round_half_even (y / 2 powi ulp_exp y)) * 2 powi ulp_exp y"
    using fl_scaled_lower [of y] assms sub
    by (intro mult_right_mono) (simp_all only: of_int_le_iff, simp_all)
  also have "\<dots> = fl y" using assms by (simp add: fl_def)
  finally show ?thesis .
qed

lemma fl_mono: "x \<le> y \<Longrightarrow> fl x \<le> fl y"
proof -
  assume le: "x \<le> y"
  consider "0 < x" | "x \<le> 0" "0 \<le> y" | "y < 0" by linarith
  then show "fl x \<le> fl y"
  proof cases
    case 1
    then show ?thesis using le by (rule fl_mono_pos)
  next
    case 2
    then have "0 \<le> fl (- x)" "0 \<le> fl y" by (simp_all add: fl_nonneg)
    then show ?thesis by (simp add: fl_uminus)
  next
    case 3
    then have "fl (- y) \<le> fl (- x)" using le by (intro fl_mono_pos) simp_all
    then show ?thesis by (simp add: fl_uminus)
  qed
qed

text \<open>Doubles are fixed: \<open>m\<close> times a power of two, with \<open>m\<close> of at most 53 bits.\<close>

lemma fl_exact_pos:
  assumes "0 < m" "m \<le> 2 ^ 53" "- 1074 \<le> e"
  shows "fl (of_int m * 2 powi e) = of_int m * 2 powi e"
proof -
  define x :: rat where "x = of_int m * 2 powi e"
  have x: "0 < x" using assms by (simp add: x_def)
  have "x \<le> of_int (2 ^ 53) * 2 powi e"
    unfolding x_def using assms by (intro mult_right_mono) (simp_all only: of_int_le_iff, simp)
  also have "\<dots> = 2 powi (e + 53)" using power_int_add [of "2 :: rat" e 53] by simp
  finally have "2 powi ilog2 x < (2 :: rat) powi (e + 54)"
    using ilog2_bounds(1) [OF x] powi_two_strict_mono [of "e + 53" "e + 54"] by simp
  then have il: "ilog2 x \<le> e + 53" by (simp add: powi_two_less_iff)
  have "\<exists>k. x / 2 powi ulp_exp x = of_int k"
  proof (cases "ilog2 x = e + 53")
    case True
    then have "2 powi (e + 53) \<le> x" using ilog2_bounds(1) [OF x] by simp
    with \<open>x \<le> of_int (2 ^ 53) * 2 powi e\<close> \<open>of_int (2 ^ 53) * 2 powi e = 2 powi (e + 53)\<close>
    have "x = 2 powi (e + 53)" by simp
    moreover have "ulp_exp x = e + 1" using True x assms(3) by (simp add: ulp_exp_def)
    ultimately have "x / 2 powi ulp_exp x = 2 powi 52"
      by (simp add: power_int_diff [symmetric])
    then have "x / 2 powi ulp_exp x = of_int (2 ^ 52)" by simp
    then show ?thesis by blast
  next
    case False
    with il assms(3) x have u: "ulp_exp x \<le> e" by (simp add: ulp_exp_def)
    have "(2 :: rat) powi e / 2 powi ulp_exp x = 2 powi (e - ulp_exp x)"
      by (simp add: power_int_diff)
    also have "\<dots> = 2 ^ nat (e - ulp_exp x)" using u by (simp add: power_int_def)
    finally have "x / 2 powi ulp_exp x = of_int (m * 2 ^ nat (e - ulp_exp x))"
      by (simp add: x_def times_divide_eq_right [symmetric] del: times_divide_eq_right)
    then show ?thesis by blast
  qed
  then obtain k where k: "x / 2 powi ulp_exp x = of_int k" by blast
  have "fl x = of_int k * 2 powi ulp_exp x" using x by (simp add: fl_def k)
  also have "\<dots> = x" by (simp add: k [symmetric])
  finally show ?thesis by (simp add: x_def)
qed

lemma fl_exact:
  assumes "\<bar>m\<bar> \<le> 2 ^ 53" "- 1074 \<le> e"
  shows "fl (of_int m * 2 powi e) = of_int m * 2 powi e"
proof -
  consider "m = 0" | "0 < m" | "0 < - m" by linarith
  then show ?thesis
  proof cases
    case 3
    then have "fl (of_int (- m) * 2 powi e) = of_int (- m) * 2 powi e"
      using assms by (intro fl_exact_pos) simp_all
    then show ?thesis by (simp add: fl_uminus)
  qed (use assms fl_exact_pos [of m e] in auto)
qed

lemma fl_of_int: "\<bar>m\<bar> \<le> 2 ^ 53 \<Longrightarrow> fl (of_int m) = of_int m"
  using fl_exact [of m 0] by simp

lemma fl_one [simp]: "fl 1 = 1"
  using fl_of_int [of 1] by simp

lemma fl_idem: "fl (fl x) = fl x"
proof -
  have "\<bar>round_half_even (x / 2 powi ulp_exp x)\<bar> \<le> 2 ^ 53" if "x \<noteq> 0"
  proof (cases "0 < x")
    case True
    then show ?thesis using fl_scaled_upper [of x] round_half_even_mono [of 0 "x / 2 powi ulp_exp x"]
      round_half_even_of_int [of 0] by simp
  next
    case False
    with that have neg: "0 < - x" by simp
    then have "x / 2 powi ulp_exp x \<le> 0" by (simp add: divide_nonpos_pos)
    with neg show ?thesis using fl_scaled_upper [of "- x"]
        round_half_even_mono [of 0 "- x / 2 powi ulp_exp x"] round_half_even_of_int [of 0]
      by (simp add: round_half_even_uminus)
  qed
  moreover have "- 1074 \<le> ulp_exp x" by (simp add: ulp_exp_def)
  ultimately show ?thesis using fl_exact by (auto simp: fl_def [of x])
qed

section \<open>Rounding to decimals\<close>

lemma py_round_mono: "x \<le> y \<Longrightarrow> py_round x n \<le> py_round y n"
  unfolding py_round_def
  by (intro fl_mono divide_right_mono) (simp_all add: round_half_even_mono mult_right_mono)

lemma py_round_zero [simp]: "py_round 0 n = 0"
  using round_half_even_of_int [of 0] by (simp add: py_round_def)

lemma py_round_of_int: "\<bar>m\<bar> \<le> 2 ^ 53 \<Longrightarrow> py_round (of_int m) n = of_int m"
  using round_half_even_of_int [of "m * 10 ^ n"] by (simp add: py_round_def fl_of_int)

lemma py_round_one [simp]: "py_round 1 n = 1"
  using py_round_of_int [of 1 n] by simp

section \<open>The interface of rounding\<close>

locale rounding =
  fixes rnd :: "rat \<Rightarrow> rat"
  assumes rnd_mono: "x \<le> y \<Longrightarrow> rnd x \<le> rnd y"
    and rnd_zero: "rnd 0 = 0"
    and rnd_one: "rnd 1 = 1"
begin

lemma nonneg: "0 \<le> x \<Longrightarrow> 0 \<le> rnd x"
  using rnd_mono [of 0 x] rnd_zero by simp

lemma nonpos: "x \<le> 0 \<Longrightarrow> rnd x \<le> 0"
  using rnd_mono [of x 0] rnd_zero by simp

lemma le_one: "x \<le> 1 \<Longrightarrow> rnd x \<le> 1"
  using rnd_mono [of x 1] rnd_one by simp

lemma ge_one: "1 \<le> x \<Longrightarrow> 1 \<le> rnd x"
  using rnd_mono [of 1 x] rnd_one by simp

lemma unit_interval: "0 \<le> x \<Longrightarrow> x \<le> 1 \<Longrightarrow> 0 \<le> rnd x \<and> rnd x \<le> 1"
  by (simp add: nonneg le_one)

lemma pos_imp_pos: "0 < rnd x \<Longrightarrow> 0 < x"
  using nonpos [of x] by (cases "x \<le> 0") auto

lemma less_one_imp: "rnd x < 1 \<Longrightarrow> x < 1"
  using ge_one [of x] by (cases "1 \<le> x") auto

lemma ratio_unit: "a \<le> b \<Longrightarrow> 0 \<le> rnd (of_nat a / of_nat b) \<and> rnd (of_nat a / of_nat b) \<le> 1"
  by (rule unit_interval) (auto simp: divide_le_eq_1)

lemma rnd_less_imp_less: "rnd x < rnd y \<Longrightarrow> x < y"
  using rnd_mono [of y x] by (cases "y \<le> x") auto

end

interpretation ieee: rounding fl
  by unfold_locales (simp_all add: fl_mono)

interpretation round4: rounding "\<lambda>x. py_round x 4"
  by unfold_locales (simp_all add: py_round_mono)

interpretation round3: rounding "\<lambda>x. py_round x 3"
  by unfold_locales (simp_all add: py_round_mono)

text \<open>Roundings that commute with negation.\<close>

locale odd_rounding = rounding +
  assumes rnd_minus: "rnd (- x) = - rnd x"
begin

lemma ge_minus_one: "- 1 \<le> x \<Longrightarrow> - 1 \<le> rnd x"
  using le_one [of "- x"] by (simp add: rnd_minus)

lemma abs_le_one: "\<bar>x\<bar> \<le> 1 \<Longrightarrow> \<bar>rnd x\<bar> \<le> 1"
  using ge_minus_one [of x] le_one [of x] by (simp add: abs_le_iff)

end

interpretation ieee: odd_rounding fl
  by unfold_locales (rule fl_uminus)

interpretation round4: odd_rounding "\<lambda>x. py_round x 4"
  by unfold_locales (simp add: py_round_def round_half_even_uminus fl_uminus)

lemmas [float_bounds] = ieee.nonneg ieee.le_one round4.nonneg round4.le_one
  round3.nonneg round3.le_one

section \<open>Sums of floats\<close>

text \<open>
  The built-in \<open>sum\<close> over floats: compensated summation, as of Python 3.12, with the running
  sum and the compensation in the state.
\<close>

definition fsum_step :: "rat \<times> rat \<Rightarrow> rat \<Rightarrow> rat \<times> rat" where
  "fsum_step st x = (case st of (s, c) \<Rightarrow>
     let t = fl (s + x)
     in if \<bar>x\<bar> \<le> \<bar>s\<bar> then (t, fl (c + fl (fl (s - t) + x))) else (t, fl (c + fl (fl (x - t) + s))))"

definition py_fsum :: "rat list \<Rightarrow> rat" where
  "py_fsum xs = (case foldl fsum_step (0, 0) xs of (s, c) \<Rightarrow> if c = 0 then s else fl (s + c))"

lemma py_fsum_zeros: "\<forall>x\<in>set xs. x = 0 \<Longrightarrow> py_fsum xs = 0"
proof -
  assume "\<forall>x\<in>set xs. x = 0"
  then have "foldl fsum_step (0, 0) xs = (0, 0)" by (induction xs) (auto simp: fsum_step_def)
  then show ?thesis by (simp add: py_fsum_def)
qed

text \<open>A proper ratio of integers below \<open>2^53\<close> never rounds to 1.\<close>

lemma fl_ratio_gap:
  assumes "a < b" "b \<le> 2 ^ 53"
  shows "fl (of_nat a / of_nat b) \<le> 9007199254740991 / 9007199254740992"
proof -
  let ?m = "2 ^ 53 - 1 :: nat"
  have "a * 2 ^ 53 \<le> ?m * b"
  proof -
    have "a * 2 ^ 53 \<le> (b - 1) * 2 ^ 53" using assms(1) by (intro mult_le_mono1) linarith
    also have "\<dots> = b * 2 ^ 53 - 2 ^ 53" by (simp add: diff_mult_distrib)
    also have "\<dots> \<le> b * 2 ^ 53 - b" using assms(2) by linarith
    also have "\<dots> = ?m * b" by (simp add: diff_mult_distrib mult.commute)
    finally show ?thesis .
  qed
  then have "(of_nat (a * 2 ^ 53) :: rat) \<le> of_nat (?m * b)" by (simp only: of_nat_le_iff)
  then have "of_nat a / of_nat b \<le> (of_nat ?m / 2 ^ 53 :: rat)"
    using assms by (simp add: field_simps)
  also have "(of_nat ?m / 2 ^ 53 :: rat) = 9007199254740991 / 9007199254740992" by simp
  finally have "fl (of_nat a / of_nat b) \<le> fl (9007199254740991 / 9007199254740992)"
    by (rule fl_mono)
  also have "fl (9007199254740991 / 9007199254740992) = 9007199254740991 / 9007199254740992"
    by code_simp
  finally show ?thesis .
qed

lemma fl_ratio_less_one: "a < b \<Longrightarrow> b \<le> 2 ^ 53 \<Longrightarrow> fl (of_nat a / of_nat b) < 1"
  using fl_ratio_gap [of a b] by simp

lemma ratio4_unit:
  "a \<le> b \<Longrightarrow> 0 \<le> py_round (fl (of_nat a / of_nat b)) 4 \<and> py_round (fl (of_nat a / of_nat b)) 4 \<le> 1"
  using ieee.ratio_unit [of a b] by (blast intro: round4.unit_interval [THEN conjunct1]
      round4.unit_interval [THEN conjunct2])

end
