(* ===== verification/Policy.thy ===== *)
theory Policy
  imports PyFloat
begin

text \<open>
  The promotion policy, \<open>ml/self_healing/policy.py\<close>. A refusal reason is a value that carries
  what the source formats into the message. The abstract specification is
  \<open>refused\<close>: which of the five refusal conditions hold.
\<close>

datatype PromotionMode = MANUAL_APPROVAL | AUTOMATIC_CONDITIONAL

datatype PromotionDecision = PROMOTED | REJECTED | ESCALATED_FOR_APPROVAL

record GateResults =
  schema_passed :: bool
  schema_details :: string
  validation_passed :: bool
  extraction_accuracy :: rat
  semantic_accuracy :: rat
  dps :: rat
  raw_retention :: rat
  unknown_retention :: rat
  shadow_passed :: bool
  shadow_state :: string
  field_match_rate :: rat
  dps_delta :: rat
  downstream_isolation_verified :: bool

datatype refusal =
    Refusal_1_schema string
  | Refusal_2_validation bool rat rat
  | Refusal_3_detection rat rat
  | Refusal_4_retention rat rat
  | Refusal_5_shadow bool string bool

definition MANDATORY_REFUSAL_CHECKS :: "string list" where
  "MANDATORY_REFUSAL_CHECKS =
     [''REFUSAL_1_SCHEMA_INVALID'', ''REFUSAL_2_VALIDATION_INCOMPLETE'',
      ''REFUSAL_3_DETECTION_TESTS_FAILED'', ''REFUSAL_4_RETENTION_BELOW_100'',
      ''REFUSAL_5_SHADOW_UNPASSED_OR_LEAKED'']"

definition refusal_reasons :: "GateResults \<Rightarrow> refusal list" where
  "refusal_reasons g =
     (if \<not> schema_passed g then [Refusal_1_schema (schema_details g)] else [])
     @ (if \<not> validation_passed g \<or> extraction_accuracy g < fl (90 / 100)
           \<or> semantic_accuracy g < fl (90 / 100)
        then [Refusal_2_validation (validation_passed g) (extraction_accuracy g) (semantic_accuracy g)]
        else [])
     @ (if dps g < 1 \<or> dps_delta g < 0 then [Refusal_3_detection (dps g) (dps_delta g)] else [])
     @ (if raw_retention g < 1 \<or> unknown_retention g < 1
        then [Refusal_4_retention (raw_retention g) (unknown_retention g)] else [])
     @ (if \<not> shadow_passed g \<or> shadow_state g \<noteq> ''PASSED'' \<or> \<not> downstream_isolation_verified g
        then [Refusal_5_shadow (shadow_passed g) (shadow_state g) (downstream_isolation_verified g)]
        else [])"

definition evaluate ::
    "PromotionMode \<Rightarrow> GateResults \<Rightarrow> PromotionMode option
     \<Rightarrow> PromotionDecision \<times> refusal list \<times> string list" where
  "evaluate default_mode gates mode =
     (let eval_mode = (case mode of None \<Rightarrow> default_mode | Some m \<Rightarrow> m);
          reasons = refusal_reasons gates;
          decision = (if reasons \<noteq> [] then REJECTED
                      else if eval_mode = AUTOMATIC_CONDITIONAL then PROMOTED
                      else ESCALATED_FOR_APPROVAL)
      in (decision, reasons, MANDATORY_REFUSAL_CHECKS))"

section \<open>The policy as a specification\<close>

definition all_gates_pass :: "GateResults \<Rightarrow> bool" where
  "all_gates_pass g \<longleftrightarrow>
     schema_passed g
     \<and> validation_passed g \<and> fl (9 / 10) \<le> extraction_accuracy g \<and> fl (9 / 10) \<le> semantic_accuracy g
     \<and> 1 \<le> dps g \<and> 0 \<le> dps_delta g
     \<and> 1 \<le> raw_retention g \<and> 1 \<le> unknown_retention g
     \<and> shadow_passed g \<and> shadow_state g = ''PASSED'' \<and> downstream_isolation_verified g"

lemma refusal_reasons_Nil_iff: "refusal_reasons g = [] \<longleftrightarrow> all_gates_pass g"
  by (auto simp: refusal_reasons_def all_gates_pass_def not_less)

text \<open>
  C9. Promotion gate: whatever the default mode, a candidate is promoted exactly when the
  effective mode is automatic and all gates pass, rejected exactly when some gate fails, and
  escalated to an operator otherwise; the reasons are empty exactly when nothing is refused.
\<close>

theorem promotion_gate:
  assumes "evaluate default_mode g mode = (decision, reasons, checked)"
  shows "(decision = PROMOTED \<longleftrightarrow>
            all_gates_pass g \<and> (case mode of None \<Rightarrow> default_mode | Some m \<Rightarrow> m) = AUTOMATIC_CONDITIONAL)
       \<and> (decision = REJECTED \<longleftrightarrow> \<not> all_gates_pass g)
       \<and> (decision = ESCALATED_FOR_APPROVAL \<longleftrightarrow>
            all_gates_pass g \<and> (case mode of None \<Rightarrow> default_mode | Some m \<Rightarrow> m) = MANUAL_APPROVAL)
       \<and> (reasons = [] \<longleftrightarrow> all_gates_pass g)"
  using assms
  by (cases "case mode of None \<Rightarrow> default_mode | Some m \<Rightarrow> m"; cases "all_gates_pass g")
    (auto simp: evaluate_def refusal_reasons_Nil_iff)

definition clean_gates :: GateResults where
  "clean_gates = \<lparr>schema_passed = True, schema_details = ''ok'', validation_passed = True,
     extraction_accuracy = 1, semantic_accuracy = 1, dps = 1, raw_retention = 1,
     unknown_retention = 1, shadow_passed = True, shadow_state = ''PASSED'', field_match_rate = 1,
     dps_delta = 0, downstream_isolation_verified = True\<rparr>"

lemma clean_gates_pass: "all_gates_pass clean_gates"
  by (simp add: all_gates_pass_def clean_gates_def float_bounds)

theorem promotion_gate_witness:
  "fst (evaluate MANUAL_APPROVAL clean_gates (Some AUTOMATIC_CONDITIONAL)) = PROMOTED
   \<and> fst (evaluate MANUAL_APPROVAL clean_gates None) = ESCALATED_FOR_APPROVAL
   \<and> fst (evaluate AUTOMATIC_CONDITIONAL (clean_gates\<lparr>dps := 1 / 2\<rparr>) None) = REJECTED"
proof -
  have 1: "fst (evaluate MANUAL_APPROVAL clean_gates (Some AUTOMATIC_CONDITIONAL)) = PROMOTED"
    by (metis clean_gates_pass option.case(2) prod.collapse promotion_gate)
  have 2: "fst (evaluate MANUAL_APPROVAL clean_gates None) = ESCALATED_FOR_APPROVAL"
    by (metis clean_gates_pass option.case(1) prod.collapse promotion_gate)
  have "\<not> all_gates_pass (clean_gates\<lparr>dps := 1 / 2\<rparr>)"
    by (simp add: all_gates_pass_def clean_gates_def)
  then have 3: "fst (evaluate AUTOMATIC_CONDITIONAL (clean_gates\<lparr>dps := 1 / 2\<rparr>) None) = REJECTED"
    by (metis prod.collapse promotion_gate)
  from 1 2 3 show ?thesis by blast
qed

end
