(* ===== verification/TestBench.thy ===== *)
theory TestBench
  imports SpecCompiler PyFloat
begin

text \<open>
  The validation sandbox, \<open>ml/test_bench/sandbox.py\<close>: fuzzed copies of sample events, the
  static check of the compiled code, and the benchmark loop. The random choices are an explicit
  sequence: \<open>rnd i\<close> is the mutation and the number that selects the key in run \<open>i\<close>.
  \<open>ast.parse\<close> and \<open>json.loads\<close> are parameters that say whether they accept a text.
\<close>

datatype mutation = Drop_key | Inject_null | Add_noise | Noop

text \<open>\<open>random.choice(list(d.keys()))\<close>, the key selected by \<open>n\<close>.\<close>

definition choose_key :: "dict \<Rightarrow> nat \<Rightarrow> string" where
  "choose_key d n = map fst d ! (n mod length d)"

definition generate_fuzzed_sample :: "mutation \<times> nat \<Rightarrow> dict \<Rightarrow> dict" where
  "generate_fuzzed_sample choice base_log = (case choice of (m, n) \<Rightarrow>
     if m = Drop_key \<and> base_log \<noteq> [] then AList.delete (choose_key base_log n) base_log
     else if m = Inject_null \<and> base_log \<noteq> [] then AList.update (choose_key base_log n) PNone base_log
     else if m = Add_noise
       then AList.update ''_unexpected_fuzz_header'' (PStr ''fuzz_payload_0x99'') base_log
     else base_log)"

definition vrl_check :: "string \<Rightarrow> bool" where
  "vrl_check code = list_all (\<lambda>line. let trimmed = str_strip line in
     trimmed = [] \<or> str_startswith trimmed ''.'') (splitlines code)"

definition static_check ::
    "(string \<Rightarrow> bool) \<Rightarrow> (string \<Rightarrow> bool) \<Rightarrow> CompiledParserSpec \<Rightarrow> bool" where
  "static_check ast_parses json_loads_ok spec =
     (cs_compiled_code spec = [] \<or>
      (case cs_target_runtime spec of
         PYTHON_NATIVE \<Rightarrow> ast_parses (cs_compiled_code spec)
       | VECTOR_REMAP \<Rightarrow> vrl_check (cs_compiled_code spec)
       | _ \<Rightarrow> json_loads_ok (cs_compiled_code spec)))"

definition parse_fn :: "CompiledParserSpec \<Rightarrow> pyval \<Rightarrow> pyval" where
  "parse_fn spec event = (case event of
     PDict d \<Rightarrow> PDict (foldl (\<lambda>parsed m. case map_of d (fm_raw_field m) of
         None \<Rightarrow> parsed
       | Some v \<Rightarrow> if v = PNone then parsed else AList.update (fm_canonical_field m) v parsed)
         [] (cs_mappings spec))
   | _ \<Rightarrow> PDict [])"

record bench_state =
  bs_total :: nat
  bs_success :: nat

definition bench_run ::
    "CompiledParserSpec \<Rightarrow> (nat \<Rightarrow> mutation \<times> nat) \<Rightarrow> dict \<Rightarrow> bench_state \<Rightarrow> bench_state" where
  "bench_run spec rnd event st =
     (let test_payload = generate_fuzzed_sample (rnd (bs_total st)) event;
          st1 = st\<lparr>bs_total := bs_total st + 1\<rparr>;
          res = parse_fn spec (PDict test_payload)
      in if is_PDict res then st1\<lparr>bs_success := bs_success st1 + 1\<rparr> else st1)"

record bench_report =
  br_passed :: bool
  br_success_rate :: rat
  br_total_runs :: nat
  br_successful_runs :: nat

definition run_benchmark ::
    "(string \<Rightarrow> bool) \<Rightarrow> (string \<Rightarrow> bool) \<Rightarrow> (nat \<Rightarrow> mutation \<times> nat) \<Rightarrow> CompiledParserSpec
     \<Rightarrow> dict list \<Rightarrow> int \<Rightarrow> bench_report result" where
  "run_benchmark ast_parses json_loads_ok rnd spec sample_events iterations =
     (if sample_events = [] then Inl (ValueError ''sample_events list cannot be empty for benchmarking.'')
      else if \<not> static_check ast_parses json_loads_ok spec
      then Inr \<lparr>br_passed = False, br_success_rate = 0, br_total_runs = 0, br_successful_runs = 0\<rparr>
      else
        let st = foldl (\<lambda>st event. ((bench_run spec rnd event) ^^ nat iterations) st)
                   \<lparr>bs_total = 0, bs_success = 0\<rparr> sample_events;
            success_rate = (if bs_total st > 0
              then fl (of_nat (bs_success st) / of_nat (bs_total st)) else 0)
        in Inr \<lparr>br_passed = (fl (95 / 100) \<le> success_rate), br_success_rate = success_rate,
                br_total_runs = bs_total st, br_successful_runs = bs_success st\<rparr>)"

section \<open>The benchmark loop\<close>

lemma parse_fn_dict: "is_PDict (parse_fn spec v)"
  by (cases v) (auto simp: parse_fn_def)

lemma bench_run_counts:
  "bs_total (bench_run spec rnd ev st) = bs_total st + 1"
  "bs_success (bench_run spec rnd ev st) = bs_success st + 1"
  by (simp_all add: bench_run_def parse_fn_dict Let_def)

lemma bench_runs_counts:
  "bs_total (((bench_run spec rnd ev) ^^ n) st) = bs_total st + n"
  "bs_success (((bench_run spec rnd ev) ^^ n) st) = bs_success st + n"
  by (induction n) (simp_all add: bench_run_counts)

lemma bench_loop_counts:
  "bs_total (foldl (\<lambda>st ev. ((bench_run spec rnd ev) ^^ n) st) st evs) = bs_total st + length evs * n"
  "bs_success (foldl (\<lambda>st ev. ((bench_run spec rnd ev) ^^ n) st) st evs) = bs_success st + length evs * n"
  by (induction evs arbitrary: st) (simp_all add: bench_runs_counts)

lemma foldl_unchanged: "foldl (\<lambda>st ev. st) st evs = st"
  by (induction evs) simp_all

section \<open>Line structure of generated code\<close>

lemma splitlines_acc_plain:
  "list_all (\<lambda>c. \<not> is_line_break c) p \<Longrightarrow> splitlines_acc acc (p @ s) = splitlines_acc (rev p @ acc) s"
  by (induction p arbitrary: acc) auto

lemma is_line_break_nl: "is_line_break (char_of (10 :: nat))" "char_of (10 :: nat) \<noteq> char_of (13 :: nat)"
  by code_simp+

lemma splitlines_join:
  assumes "list_all (\<lambda>l. l \<noteq> [] \<and> list_all (\<lambda>c. \<not> is_line_break c) l) ls"
  shows "splitlines (str_join nl ls) = ls"
  using assms
proof (induction nl ls rule: str_join.induct)
  case 1
  then show ?case by (simp add: splitlines_def)
next
  case (2 l)
  then show ?case using splitlines_acc_plain [of l "[]" "[]"] by (simp add: splitlines_def)
next
  case (3 l l' ls)
  then have "splitlines (str_join nl (l' # ls)) = l' # ls" by simp
  then show ?case using 3(2) splitlines_acc_plain [of l "[]" "nl @ str_join nl (l' # ls)"]
    by (simp add: splitlines_def nl_def is_line_break_nl)
qed

lemma is_line_break_vrl:
  "list_all (\<lambda>c. \<not> is_line_break c) (vrl_line m)
     \<longleftrightarrow> list_all (\<lambda>c. \<not> is_line_break c) (fm_canonical_field m @ fm_raw_field m)"
proof -
  have "list_all (\<lambda>c. \<not> is_line_break c) ('' = delete(.'' @ '')'' @ ''.'')" by code_simp
  then show ?thesis by (auto simp: vrl_line_def)
qed

lemma dropWhile_snoc: "\<not> p c \<Longrightarrow> dropWhile p (xs @ [c]) = dropWhile p xs @ [c]"
  by (induction xs) auto

lemma strip_keeps_head: "\<not> is_space c \<Longrightarrow> \<exists>r. str_strip (c # s) = c # r"
  by (simp add: str_defs dropWhile_snoc)

lemma vrl_check_generated:
  assumes "list_all (\<lambda>m. list_all (\<lambda>c. \<not> is_line_break c) (fm_canonical_field m @ fm_raw_field m)) ms"
  shows "vrl_check (str_join nl (map vrl_line ms))"
proof -
  have "vrl_line m \<noteq> []" for m by (simp add: vrl_line_def)
  with assms have "splitlines (str_join nl (map vrl_line ms)) = map vrl_line ms"
    by (intro splitlines_join) (auto simp: list_all_iff is_line_break_vrl [unfolded list_all_iff])
  moreover have "str_startswith (str_strip (vrl_line m)) ''.''" for m
  proof -
    have "\<not> is_space (CHR ''.'')" by code_simp
    then obtain r where "str_strip (vrl_line m) = CHR ''.'' # r"
      using strip_keeps_head by (fastforce simp: vrl_line_def)
    then show ?thesis by (simp add: str_startswith_def)
  qed
  ultimately show ?thesis by (simp add: vrl_check_def list_all_iff Let_def)
qed

section \<open>Properties\<close>

text \<open>
  The fuzzing loop cannot fail: for any random choices and any non-empty sample, the
  benchmark passes exactly when the static check of the compiled code passes and at least one
  iteration is run, and its success rate is then 1.
\<close>

theorem benchmark_decided_by_static_check:
  assumes "sample_events \<noteq> []"
  shows "\<exists>r. run_benchmark ast_parses json_loads_ok rnd spec sample_events iterations = Inr r
    \<and> (br_passed r \<longleftrightarrow> static_check ast_parses json_loads_ok spec \<and> 0 < iterations)
    \<and> (br_passed r \<longrightarrow> br_success_rate r = 1
         \<and> br_total_runs r = length sample_events * nat iterations)"
proof (cases "static_check ast_parses json_loads_ok spec \<and> 0 < iterations")
  case True
  then have "0 < length sample_events * nat iterations" using assms by simp
  with True assms show ?thesis
    by (simp add: run_benchmark_def Let_def bench_loop_counts float_bounds)
next
  case False
  have "\<not> fl (19 / 20) \<le> 0"
    using ieee.pos_imp_pos fl_mono [of "1 / 2" "19 / 20"] fl_exact [of 1 "- 1"]
    by (simp add: power_int_def)
  with False assms show ?thesis
    by (cases "static_check ast_parses json_loads_ok spec")
      (simp_all add: run_benchmark_def Let_def foldl_unchanged)
qed

theorem benchmark_decided_by_static_check_witness:
  "\<exists>r. run_benchmark (\<lambda>_. True) (\<lambda>_. True) (\<lambda>i. (Drop_key, i))
      (compile_spec (\<lambda>_. ''{}'') (\<lambda>s. s) \<lparr>cp_source_id = None, cp_detected_format = None,
         cp_deterministic_mappings = [], cp_ai_candidate_specs = []\<rparr> None LOGSTASH)
      [[(''src'', PStr ''10.0.0.1'')]] 10 = Inr r \<and> br_passed r"
proof -
  let ?spec = "compile_spec (\<lambda>_. ''{}'') (\<lambda>s. s) \<lparr>cp_source_id = None, cp_detected_format = None,
         cp_deterministic_mappings = [], cp_ai_candidate_specs = []\<rparr> None LOGSTASH"
  have "static_check (\<lambda>_. True) (\<lambda>_. True) ?spec"
    by (simp add: static_check_def split: TargetRuntime.splits)
      (simp add: compile_spec_def Let_def)
  with benchmark_decided_by_static_check [of "[[(''src'', PStr ''10.0.0.1'')]]" "\<lambda>_. True" "\<lambda>_. True"
      "\<lambda>i. (Drop_key, i)" ?spec 10] show ?thesis by fastforce
qed

text \<open>
  Compiler and sandbox fit together: a specification compiled for Vector Remap from field
  names without line breaks passes the sandbox's static check, line by line.
\<close>

theorem vector_remap_passes_static_check:
  assumes "list_all (\<lambda>m. list_all (\<lambda>c. \<not> is_line_break c) (fm_canonical_field m @ fm_raw_field m))
             (merge_overrides pkg ov)"
  shows "static_check ast_parses json_loads_ok
           (compile_spec json_dumps sha256_hex pkg ov VECTOR_REMAP)"
  using vrl_check_generated [OF assms]
  by (simp add: static_check_def compile_spec_def generate_compiled_code_def Let_def)

theorem vector_remap_passes_static_check_witness:
  "static_check (\<lambda>_. False) (\<lambda>_. False) (compile_spec (\<lambda>_. []) (\<lambda>_. ''00'')
     \<lparr>cp_source_id = Some ''fw'', cp_detected_format = None, cp_deterministic_mappings = [],
      cp_ai_candidate_specs = []\<rparr> (Some [(''src'', ''src.ip'')]) VECTOR_REMAP)"
  by (rule vector_remap_passes_static_check) code_simp

end
