(* ===== verification/PyTime.thy ===== *)
theory PyTime
  imports Prelude
begin

text \<open>
  \<open>datetime\<close> as the sources use it: a wall-clock reading in microseconds since the start of
  year 1 of the proleptic Gregorian calendar, with the offset from UTC of an aware object;
  conversion to UTC, and \<open>isoformat()\<close>.
\<close>

record datetime =
  dt_wall :: int
  dt_offset :: "int option"

definition dt_aware :: "datetime \<Rightarrow> bool" where
  "dt_aware t \<longleftrightarrow> dt_offset t \<noteq> None"

definition days_before_year :: "int \<Rightarrow> int" where
  "days_before_year y = (let p = y - 1 in 365 * p + p div 4 - p div 100 + p div 400)"

definition is_leap :: "int \<Rightarrow> bool" where
  "is_leap y \<longleftrightarrow> 4 dvd y \<and> (\<not> 100 dvd y \<or> 400 dvd y)"

definition month_lengths :: "int \<Rightarrow> int list" where
  "month_lengths y = [31, if is_leap y then 29 else 28, 31, 30, 31, 30, 31, 31, 30, 31, 30, 31]"

text \<open>The year that contains a day number: an estimate from the mean year, corrected by one.\<close>

definition year_of_day :: "int \<Rightarrow> int" where
  "year_of_day n = (let y = n * 400 div 146097 + 1 in
     if n < days_before_year y then y - 1
     else if days_before_year (y + 1) \<le> n then y + 1 else y)"

fun month_day :: "int \<Rightarrow> int list \<Rightarrow> int \<Rightarrow> int \<times> int" where
  "month_day m [] n = (m, n + 1)"
| "month_day m (l # ls) n = (if n < l then (m, n + 1) else month_day (m + 1) ls (n - l))"

definition pad_int :: "nat \<Rightarrow> int \<Rightarrow> string" where
  "pad_int w i = (let s = show_int i in replicate (w - length s) (CHR ''0'') @ s)"

text \<open>\<open>t.isoformat()\<close> of a reading without its offset.\<close>

definition iso_wall :: "int \<Rightarrow> string" where
  "iso_wall us =
     (let day = us div 86400000000; rest = us mod 86400000000;
          y = year_of_day day;
          (m, d) = month_day 1 (month_lengths y) (day - days_before_year y);
          sec = rest div 1000000; frac = rest mod 1000000
      in pad_int 4 y @ ''-'' @ pad_int 2 m @ ''-'' @ pad_int 2 d @ ''T''
         @ pad_int 2 (sec div 3600) @ '':'' @ pad_int 2 (sec div 60 mod 60) @ '':''
         @ pad_int 2 (sec mod 60) @ (if frac = 0 then [] else ''.'' @ pad_int 6 frac))"

definition dt_in_range :: "int \<Rightarrow> bool" where
  "dt_in_range us \<longleftrightarrow> 0 \<le> us \<and> us < days_before_year 10000 * 86400000000"

text \<open>
  \<open>t.astimezone(timezone.utc)\<close>: a naive object is read in the zone of the system, whose offset
  at a reading is \<open>local\<close>; a result outside the years 1 to 9999 is an \<open>OverflowError\<close>.
\<close>

definition astimezone_utc :: "(int \<Rightarrow> int) \<Rightarrow> datetime \<Rightarrow> datetime result" where
  "astimezone_utc local t =
     (let off = (case dt_offset t of None \<Rightarrow> local (dt_wall t) | Some z \<Rightarrow> z);
          us = dt_wall t - off
      in if dt_in_range us then Inr \<lparr>dt_wall = us, dt_offset = Some 0\<rparr> else Inl OverflowError)"

text \<open>\<open>t.isoformat()\<close> of an object whose offset is a whole number of minutes.\<close>

definition isoformat :: "datetime \<Rightarrow> string" where
  "isoformat t = iso_wall (dt_wall t) @ (case dt_offset t of
       None \<Rightarrow> []
     | Some z \<Rightarrow> let m = \<bar>z\<bar> div 60000000 in
         (if z < 0 then ''-'' else ''+'') @ pad_int 2 (m div 60) @ '':'' @ pad_int 2 (m mod 60))"

end
