(* ===== verification/Passport.thy ===== *)
theory Passport
  imports PyTime PyFloat
begin

text \<open>
  The Telemetry Passport builder, \<open>ml/passport/passport.py\<close>. Arguments that the code checks at
  run time are arbitrary values; the passport is the dictionary the code returns. \<open>local\<close> is
  the UTC offset of the system's zone, which only naive timestamps consult.

  \<open>passport_valid\<close> transcribes \<open>packages/contracts/telemetry_passport.schema.json\<close>.
\<close>

definition NOT_YET_MEASURED :: pyval where
  "NOT_YET_MEASURED = PStr ''NOT YET MEASURED''"

definition METRIC_NAMES :: "string list" where
  "METRIC_NAMES = [''extraction_accuracy'', ''semantic_accuracy'', ''raw_retention'',
     ''unknown_field_retention'', ''detection_preservation'']"

definition DRIFT_STATES :: "string list" where
  "DRIFT_STATES = [''STABLE'', ''SUSPECTED'', ''DRIFTED'']"

record ValidationEvidence =
  ve_run_id :: pyval
  ve_completed_at :: datetime
  ve_passed :: bool
  ve_metrics :: dict
  ve_drift_state :: "string option"
  ve_drift_observed_at :: "datetime option"

definition timestamp :: "(int \<Rightarrow> int) \<Rightarrow> datetime \<Rightarrow> pyval result" where
  "timestamp local t = res_bind (astimezone_utc local t)
     (\<lambda>u. Inr (PStr (str_replace ''+00:00'' ''Z'' (isoformat u))))"

definition required_text :: "string \<Rightarrow> pyval \<Rightarrow> unit result" where
  "required_text name v = (case v of
       PStr s \<Rightarrow> if str_strip s = [] then Inl (ValueError (name @ '' is required'')) else Inr ()
     | _ \<Rightarrow> Inl (ValueError (name @ '' is required'')))"

text \<open>
  The check of one metric; \<open>isfinite\<close> of an integer converts it to a float first, which
  overflows from the midpoint above the largest float on.
\<close>

definition check_metric :: "string \<times> pyval \<Rightarrow> unit result" where
  "check_metric p = (case p of (name, v) \<Rightarrow>
     let bad = Inl (ValueError (''metric '' @ name @ '' must be a finite number from 0 to 1'')) in
     (case v of
        PInt i \<Rightarrow> if 2 ^ 1024 - 2 ^ 970 \<le> \<bar>i\<bar> then Inl OverflowError
                  else if 0 \<le> i \<and> i \<le> 1 then Inr () else bad
      | PFloat x \<Rightarrow> if 0 \<le> x \<and> x \<le> 1 then Inr () else bad
      | _ \<Rightarrow> bad))"

definition validate_evidence :: "ValidationEvidence \<Rightarrow> unit result" where
  "validate_evidence ev =
     res_bind (required_text ''validation run_id'' (ve_run_id ev)) (\<lambda>_.
       if \<not> dt_aware (ve_completed_at ev)
       then Inl (ValueError ''validation completed_at must be timezone-aware'')
       else if (case ve_drift_state ev of None \<Rightarrow> True | Some s \<Rightarrow> s \<notin> set DRIFT_STATES)
               \<or> ve_drift_observed_at ev = None
       then Inl (ValueError ''certification requires a measured drift state and observation time'')
       else if (case ve_drift_observed_at ev of None \<Rightarrow> True | Some t \<Rightarrow> \<not> dt_aware t)
       then Inl (ValueError ''drift observed_at must be timezone-aware'')
       else if set (dict_keys (ve_metrics ev)) \<noteq> set METRIC_NAMES
       then Inl (ValueError ''validation evidence must contain exactly the passport metrics'')
       else res_bind (res_map check_metric (ve_metrics ev)) (\<lambda>_. Inr ()))"

definition unmeasured ::
    "(int \<Rightarrow> int) \<Rightarrow> pyval \<Rightarrow> pyval \<Rightarrow> pyval \<Rightarrow> ValidationEvidence option \<Rightarrow> pyval result" where
  "unmeasured local source_id parser_id parser_version evidence =
     res_bind (case evidence of
         None \<Rightarrow> Inr (PDict [(''status'', PStr ''NOT_YET_MEASURED''), (''run_id'', PNone),
                             (''completed_at'', PNone)])
       | Some ev \<Rightarrow>
           res_bind (required_text ''validation run_id'' (ve_run_id ev)) (\<lambda>_.
           res_bind (timestamp local (ve_completed_at ev)) (\<lambda>ts.
             Inr (PDict [(''status'', PStr ''FAILED''), (''run_id'', ve_run_id ev),
                         (''completed_at'', ts)]))))
     (\<lambda>validation. Inr (PDict [
        (''schema_version'', PStr ''1.1''),
        (''source_id'', source_id),
        (''parser'', PDict [(''id'', parser_id), (''version'', parser_version)]),
        (''validation'', validation),
        (''certification'', PDict [(''status'', PStr ''NOT_CERTIFIED''), (''timestamp'', PNone)]),
        (''scores'', PDict (map (\<lambda>name. (name, NOT_YET_MEASURED)) METRIC_NAMES)),
        (''drift'', PDict [(''state'', PStr ''NOT_YET_MEASURED''), (''observed_at'', PNone)])]))"

text \<open>The dictionary of a certified passport; a missing metric is the \<open>KeyError\<close> of \<open>metrics[name]\<close>.\<close>

definition certified ::
    "(int \<Rightarrow> int) \<Rightarrow> pyval \<Rightarrow> pyval \<Rightarrow> pyval \<Rightarrow> ValidationEvidence \<Rightarrow> pyval result" where
  "certified local source_id parser_id parser_version ev =
     res_bind (timestamp local (ve_completed_at ev)) (\<lambda>done_at.
     res_bind (res_map (\<lambda>name. case map_of (ve_metrics ev) name of
         None \<Rightarrow> Inl (KeyError name) | Some v \<Rightarrow> Inr (name, v)) METRIC_NAMES) (\<lambda>scores.
     res_bind (case ve_drift_observed_at ev of None \<Rightarrow> Inl AttributeError | Some t \<Rightarrow> timestamp local t)
       (\<lambda>observed_at.
     Inr (PDict [
        (''schema_version'', PStr ''1.1''),
        (''source_id'', source_id),
        (''parser'', PDict [(''id'', parser_id), (''version'', parser_version)]),
        (''validation'', PDict [(''status'', PStr ''PASSED''), (''run_id'', ve_run_id ev),
                                (''completed_at'', done_at)]),
        (''certification'', PDict [(''status'', PStr ''CERTIFIED''), (''timestamp'', done_at)]),
        (''scores'', PDict scores),
        (''drift'', PDict [(''state'', case ve_drift_state ev of None \<Rightarrow> PNone | Some s \<Rightarrow> PStr s),
                           (''observed_at'', observed_at)])]))))"

definition build_passport ::
    "(int \<Rightarrow> int) \<Rightarrow> pyval \<Rightarrow> pyval \<Rightarrow> pyval \<Rightarrow> ValidationEvidence option \<Rightarrow> pyval result" where
  "build_passport local source_id parser_id parser_version evidence =
     res_bind (required_text ''source_id'' source_id) (\<lambda>_.
     res_bind (required_text ''parser_id'' parser_id) (\<lambda>_.
     res_bind (required_text ''parser_version'' parser_version) (\<lambda>_.
       case evidence of
         None \<Rightarrow> unmeasured local source_id parser_id parser_version evidence
       | Some ev \<Rightarrow>
           if \<not> ve_passed ev then unmeasured local source_id parser_id parser_version evidence
           else res_bind (validate_evidence ev)
                  (\<lambda>_. certified local source_id parser_id parser_version ev))))"

section \<open>The contract\<close>

text \<open>A member of an object and the JSON types the schema names.\<close>

definition member :: "pyval \<Rightarrow> string \<Rightarrow> pyval" where
  "member v k = (case v of PDict d \<Rightarrow> dict_get d k PNone | _ \<Rightarrow> PNone)"

definition obj_with :: "string list \<Rightarrow> pyval \<Rightarrow> bool" where
  "obj_with ks v \<longleftrightarrow> (case v of PDict d \<Rightarrow> distinct (map fst d) \<and> set (map fst d) = set ks | _ \<Rightarrow> False)"

fun nonempty_str :: "pyval \<Rightarrow> bool" where
  "nonempty_str (PStr s) = (s \<noteq> [])"
| "nonempty_str _ = False"

fun is_number :: "pyval \<Rightarrow> bool" where
  "is_number (PInt i) = True"
| "is_number (PFloat x) = True"
| "is_number _ = False"

definition unit_number :: "pyval \<Rightarrow> bool" where
  "unit_number v \<longleftrightarrow> is_number v \<and> (case num_of v of None \<Rightarrow> False | Some x \<Rightarrow> 0 \<le> x \<and> x \<le> 1)"

definition is_semver :: "pyval \<Rightarrow> bool" where
  "is_semver v \<longleftrightarrow> (case v of
       PStr s \<Rightarrow> (let ps = str_split (CHR ''.'') s in
         length ps = 3 \<and> list_all (\<lambda>p. p \<noteq> [] \<and> list_all is_digit p) ps)
     | _ \<Rightarrow> False)"

definition passport_valid :: "pyval \<Rightarrow> bool" where
  "passport_valid v \<longleftrightarrow>
     obj_with [''schema_version'', ''source_id'', ''parser'', ''validation'', ''certification'',
               ''scores'', ''drift''] v
     \<and> member v ''schema_version'' = PStr ''1.1''
     \<and> nonempty_str (member v ''source_id'')
     \<and> (let p = member v ''parser'' in
          obj_with [''id'', ''version''] p \<and> nonempty_str (member p ''id'') \<and> is_semver (member p ''version''))
     \<and> (let w = member v ''validation'' in
          obj_with [''status'', ''run_id'', ''completed_at''] w
          \<and> member w ''status'' \<in> PStr ` {''PASSED'', ''FAILED'', ''NOT_YET_MEASURED''}
          \<and> (member w ''run_id'' = PNone \<or> nonempty_str (member w ''run_id''))
          \<and> (member w ''completed_at'' = PNone \<or> is_PStr (member w ''completed_at'')))
     \<and> (let c = member v ''certification'' in
          obj_with [''status'', ''timestamp''] c
          \<and> member c ''status'' \<in> PStr ` {''CERTIFIED'', ''NOT_CERTIFIED''}
          \<and> (member c ''timestamp'' = PNone \<or> is_PStr (member c ''timestamp'')))
     \<and> (let s = member v ''scores'' in
          obj_with METRIC_NAMES s
          \<and> list_all (\<lambda>n. unit_number (member s n) \<or> member s n = NOT_YET_MEASURED) METRIC_NAMES)
     \<and> (let d = member v ''drift'' in
          obj_with [''state'', ''observed_at''] d
          \<and> member d ''state'' \<in> PStr ` (insert ''NOT_YET_MEASURED'' (set DRIFT_STATES))
          \<and> (member d ''observed_at'' = PNone \<or> is_PStr (member d ''observed_at'')))
     \<and> (member (member v ''certification'') ''status'' = PStr ''CERTIFIED'' \<longrightarrow>
          is_PStr (member (member v ''certification'') ''timestamp'')
          \<and> member (member v ''validation'') ''status'' = PStr ''PASSED''
          \<and> is_PStr (member (member v ''validation'') ''run_id'')
          \<and> is_PStr (member (member v ''validation'') ''completed_at'')
          \<and> list_all (\<lambda>n. is_number (member (member v ''scores'') n)) METRIC_NAMES
          \<and> member (member v ''drift'') ''state'' \<in> PStr ` set DRIFT_STATES
          \<and> is_PStr (member (member v ''drift'') ''observed_at''))
     \<and> (member (member v ''certification'') ''status'' = PStr ''NOT_CERTIFIED'' \<longrightarrow>
          list_all (\<lambda>n. member (member v ''scores'') n = NOT_YET_MEASURED) METRIC_NAMES
          \<and> member (member v ''drift'') ''state'' = PStr ''NOT_YET_MEASURED''
          \<and> member (member v ''drift'') ''observed_at'' = PNone)"

text \<open>What certification requires of the evidence.\<close>

definition evidence_complete :: "ValidationEvidence \<Rightarrow> bool" where
  "evidence_complete ev \<longleftrightarrow>
     (\<exists>s. ve_run_id ev = PStr s \<and> str_strip s \<noteq> [])
     \<and> dt_aware (ve_completed_at ev)
     \<and> (\<exists>s\<in>set DRIFT_STATES. ve_drift_state ev = Some s)
     \<and> (\<exists>t. ve_drift_observed_at ev = Some t \<and> dt_aware t)
     \<and> fst ` set (ve_metrics ev) = set METRIC_NAMES
     \<and> list_all (\<lambda>(k, v). unit_number v) (ve_metrics ev)"

section \<open>Lemmas\<close>

lemma strip_nonempty: "str_strip s \<noteq> [] \<Longrightarrow> s \<noteq> []"
  by auto

lemma required_text_ok: "required_text n v = Inr () \<longleftrightarrow> (\<exists>s. v = PStr s \<and> str_strip s \<noteq> [])"
  by (cases v) (auto simp: required_text_def)

lemma check_metric_ok: "check_metric p = Inr () \<longleftrightarrow> unit_number (snd p)"
proof (cases "snd p")
  case (PInt i)
  have "(2 :: int) ^ 1024 - 2 ^ 970 > 1" by simp
  then show ?thesis using PInt by (auto simp: check_metric_def unit_number_def Let_def case_prod_unfold)
qed (auto simp: check_metric_def unit_number_def Let_def case_prod_unfold)

lemma res_map_unit_ok: "(\<exists>us. res_map f xs = Inr us) \<longleftrightarrow> list_all (\<lambda>x. \<exists>u. f x = Inr u) xs"
  by (induction xs) (auto simp: result_simps)

lemma validate_evidence_ok: "validate_evidence ev = Inr () \<longleftrightarrow> evidence_complete ev"
proof -
  have "(\<exists>us. res_map check_metric (ve_metrics ev) = Inr us)
          \<longleftrightarrow> list_all (\<lambda>(k, v). unit_number v) (ve_metrics ev)"
    by (simp add: res_map_unit_ok check_metric_ok case_prod_unfold)
  then show ?thesis
    by (auto simp: validate_evidence_def evidence_complete_def result_simps required_text_ok
        dict_keys_def split: option.splits if_splits)
qed

lemma timestamp_str: "timestamp local t = Inr ts \<Longrightarrow> is_PStr ts"
  by (auto simp: timestamp_def result_simps)

lemma certified_total:
  assumes "evidence_complete ev"
  shows "(\<exists>p. certified local sid pid ver ev = Inr p) \<longleftrightarrow>
    (\<exists>u. astimezone_utc local (ve_completed_at ev) = Inr u)
    \<and> (\<exists>t u. ve_drift_observed_at ev = Some t \<and> astimezone_utc local t = Inr u)"
proof -
  have "list_all (\<lambda>n. map_of (ve_metrics ev) n \<noteq> None) METRIC_NAMES"
    using assms by (auto simp: evidence_complete_def list_all_iff map_of_eq_None_iff)
  then have "\<exists>sc. res_map (\<lambda>name. case map_of (ve_metrics ev) name of
         None \<Rightarrow> Inl (KeyError name) | Some v \<Rightarrow> Inr (name, v)) METRIC_NAMES = Inr sc"
    unfolding res_map_unit_ok by (auto simp: list_all_iff split: option.splits)
  then show ?thesis
    by (auto simp: certified_def timestamp_def result_simps split: option.splits)
qed

lemma certified_scores:
  assumes "certified local sid pid ver ev = Inr p"
  shows "list_all (\<lambda>n. map_of (ve_metrics ev) n = Some (member (member p ''scores'') n)) METRIC_NAMES"
  using assms
  by (auto simp: certified_def result_simps METRIC_NAMES_def member_def dict_get_def
      list_all2_Cons1 split: option.splits)

lemma certified_fields:
  assumes "certified local sid pid ver ev = Inr p"
  obtains done_at observed_at scores where
    "is_PStr done_at" "is_PStr observed_at" "map fst scores = METRIC_NAMES"
    "p = PDict [(''schema_version'', PStr ''1.1''), (''source_id'', sid),
        (''parser'', PDict [(''id'', pid), (''version'', ver)]),
        (''validation'', PDict [(''status'', PStr ''PASSED''), (''run_id'', ve_run_id ev),
                                (''completed_at'', done_at)]),
        (''certification'', PDict [(''status'', PStr ''CERTIFIED''), (''timestamp'', done_at)]),
        (''scores'', PDict scores),
        (''drift'', PDict [(''state'', case ve_drift_state ev of None \<Rightarrow> PNone | Some s \<Rightarrow> PStr s),
                           (''observed_at'', observed_at)])]"
proof -
  let ?score = "\<lambda>name. case map_of (ve_metrics ev) name of
         None \<Rightarrow> Inl (KeyError name) | Some v \<Rightarrow> Inr (name, v)"
  obtain d sc ob where d: "timestamp local (ve_completed_at ev) = Inr d"
    and sc: "res_map ?score METRIC_NAMES = Inr sc"
    and ob: "(case ve_drift_observed_at ev of None \<Rightarrow> Inl AttributeError | Some t \<Rightarrow> timestamp local t) = Inr ob"
    and p: "p = PDict [(''schema_version'', PStr ''1.1''), (''source_id'', sid),
        (''parser'', PDict [(''id'', pid), (''version'', ver)]),
        (''validation'', PDict [(''status'', PStr ''PASSED''), (''run_id'', ve_run_id ev),
                                (''completed_at'', d)]),
        (''certification'', PDict [(''status'', PStr ''CERTIFIED''), (''timestamp'', d)]),
        (''scores'', PDict sc),
        (''drift'', PDict [(''state'', case ve_drift_state ev of None \<Rightarrow> PNone | Some s \<Rightarrow> PStr s),
                           (''observed_at'', ob)])]"
    using assms unfolding certified_def res_bind_Inr_iff sum.inject by blast
  from sc have "map fst sc = METRIC_NAMES"
    by (auto simp: METRIC_NAMES_def result_simps list_all2_Cons1 split: option.splits)
  moreover from ob have "is_PStr ob" by (auto dest: timestamp_str split: option.splits)
  ultimately show thesis using that p timestamp_str [OF d] by blast
qed

lemma unmeasured_fields:
  assumes "unmeasured local sid pid ver evidence = Inr p"
  obtains status run_id completed_at where
    "status \<in> {''FAILED'', ''NOT_YET_MEASURED''}"
    "run_id = PNone \<or> nonempty_str run_id" "completed_at = PNone \<or> is_PStr completed_at"
    "p = PDict [(''schema_version'', PStr ''1.1''), (''source_id'', sid),
        (''parser'', PDict [(''id'', pid), (''version'', ver)]),
        (''validation'', PDict [(''status'', PStr status), (''run_id'', run_id),
                                (''completed_at'', completed_at)]),
        (''certification'', PDict [(''status'', PStr ''NOT_CERTIFIED''), (''timestamp'', PNone)]),
        (''scores'', PDict (map (\<lambda>name. (name, NOT_YET_MEASURED)) METRIC_NAMES)),
        (''drift'', PDict [(''state'', PStr ''NOT_YET_MEASURED''), (''observed_at'', PNone)])]"
  using assms
  by (auto simp: unmeasured_def result_simps required_text_ok timestamp_def dest!: strip_nonempty
      split: option.splits)

lemma build_passport_cases:
  assumes "build_passport local sid pid ver evidence = Inr p"
  obtains
    (measured) ev where "evidence = Some ev" "ve_passed ev" "evidence_complete ev"
      "certified local sid pid ver ev = Inr p"
  | (unmeasured) "\<forall>ev. evidence = Some ev \<longrightarrow> \<not> ve_passed ev"
      "unmeasured local sid pid ver evidence = Inr p"
  using assms
  by (auto simp: build_passport_def result_simps validate_evidence_ok split: option.splits if_splits)

lemma build_passport_texts:
  assumes "build_passport local sid pid ver evidence = Inr p"
  shows "nonempty_str sid" "nonempty_str pid" "nonempty_str ver"
  using assms by (auto simp: build_passport_def result_simps required_text_ok dest!: strip_nonempty)

lemma certified_valid:
  assumes "evidence_complete ev" "certified local sid pid ver ev = Inr p"
    "nonempty_str sid" "nonempty_str pid"
  shows "passport_valid p \<longleftrightarrow> is_semver ver"
proof -
  obtain done_at observed_at scores where f: "is_PStr done_at" "is_PStr observed_at"
    "map fst scores = METRIC_NAMES"
    "p = PDict [(''schema_version'', PStr ''1.1''), (''source_id'', sid),
        (''parser'', PDict [(''id'', pid), (''version'', ver)]),
        (''validation'', PDict [(''status'', PStr ''PASSED''), (''run_id'', ve_run_id ev),
                                (''completed_at'', done_at)]),
        (''certification'', PDict [(''status'', PStr ''CERTIFIED''), (''timestamp'', done_at)]),
        (''scores'', PDict scores),
        (''drift'', PDict [(''state'', case ve_drift_state ev of None \<Rightarrow> PNone | Some s \<Rightarrow> PStr s),
                           (''observed_at'', observed_at)])]"
    using assms(2) by (rule certified_fields)
  have sc: "list_all (\<lambda>n. unit_number (member (member p ''scores'') n)) METRIC_NAMES"
    using certified_scores [OF assms(2)] assms(1)
    by (auto simp: list_all_iff evidence_complete_def dest!: bspec map_of_SomeD)
  have nm: "is_number v" if "unit_number v" for v using that by (simp add: unit_number_def)
  obtain s where r: "ve_run_id ev = PStr s" "s \<noteq> []"
    using assms(1) by (auto simp: evidence_complete_def dest!: strip_nonempty)
  obtain d where d: "ve_drift_state ev = Some d" "d \<in> set DRIFT_STATES"
    using assms(1) by (auto simp: evidence_complete_def)
  have m: "member p ''schema_version'' = PStr ''1.1''" "member p ''source_id'' = sid"
    "member p ''parser'' = PDict [(''id'', pid), (''version'', ver)]"
    "member p ''validation'' = PDict [(''status'', PStr ''PASSED''), (''run_id'', PStr s), (''completed_at'', done_at)]"
    "member p ''certification'' = PDict [(''status'', PStr ''CERTIFIED''), (''timestamp'', done_at)]"
    "member p ''scores'' = PDict scores"
    "member p ''drift'' = PDict [(''state'', PStr d), (''observed_at'', observed_at)]"
    by (simp_all add: f(4) member_def dict_get_def r d)
  have o: "obj_with [''schema_version'', ''source_id'', ''parser'', ''validation'', ''certification'',
               ''scores'', ''drift''] p" "obj_with METRIC_NAMES (PDict scores)"
    by (auto simp: obj_with_def f(3,4) METRIC_NAMES_def)
  from sc have sc': "list_all (\<lambda>n. unit_number (member (PDict scores) n)) METRIC_NAMES"
    by (simp add: m)
  then have sn: "list_all (\<lambda>n. is_number (member (PDict scores) n)) METRIC_NAMES"
    by (auto simp: list_all_iff nm)
  show ?thesis
    unfolding passport_valid_def m Let_def
    using o sc' sn d(2) f(1,2) r(2) assms(3,4)
    by (auto simp: obj_with_def member_def dict_get_def list_all_iff)
qed

lemma unmeasured_valid:
  assumes "unmeasured local sid pid ver evidence = Inr p" "nonempty_str sid" "nonempty_str pid"
  shows "passport_valid p \<longleftrightarrow> is_semver ver"
  using assms(1)
proof (rule unmeasured_fields)
  fix status run_id completed_at
  assume *: "status \<in> {''FAILED'', ''NOT_YET_MEASURED''}"
    "run_id = PNone \<or> nonempty_str run_id" "completed_at = PNone \<or> is_PStr completed_at"
    "p = PDict [(''schema_version'', PStr ''1.1''), (''source_id'', sid),
        (''parser'', PDict [(''id'', pid), (''version'', ver)]),
        (''validation'', PDict [(''status'', PStr status), (''run_id'', run_id),
                                (''completed_at'', completed_at)]),
        (''certification'', PDict [(''status'', PStr ''NOT_CERTIFIED''), (''timestamp'', PNone)]),
        (''scores'', PDict (map (\<lambda>name. (name, NOT_YET_MEASURED)) METRIC_NAMES)),
        (''drift'', PDict [(''state'', PStr ''NOT_YET_MEASURED''), (''observed_at'', PNone)])]"
  show ?thesis
    using *(1-3) assms(2,3)
    by (auto simp: *(4) passport_valid_def obj_with_def member_def dict_get_def METRIC_NAMES_def)
qed

section \<open>Properties\<close>

text \<open>
  C13. Certification needs evidence: a passport is certified exactly when it was built from
  evidence that passed; that evidence is then complete (non-blank run id, timezone-aware times,
  a measured drift state, exactly the five metrics, each a number in the unit interval) and
  every score is the measured value itself. Otherwise every score says NOT YET MEASURED.
\<close>

theorem certified_only_from_evidence:
  assumes "build_passport local sid pid ver evidence = Inr p"
  shows "(member (member p ''certification'') ''status'' = PStr ''CERTIFIED''
            \<longleftrightarrow> (\<exists>ev. evidence = Some ev \<and> ve_passed ev))
    \<and> (\<forall>ev. evidence = Some ev \<and> ve_passed ev \<longrightarrow> evidence_complete ev
         \<and> (\<forall>n\<in>set METRIC_NAMES. map_of (ve_metrics ev) n = Some (member (member p ''scores'') n)))
    \<and> ((\<forall>ev. evidence = Some ev \<longrightarrow> \<not> ve_passed ev) \<longrightarrow>
         (\<forall>n\<in>set METRIC_NAMES. member (member p ''scores'') n = NOT_YET_MEASURED))"
  using assms
proof (cases rule: build_passport_cases)
  case (measured ev)
  have "member (member p ''certification'') ''status'' = PStr ''CERTIFIED''"
    using measured(4) by (rule certified_fields) (simp add: member_def dict_get_def)
  with measured certified_scores [OF measured(4)] show ?thesis by (auto simp: list_all_iff)
next
  case unmeasured
  from unmeasured(2) show ?thesis
    by (rule unmeasured_fields)
      (use unmeasured(1) in \<open>auto simp: member_def dict_get_def METRIC_NAMES_def\<close>)
qed

text \<open>
  C14. Every passport the builder returns satisfies the published contract
  \<open>telemetry_passport.schema.json\<close>, provided the parser version, which the builder only checks
  for blankness, has the form the contract requires; with any other version it violates it.
\<close>

theorem passport_conforms:
  assumes "build_passport local sid pid ver evidence = Inr p"
  shows "passport_valid p \<longleftrightarrow> is_semver ver"
  using assms
proof (cases rule: build_passport_cases)
  case (measured ev)
  then show ?thesis using build_passport_texts [OF assms] certified_valid by blast
next
  case unmeasured
  then show ?thesis using build_passport_texts [OF assms] unmeasured_valid by blast
qed

text \<open>
  The builder succeeds on passed evidence exactly when the three identifiers are non-blank
  strings, the evidence is complete and both of its times exist in UTC; in every other case it
  raises, so incomplete evidence never yields a passport.
\<close>

theorem build_from_passed_evidence:
  assumes "ve_passed ev"
  shows "(\<exists>p. build_passport local sid pid ver (Some ev) = Inr p) \<longleftrightarrow>
    (\<forall>v\<in>{sid, pid, ver}. \<exists>s. v = PStr s \<and> str_strip s \<noteq> [])
    \<and> evidence_complete ev
    \<and> (\<exists>u. astimezone_utc local (ve_completed_at ev) = Inr u)
    \<and> (\<exists>t u. ve_drift_observed_at ev = Some t \<and> astimezone_utc local t = Inr u)"
proof (cases "evidence_complete ev")
  case True
  with assms certified_total [OF True] show ?thesis
    by (auto simp: build_passport_def result_simps required_text_ok validate_evidence_ok)
next
  case False
  with assms show ?thesis
    by (auto simp: build_passport_def result_simps validate_evidence_ok)
qed

section \<open>Witnesses\<close>

definition sample_evidence :: ValidationEvidence where
  "sample_evidence = \<lparr>ve_run_id = PStr ''run-1'',
     ve_completed_at = \<lparr>dt_wall = 738885 * 86400000000, dt_offset = Some 0\<rparr>,
     ve_passed = True,
     ve_metrics = map (\<lambda>n. (n, PInt 1)) METRIC_NAMES,
     ve_drift_state = Some ''STABLE'',
     ve_drift_observed_at = Some \<lparr>dt_wall = 738885 * 86400000000, dt_offset = Some 0\<rparr>\<rparr>"

definition sample_passport :: "pyval result" where
  "sample_passport = build_passport (\<lambda>_. 0) (PStr ''fw'') (PStr ''p1'') (PStr ''1.0.0'') (Some sample_evidence)"

lemma sample_passport_ok: "(case sample_passport of Inl e \<Rightarrow> False | Inr p \<Rightarrow> True)"
  by code_simp

lemma sample_passport_eq:
  obtains p where "build_passport (\<lambda>_. 0) (PStr ''fw'') (PStr ''p1'') (PStr ''1.0.0'') (Some sample_evidence) = Inr p"
  using sample_passport_ok by (auto simp: sample_passport_def split: sum.splits)

theorem certified_only_from_evidence_witness:
  "\<exists>p. build_passport (\<lambda>_. 0) (PStr ''fw'') (PStr ''p1'') (PStr ''1.0.0'') (Some sample_evidence) = Inr p
     \<and> member (member p ''certification'') ''status'' = PStr ''CERTIFIED''"
proof (rule sample_passport_eq)
  fix p
  assume b: "build_passport (\<lambda>_. 0) (PStr ''fw'') (PStr ''p1'') (PStr ''1.0.0'') (Some sample_evidence) = Inr p"
  have "ve_passed sample_evidence" by (simp add: sample_evidence_def)
  with certified_only_from_evidence [OF b] b show ?thesis by blast
qed

theorem passport_conforms_witness:
  "\<exists>p. build_passport (\<lambda>_. 0) (PStr ''fw'') (PStr ''p1'') (PStr ''1.0.0'') (Some sample_evidence) = Inr p
     \<and> passport_valid p"
proof (rule sample_passport_eq)
  fix p
  assume b: "build_passport (\<lambda>_. 0) (PStr ''fw'') (PStr ''p1'') (PStr ''1.0.0'') (Some sample_evidence) = Inr p"
  have "is_semver (PStr ''1.0.0'')" by code_simp
  with passport_conforms [OF b] b show ?thesis by blast
qed

theorem build_from_passed_evidence_witness:
  "evidence_complete sample_evidence
   \<and> (\<forall>local. \<not> (\<exists>p. build_passport local (PStr ''fw'') (PStr ''p1'') (PStr ''  '') (Some sample_evidence) = Inr p))"
proof -
  have p: "ve_passed sample_evidence" by (simp add: sample_evidence_def)
  have "evidence_complete sample_evidence"
    by (rule sample_passport_eq) (use build_from_passed_evidence [OF p] in blast)
  moreover have "str_strip ''  '' = []" by code_simp
  ultimately show ?thesis using build_from_passed_evidence [OF p] by auto
qed

end
