(* ===== verification/PyStr.thy ===== *)
theory PyStr
  imports PyFloat
begin

text \<open>
  \<open>str(v)\<close> and \<open>repr(v)\<close> of values. The representation of a float is the shortest decimal
  that rounds back to it, in scientific notation outside the decimal exponents -4 to 15.
\<close>

definition zeros :: "nat \<Rightarrow> string" where
  "zeros n = replicate n (CHR ''0'')"

text \<open>The decimal digits of a non-negative integer, by binary arithmetic.\<close>

function show_digits :: "int \<Rightarrow> string" where
  "show_digits i = (if i < 10 then [digit_char (nat i)]
     else show_digits (i div 10) @ [digit_char (nat (i mod 10))])"
  by pat_completeness auto
termination
  by (relation "measure nat") auto

declare show_digits.simps [simp del]

lemma show_digits_nat: "0 \<le> i \<Longrightarrow> show_digits i = show_nat (nat i)"
proof (induction i rule: show_digits.induct)
  case (1 i)
  have "nat i < 10 \<longleftrightarrow> i < 10" using "1.prems" by linarith
  moreover have "i div 10 \<ge> 0" using "1.prems" by simp
  ultimately show ?case
    using 1 by (subst show_digits.simps, subst show_nat.simps) (auto simp: nat_div_distrib nat_mod_distrib)
qed

text \<open>The exponent \<open>e\<close> with \<open>10 powi e \<le> x < 10 powi (e + 1)\<close>, found from the number of digits.\<close>

definition ilog10 :: "rat \<Rightarrow> int" where
  "ilog10 x = (let (n, d) = quotient_of x;
                   e = int (length (show_digits n)) - int (length (show_digits d))
               in if 10 powi e \<le> x then e else e - 1)"

fun shortest_digits :: "nat \<Rightarrow> int \<Rightarrow> rat \<Rightarrow> int \<Rightarrow> int \<times> int" where
  "shortest_digits 0 n x e = (round_half_even (x / 10 powi (e - 16)), e - 16)"
| "shortest_digits (Suc fuel) n x e =
     (let s = e - n + 1; m = round_half_even (x / 10 powi s)
      in if fl (of_int m * 10 powi s) = x then (m, s) else shortest_digits fuel (n + 1) x e)"

definition pad2 :: "nat \<Rightarrow> string" where
  "pad2 n = (if n < 10 then CHR ''0'' # show_nat n else show_nat n)"

definition repr_pos_float :: "rat \<Rightarrow> string" where
  "repr_pos_float x =
     (let (m, s) = shortest_digits 16 1 x (ilog10 x);
          ds0 = show_digits m;
          ds = rstrip_by (\<lambda>c. c = CHR ''0'') ds0;
          e = s + int (length ds0) - 1
      in if - 4 \<le> e \<and> e < 16
         then (if e < 0 then ''0.'' @ zeros (nat (- e) - 1) @ ds
               else if length ds \<le> nat e + 1 then ds @ zeros (nat e + 1 - length ds) @ ''.0''
               else take (nat e + 1) ds @ ''.'' @ drop (nat e + 1) ds)
         else (case ds of [] \<Rightarrow> [] | c # r \<Rightarrow> c # (if r = [] then [] else ''.'' @ r))
              @ ''e'' @ (if e < 0 then ''-'' else ''+'') @ pad2 (nat \<bar>e\<bar>))"

definition repr_float :: "rat \<Rightarrow> string" where
  "repr_float x = (if x = 0 then ''0.0'' else if x < 0 then ''-'' @ repr_pos_float (- x)
     else repr_pos_float x)"

definition hex_digit :: "nat \<Rightarrow> char" where
  "hex_digit n = (if n < 10 then char_of (48 + n) else char_of (87 + n))"

text \<open>Escapes inside a string literal quoted by \<open>q\<close>.\<close>

definition repr_char :: "char \<Rightarrow> char \<Rightarrow> string" where
  "repr_char q c = (let n = (of_char c :: nat); bs = char_of (92 :: nat) in
     if c = q \<or> c = bs then [bs, c]
     else if n = 9 then [bs, CHR ''t''] else if n = 10 then [bs, CHR ''n'']
     else if n = 13 then [bs, CHR ''r'']
     else if n < 32 \<or> 127 \<le> n \<and> n \<le> 160 \<or> n = 173
       then [bs, CHR ''x'', hex_digit (n div 16), hex_digit (n mod 16)]
     else [c])"

definition repr_string :: "string \<Rightarrow> string" where
  "repr_string s =
     (let sq = char_of (39 :: nat); dq = char_of (34 :: nat);
          q = (if sq \<in> set s \<and> dq \<notin> set s then dq else sq)
      in [q] @ concat (map (repr_char q) s) @ [q])"

fun py_repr :: "pyval \<Rightarrow> string"
  and repr_elems :: "pyval list \<Rightarrow> string list"
  and repr_items :: "(string \<times> pyval) list \<Rightarrow> string list" where
  "py_repr PNone = ''None''"
| "py_repr (PBool b) = (if b then ''True'' else ''False'')"
| "py_repr (PInt i) = (if i < 0 then CHR ''-'' # show_digits (- i) else show_digits i)"
| "py_repr (PFloat x) = repr_float x"
| "py_repr (PNonFinite f) = (case f of PosInf \<Rightarrow> ''inf'' | NegInf \<Rightarrow> ''-inf'' | NaN \<Rightarrow> ''nan'')"
| "py_repr (PStr s) = repr_string s"
| "py_repr (PList xs) = ''['' @ str_join '', '' (repr_elems xs) @ '']''"
| "py_repr (PDict d) = ''{'' @ str_join '', '' (repr_items d) @ ''}''"
| "repr_elems [] = []"
| "repr_elems (x # xs) = py_repr x # repr_elems xs"
| "repr_items [] = []"
| "repr_items ((k, v) # d) = (repr_string k @ '': '' @ py_repr v) # repr_items d"

definition py_str :: "pyval \<Rightarrow> string" where
  "py_str v = (case v of PStr s \<Rightarrow> s | _ \<Rightarrow> py_repr v)"

lemma py_str_PStr [simp]: "py_str (PStr s) = s"
  by (simp add: py_str_def)

end
