(* ===== verification/Comparator.thy ===== *)
theory Comparator
  imports PyStr PyTime
begin

text \<open>
  The shadow comparator, \<open>ml/shadow/comparator.py\<close>: active and candidate outputs compared by
  field congruence, critical security semantics, retention of unknown fields, detection
  preservation and latency, and the verdict drawn from them.

  The text lines of the report are values of \<open>reason\<close>, which carry what the source formats.
  \<open>CRITICAL_SECURITY_FIELDS\<close> is a set in the source: its iteration order is the argument
  \<open>crit_order\<close>, which only orders the example lines.
\<close>

section \<open>Data\<close>

datatype ShadowState = SH_PASSED | SH_FAILED | SH_SUSPECTED

datatype ShadowRecommendation = READY_FOR_PROMOTION | SH_REJECT | REQUIRE_HUMAN_REVIEW

record ShadowMetrics =
  sm_field_match_rate :: rat
  sm_critical_semantic_divergence :: rat
  sm_unknown_field_retention :: rat
  sm_active_dps :: rat
  sm_candidate_dps :: rat
  sm_dps_delta :: rat
  sm_active_latency_p95_ms :: rat
  sm_candidate_latency_p95_ms :: rat
  sm_latency_delta_pct :: rat

datatype divergence_type =
  VALUE_MISMATCH | FIELD_MISSING_IN_CANDIDATE | NEW_FIELD_IN_CANDIDATE | TYPE_MISMATCH

record FieldDivergence =
  fd_field :: string
  fd_match_rate :: rat
  fd_type :: divergence_type
  fd_active :: pyval
  fd_candidate :: pyval

datatype reason =
    Isolation_violation
  | Dps_regression rat rat
  | Critical_divergence rat
  | Retention_violation rat
  | Match_rate_below rat
  | Match_rate_review rat
  | Latency_regression rat rat
  | Detail_diverged nat string pyval pyval
  | Detail_critical_dropped nat string
  | Detail_unknown_dropped nat string
  | Detail_dps rat rat rat
  | Detail_latency rat rat rat
  | Ok_no_divergence
  | Ok_dps rat
  | Ok_retention
  | Ok_latency rat rat rat
  | Ok_isolation

record ShadowComparisonReport =
  sc_source_id :: string
  sc_active_parser_id :: pyval
  sc_active_parser_version :: pyval
  sc_candidate_parser_id :: pyval
  sc_candidate_parser_version :: pyval
  sc_shadow_state :: ShadowState
  sc_evaluated_at :: datetime
  sc_start_time :: datetime
  sc_end_time :: datetime
  sc_sample_count :: nat
  sc_metrics :: ShadowMetrics
  sc_field_divergences :: "FieldDivergence list"
  sc_downstream_isolation_verified :: bool
  sc_recommendation :: ShadowRecommendation
  sc_recommendation_reasons :: "reason list"

definition CRITICAL_SECURITY_FIELDS :: "string list" where
  "CRITICAL_SECURITY_FIELDS = [''src.ip'', ''dst.ip'', ''src.port'', ''dst.port'',
     ''event.action'', ''event.outcome'', ''user.name'']"

section \<open>Flattening\<close>

definition flat_skipped :: "string \<Rightarrow> bool" where
  "flat_skipped k \<longleftrightarrow> str_startswith k ''_'' \<or> k = ''unknown_fields''"

definition flat_key :: "string \<Rightarrow> string \<Rightarrow> string" where
  "flat_key pre k = (if pre = [] then k else pre @ ''.'' @ k)"

fun flatten_into :: "string \<Rightarrow> dict \<Rightarrow> dict \<Rightarrow> dict" where
  "flatten_into pre flat [] = flat"
| "flatten_into pre flat ((k, PDict d) # r) =
     flatten_into pre (if flat_skipped k then flat
       else dict_update flat (flatten_into (flat_key pre k) [] d)) r"
| "flatten_into pre flat ((k, v) # r) =
     flatten_into pre (if flat_skipped k then flat
       else AList.update (flat_key pre k) v flat) r"

definition flatten_event :: "dict \<Rightarrow> dict" where
  "flatten_event event = flatten_into [] [] event"

section \<open>Field congruence\<close>

record congruence =
  cg_match :: "(string \<times> nat) list"
  cg_total :: "(string \<times> nat) list"
  cg_examples :: "(string \<times> divergence_type \<times> pyval \<times> pyval) list"
  cg_comparisons :: nat
  cg_matches :: nat

definition add_example ::
    "string \<Rightarrow> divergence_type \<times> pyval \<times> pyval \<Rightarrow> congruence \<Rightarrow> congruence" where
  "add_example k ex st =
     (if map_of (cg_examples st) k = None
      then st\<lparr>cg_examples := AList.update k ex (cg_examples st)\<rparr> else st)"

definition compare_active_key :: "dict \<Rightarrow> congruence \<Rightarrow> string \<times> pyval \<Rightarrow> congruence" where
  "compare_active_key cand_flat st p = (case p of (k, val_act) \<Rightarrow>
     let st1 = st\<lparr>cg_total := AList.update k (dict_get (cg_total st) k 0 + 1) (cg_total st),
                  cg_comparisons := cg_comparisons st + 1\<rparr>
     in case map_of cand_flat k of
          Some val_cand \<Rightarrow>
            if py_eq val_act val_cand
            then st1\<lparr>cg_match := AList.update k (dict_get (cg_match st1) k 0 + 1) (cg_match st1),
                     cg_matches := cg_matches st1 + 1\<rparr>
            else add_example k (if type_tag val_act \<noteq> type_tag val_cand then TYPE_MISMATCH
                                else VALUE_MISMATCH, val_act, val_cand) st1
        | None \<Rightarrow> add_example k (FIELD_MISSING_IN_CANDIDATE, val_act, PNone) st1)"

definition compare_new_key :: "dict \<Rightarrow> congruence \<Rightarrow> string \<times> pyval \<Rightarrow> congruence" where
  "compare_new_key act_flat st p = (case p of (k, val_cand) \<Rightarrow>
     if map_of act_flat k = None then
       let st1 = add_example k (NEW_FIELD_IN_CANDIDATE, PNone, val_cand) st
       in if map_of (cg_total st1) k = None
          then st1\<lparr>cg_total := AList.update k 1 (cg_total st1),
                   cg_match := AList.update k 1 (cg_match st1)\<rparr>
          else st1
     else st)"

definition compare_pair :: "congruence \<Rightarrow> dict \<times> dict \<Rightarrow> congruence" where
  "compare_pair st p = (case p of (act, cand) \<Rightarrow>
     let act_flat = flatten_event act; cand_flat = flatten_event cand
     in foldl (compare_new_key act_flat) (foldl (compare_active_key cand_flat) st act_flat) cand_flat)"

definition init_congruence :: congruence where
  "init_congruence = \<lparr>cg_match = [], cg_total = [], cg_examples = [], cg_comparisons = 0, cg_matches = 0\<rparr>"

definition divergence_of :: "congruence \<Rightarrow> string \<times> nat \<Rightarrow> FieldDivergence list" where
  "divergence_of st p = (case p of (field_name, total_cnt) \<Rightarrow>
     case map_of (cg_examples st) field_name of
       None \<Rightarrow> []
     | Some (div_type, a, c) \<Rightarrow>
         let rate = (if div_type = NEW_FIELD_IN_CANDIDATE then 1
                     else fl (of_nat (dict_get (cg_match st) field_name 0) / of_nat total_cnt))
         in [\<lparr>fd_field = field_name, fd_match_rate = py_round rate 4, fd_type = div_type,
              fd_active = a, fd_candidate = c\<rparr>])"

definition evaluate_field_congruence :: "dict list \<Rightarrow> dict list \<Rightarrow> rat \<times> FieldDivergence list" where
  "evaluate_field_congruence active_events candidate_events =
     (if active_events = [] \<or> candidate_events = [] then (1, [])
      else
        let st = foldl compare_pair init_congruence (zip active_events candidate_events);
            overall = (if 0 < cg_comparisons st
                       then fl (of_nat (cg_matches st) / of_nat (cg_comparisons st)) else 1)
        in (py_round overall 4, concat (map (divergence_of st) (sort_key fst (cg_total st)))))"

section \<open>Critical semantics\<close>

text \<open>\<open>d.get(k)\<close> is \<open>PNone\<close> both for a missing key and for a null value.\<close>

definition crit_diff :: "nat \<Rightarrow> dict \<Rightarrow> dict \<Rightarrow> string \<Rightarrow> reason option" where
  "crit_diff i act_flat cand_flat f =
     (let act_val = dict_get act_flat f PNone; cand_val = dict_get cand_flat f PNone
      in if act_val \<noteq> PNone \<and> cand_val \<noteq> PNone
         then if (f = ''event.action'' \<or> f = ''event.outcome'') \<and> is_PStr act_val \<and> is_PStr cand_val
              then (if str_lower (str_strip (py_str act_val)) \<noteq> str_lower (str_strip (py_str cand_val))
                    then Some (Detail_diverged i f act_val cand_val) else None)
              else if \<not> py_eq act_val cand_val
                   then Some (Detail_diverged i f act_val cand_val) else None
         else if act_val \<noteq> PNone then Some (Detail_critical_dropped i f)
         else None)"

definition add_detail :: "reason list \<Rightarrow> reason \<Rightarrow> reason list" where
  "add_detail details r = (if length details < 5 then details @ [r] else details)"

definition crit_event ::
    "string list \<Rightarrow> nat \<times> reason list \<Rightarrow> nat \<times> dict \<times> dict \<Rightarrow> nat \<times> reason list" where
  "crit_event crit_order st p = (case (st, p) of ((count, details), (i, act, cand)) \<Rightarrow>
     let act_flat = flatten_event act; cand_flat = flatten_event cand;
         found = List.map_filter (crit_diff i act_flat cand_flat) crit_order
     in (if found \<noteq> [] then count + 1 else count, foldl add_detail details found))"

definition evaluate_critical_semantics ::
    "string list \<Rightarrow> dict list \<Rightarrow> dict list \<Rightarrow> rat \<times> reason list" where
  "evaluate_critical_semantics crit_order active_events candidate_events =
     (if active_events = [] \<or> candidate_events = [] then (0, [])
      else
        let sample_len = min (length active_events) (length candidate_events);
            (count, details) = foldl (crit_event crit_order) (0, [])
              (zip [0..<sample_len] (zip active_events candidate_events));
            rate = (if 0 < sample_len then fl (of_nat count / of_nat sample_len) else 0)
        in (py_round rate 4, details))"

section \<open>Retention of unknown fields\<close>

definition unknown_of :: "dict \<Rightarrow> pyval" where
  "unknown_of ev = py_or (dict_get ev ''unknown_fields'' PNone) (PDict [])"

definition unknown_retained :: "dict \<Rightarrow> string \<times> pyval \<Rightarrow> bool" where
  "unknown_retained cand p = (case p of (k, v) \<Rightarrow>
     (case unknown_of cand of PDict d \<Rightarrow> map_of d k \<noteq> None | _ \<Rightarrow> False)
     \<or> list_ex (\<lambda>(_, val). py_eq val v) (flatten_event cand))"

definition retention_field ::
    "nat \<Rightarrow> dict \<Rightarrow> nat \<times> nat \<times> reason list \<Rightarrow> string \<times> pyval \<Rightarrow> nat \<times> nat \<times> reason list" where
  "retention_field i cand st p = (case st of (n, kept, details) \<Rightarrow>
     if unknown_retained cand p then (n + 1, kept + 1, details)
     else (n + 1, kept, add_detail details (Detail_unknown_dropped i (fst p))))"

definition retention_event ::
    "nat \<times> nat \<times> reason list \<Rightarrow> nat \<times> dict \<times> dict \<Rightarrow> nat \<times> nat \<times> reason list" where
  "retention_event st p = (case p of (i, act, cand) \<Rightarrow>
     case unknown_of act of
       PDict d \<Rightarrow> foldl (retention_field i cand) st d
     | _ \<Rightarrow> st)"

definition evaluate_unknown_retention :: "dict list \<Rightarrow> dict list \<Rightarrow> rat \<times> reason list" where
  "evaluate_unknown_retention active_events candidate_events =
     (if active_events = [] \<or> candidate_events = [] then (1, [])
      else
        let sample_len = min (length active_events) (length candidate_events);
            (n, kept, details) = foldl retention_event (0, 0, [])
              (zip [0..<sample_len] (zip active_events candidate_events))
        in if n = 0 then (1, [])
           else (py_round (fl (of_nat kept / of_nat n)) 4, details))"

section \<open>Detection preservation\<close>

definition event_text :: "dict \<Rightarrow> string \<Rightarrow> string \<Rightarrow> string" where
  "event_text ev short long =
     (let ev_obj = (case dict_get ev ''event'' PNone of PDict d \<Rightarrow> d | _ \<Rightarrow> [])
      in str_lower (py_str (py_or (py_or (dict_get ev_obj short PNone) (dict_get ev long PNone))
           (PStr []))))"

definition endpoint_ip :: "dict \<Rightarrow> string \<Rightarrow> string \<Rightarrow> pyval" where
  "endpoint_ip ev flat side = py_or (dict_get ev flat PNone)
     (case dict_get ev side PNone of PDict d \<Rightarrow> dict_get d ''ip'' PNone | _ \<Rightarrow> PNone)"

definition dps_event :: "nat \<times> nat \<Rightarrow> dict \<Rightarrow> nat \<times> nat" where
  "dps_event st ev = (case st of (expected, preserved) \<Rightarrow>
     let action = event_text ev ''action'' ''event.action'';
         outcome = event_text ev ''outcome'' ''event.outcome'';
         src_ip = endpoint_ip ev ''src.ip'' ''src''; dst_ip = endpoint_ip ev ''dst.ip'' ''dst'';
         is_security_event = str_contains ''deny'' action \<or> str_contains ''block'' action
           \<or> str_contains ''drop'' action \<or> str_contains ''denied'' outcome
     in if is_security_event
        then (expected + 1,
              if (str_contains ''block'' action \<or> str_contains ''deny'' action
                  \<or> str_contains ''drop'' action \<or> str_contains ''denied'' outcome)
                 \<and> (truthy src_ip \<or> truthy dst_ip)
              then preserved + 1 else preserved)
        else (expected, preserved))"

definition calc_dps :: "dict list \<Rightarrow> rat" where
  "calc_dps events =
     (let (expected, preserved) = foldl dps_event (0, 0) events
      in if 0 < expected then fl (of_nat preserved / of_nat expected) else 1)"

definition evaluate_dps_comparison ::
    "dict list \<Rightarrow> dict list \<Rightarrow> rat \<times> rat \<times> rat \<times> reason list" where
  "evaluate_dps_comparison active_events candidate_events =
     (let active_dps = py_round (calc_dps active_events) 4;
          candidate_dps = py_round (calc_dps candidate_events) 4;
          dps_delta = py_round (fl (candidate_dps - active_dps)) 4
      in (active_dps, candidate_dps, dps_delta,
          if dps_delta < 0 then [Detail_dps candidate_dps \<bar>dps_delta\<bar> active_dps] else []))"

section \<open>Latency\<close>

definition p95 :: "rat list \<Rightarrow> rat" where
  "p95 latencies =
     (if latencies = [] then 0
      else let sorted_lat = sort latencies;
               idx = nat \<lfloor>fl (of_nat (length sorted_lat) * fl (95 / 100))\<rfloor>;
               idx' = min idx (length sorted_lat - 1)
           in sorted_lat ! idx')"

definition evaluate_latencies :: "rat list \<Rightarrow> rat list \<Rightarrow> rat \<times> rat \<times> rat \<times> reason list" where
  "evaluate_latencies active_latencies_ms candidate_latencies_ms =
     (let act_p95 = p95 active_latencies_ms; cand_p95 = p95 candidate_latencies_ms;
          diff = fl (cand_p95 - act_p95);
          lat_delta_pct = (if 0 < act_p95 then fl (fl (diff / act_p95) * 100) else 0)
      in (py_round act_p95 4, py_round cand_p95 4, py_round lat_delta_pct 2,
          if 20 < lat_delta_pct \<and> 1 < diff then [Detail_latency lat_delta_pct cand_p95 act_p95] else []))"

section \<open>The verdict\<close>

definition failure_flags :: "bool \<Rightarrow> ShadowMetrics \<Rightarrow> reason list" where
  "failure_flags isolated m =
     (if \<not> isolated then [Isolation_violation] else [])
     @ (if sm_dps_delta m < 0 then [Dps_regression (sm_candidate_dps m) (sm_active_dps m)] else [])
     @ (if 0 < sm_critical_semantic_divergence m
        then [Critical_divergence (sm_critical_semantic_divergence m)] else [])
     @ (if sm_unknown_field_retention m < 1
        then [Retention_violation (sm_unknown_field_retention m)] else [])
     @ (if sm_field_match_rate m < fl (90 / 100) then [Match_rate_below (sm_field_match_rate m)] else [])"

definition suspected_flags :: "ShadowMetrics \<Rightarrow> reason list" where
  "suspected_flags m =
     (if \<not> sm_field_match_rate m < fl (90 / 100) \<and> sm_field_match_rate m < fl (98 / 100)
      then [Match_rate_review (sm_field_match_rate m)] else [])
     @ (let abs_lat_delta = fl (sm_candidate_latency_p95_ms m - sm_active_latency_p95_ms m)
        in if 50 < sm_latency_delta_pct m \<and> 1 < abs_lat_delta
           then [Latency_regression (sm_latency_delta_pct m) abs_lat_delta] else [])"

definition measure_streams ::
    "string list \<Rightarrow> dict list \<Rightarrow> dict list \<Rightarrow> rat list option \<Rightarrow> rat list option
     \<Rightarrow> ShadowMetrics \<times> FieldDivergence list \<times> reason list \<times> reason list \<times> reason list \<times> reason list" where
  "measure_streams crit_order active_events candidate_events active_lat candidate_lat =
     (let (match_rate, divergences) = evaluate_field_congruence active_events candidate_events;
          (crit, crit_details) = evaluate_critical_semantics crit_order active_events candidate_events;
          (retention, unknown_details) = evaluate_unknown_retention active_events candidate_events;
          (active_dps, candidate_dps, dps_delta, dps_details) =
            evaluate_dps_comparison active_events candidate_events;
          or_default = (\<lambda>l. case l of None \<Rightarrow> [1] | Some xs \<Rightarrow> if xs = [] then [1] else xs);
          (active_p95, candidate_p95, lat_delta_pct, lat_details) =
            evaluate_latencies (or_default active_lat) (or_default candidate_lat)
      in (\<lparr>sm_field_match_rate = match_rate, sm_critical_semantic_divergence = crit,
           sm_unknown_field_retention = retention, sm_active_dps = active_dps,
           sm_candidate_dps = candidate_dps, sm_dps_delta = dps_delta,
           sm_active_latency_p95_ms = active_p95, sm_candidate_latency_p95_ms = candidate_p95,
           sm_latency_delta_pct = lat_delta_pct\<rparr>,
          divergences, crit_details, dps_details, unknown_details, lat_details))"

definition compare_streams ::
    "string list \<Rightarrow> datetime \<Rightarrow> string \<Rightarrow> pyval \<Rightarrow> pyval \<Rightarrow> pyval \<Rightarrow> pyval \<Rightarrow> dict list \<Rightarrow> dict list
     \<Rightarrow> rat list option \<Rightarrow> rat list option \<Rightarrow> bool \<Rightarrow> datetime option \<Rightarrow> datetime option
     \<Rightarrow> datetime option \<Rightarrow> ShadowComparisonReport" where
  "compare_streams crit_order clock source_id active_id active_version candidate_id candidate_version
     active_events candidate_events active_lat candidate_lat isolated start_time end_time evaluated_at =
     (let now = (case evaluated_at of None \<Rightarrow> clock | Some t \<Rightarrow> t);
          (m, divergences, crit_details, dps_details, unknown_details, lat_details) =
            measure_streams crit_order active_events candidate_events active_lat candidate_lat;
          failures = failure_flags isolated m;
          suspected = suspected_flags m;
          (state, recommendation, reasons) =
            (if failures \<noteq> [] then
               (SH_FAILED, SH_REJECT, failures @ crit_details @ dps_details @ unknown_details)
             else if suspected \<noteq> [] then
               (SH_SUSPECTED, REQUIRE_HUMAN_REVIEW, suspected @ lat_details)
             else
               (SH_PASSED, READY_FOR_PROMOTION,
                [Ok_no_divergence, Ok_dps (sm_candidate_dps m), Ok_retention,
                 Ok_latency (sm_latency_delta_pct m) (sm_candidate_latency_p95_ms m)
                   (sm_active_latency_p95_ms m), Ok_isolation]))
      in \<lparr>sc_source_id = source_id, sc_active_parser_id = active_id,
          sc_active_parser_version = active_version, sc_candidate_parser_id = candidate_id,
          sc_candidate_parser_version = candidate_version, sc_shadow_state = state,
          sc_evaluated_at = now,
          sc_start_time = (case start_time of None \<Rightarrow> now | Some t \<Rightarrow> t),
          sc_end_time = (case end_time of None \<Rightarrow> now | Some t \<Rightarrow> t),
          sc_sample_count = max (length active_events) (length candidate_events),
          sc_metrics = m, sc_field_divergences = divergences,
          sc_downstream_isolation_verified = isolated, sc_recommendation = recommendation,
          sc_recommendation_reasons = reasons\<rparr>)"

section \<open>Lemmas\<close>

lemma flatten_into_ok: "dict_ok flat \<Longrightarrow> dict_ok (flatten_into pre flat d)"
  by (induction pre flat d rule: flatten_into.induct) auto

lemma flatten_into_all:
  assumes "\<And>k v. P v \<Longrightarrow> \<not> is_PDict v \<Longrightarrow> Q (k, v)" "\<And>d. P (PDict d) \<Longrightarrow> list_all (\<lambda>(k, v). P v) d"
    and "list_all Q flat" "list_all (\<lambda>(k, v). P v) d"
  shows "list_all Q (flatten_into pre flat d)"
  using assms(3,4)
proof (induction pre flat d rule: flatten_into.induct)
  case (2 pre flat k d r)
  from 2(4) have "list_all (\<lambda>(k, v). P v) d" using assms(2) by simp
  then have "\<not> flat_skipped k \<Longrightarrow> list_all Q (flatten_into (flat_key pre k) [] d)"
    using 2(1) by simp
  with 2(2-4) show ?case by (simp add: list_all_dict_update)
qed (auto simp: list_all_update assms(1))

lemma flatten_event_ok [simp]: "dict_ok (flatten_event d)"
  by (simp add: flatten_event_def flatten_into_ok)

lemma flatten_event_no_nan:
  "no_nan (PDict d) \<Longrightarrow> list_all (\<lambda>(k, v). no_nan v) (flatten_event d)"
  unfolding flatten_event_def by (rule flatten_into_all [where P = no_nan]) auto

text \<open>Field congruence counts the fields of the active events and those the candidate repeats.\<close>

definition agrees :: "dict \<Rightarrow> string \<times> pyval \<Rightarrow> bool" where
  "agrees cand_flat p = (case map_of cand_flat (fst p) of None \<Rightarrow> False | Some w \<Rightarrow> py_eq (snd p) w)"

lemma add_example_counts [simp]:
  "cg_comparisons (add_example k ex st) = cg_comparisons st"
  "cg_matches (add_example k ex st) = cg_matches st"
  by (simp_all add: add_example_def)

lemma compare_active_counts:
  "cg_comparisons (compare_active_key cf st p) = cg_comparisons st + 1"
  "cg_matches (compare_active_key cf st p) = cg_matches st + (if agrees cf p then 1 else 0)"
  by (auto simp: compare_active_key_def agrees_def Let_def split: prod.split option.split)

lemma compare_active_fold_counts:
  "cg_comparisons (foldl (compare_active_key cf) st ps) = cg_comparisons st + length ps"
  "cg_matches (foldl (compare_active_key cf) st ps) = cg_matches st + length (filter (agrees cf) ps)"
  by (induction ps arbitrary: st) (auto simp: compare_active_counts)

lemma compare_new_key_counts:
  "cg_comparisons (compare_new_key af st p) = cg_comparisons st"
  "cg_matches (compare_new_key af st p) = cg_matches st"
  by (auto simp: compare_new_key_def Let_def split: prod.split)

lemma compare_new_counts:
  "cg_comparisons (foldl (compare_new_key af) st ps) = cg_comparisons st"
  "cg_matches (foldl (compare_new_key af) st ps) = cg_matches st"
  by (induction ps arbitrary: st) (simp_all add: compare_new_key_counts)

definition fields_compared :: "(dict \<times> dict) list \<Rightarrow> nat" where
  "fields_compared ps = sum_list (map (\<lambda>(a, c). length (flatten_event a)) ps)"

definition fields_agreeing :: "(dict \<times> dict) list \<Rightarrow> nat" where
  "fields_agreeing ps =
     sum_list (map (\<lambda>(a, c). length (filter (agrees (flatten_event c)) (flatten_event a))) ps)"

lemma compare_pairs_counts:
  "cg_comparisons (foldl compare_pair st ps) = cg_comparisons st + fields_compared ps"
  "cg_matches (foldl compare_pair st ps) = cg_matches st + fields_agreeing ps"
  by (induction ps arbitrary: st)
    (auto simp: compare_pair_def Let_def compare_new_counts compare_active_fold_counts
      fields_compared_def fields_agreeing_def)

lemma fields_agreeing_le: "fields_agreeing ps \<le> fields_compared ps"
  unfolding fields_agreeing_def fields_compared_def by (intro sum_list_mono) auto

lemma match_rate_eq:
  "fst (evaluate_field_congruence as cs) =
     (if as = [] \<or> cs = [] \<or> fields_compared (zip as cs) = 0 then 1
      else py_round (fl (of_nat (fields_agreeing (zip as cs)) / of_nat (fields_compared (zip as cs)))) 4)"
  by (simp add: evaluate_field_congruence_def Let_def compare_pairs_counts init_congruence_def)

text \<open>Critical semantics counts the events that do not preserve every critical field.\<close>

definition crit_preserved :: "dict \<Rightarrow> dict \<Rightarrow> string \<Rightarrow> bool" where
  "crit_preserved act cand f =
     (let a = dict_get (flatten_event act) f PNone; c = dict_get (flatten_event cand) f PNone
      in a = PNone \<or> c \<noteq> PNone \<and>
         (if f \<in> {''event.action'', ''event.outcome''} \<and> is_PStr a \<and> is_PStr c
          then str_lower (str_strip (py_str a)) = str_lower (str_strip (py_str c))
          else py_eq a c))"

definition crit_preserved_all :: "dict \<times> dict \<Rightarrow> bool" where
  "crit_preserved_all p = list_all (crit_preserved (fst p) (snd p)) CRITICAL_SECURITY_FIELDS"

lemma crit_diff_None: "crit_diff i (flatten_event a) (flatten_event c) f = None \<longleftrightarrow> crit_preserved a c f"
  by (auto simp: crit_diff_def crit_preserved_def Let_def)

lemma map_filter_Nil_iff: "List.map_filter f xs = [] \<longleftrightarrow> list_all (\<lambda>x. f x = None) xs"
  by (induction xs) (auto simp: List.map_filter_simps split: option.split)

lemma crit_fold_count:
  assumes "set crit_order = set CRITICAL_SECURITY_FIELDS"
  shows "fst (foldl (crit_event crit_order) st ps)
    = fst st + length (filter (\<lambda>(i, p). \<not> crit_preserved_all p) ps)"
proof (induction ps arbitrary: st)
  case (Cons q ps)
  obtain i a c where q: "q = (i, a, c)" by (cases q) auto
  have "fst (crit_event crit_order st q) = fst st + (if crit_preserved_all (a, c) then 0 else 1)"
    using assms by (simp add: crit_event_def q Let_def map_filter_Nil_iff crit_diff_None
        crit_preserved_all_def list_all_iff split: prod.split del: not_None_eq)
  then show ?case using Cons by (simp add: q)
qed simp

lemma upt_cons: "[m..<Suc (m + n)] = m # [Suc m..<Suc (m + n)]"
  by (simp add: upt_conv_Cons del: upt_Suc)

lemma filter_zip_upt: "length (filter (\<lambda>(i, p). P p) (zip [m..<m + length ps] ps)) = length (filter P ps)"
proof (induction ps arbitrary: m)
  case (Cons p ps)
  from Cons [of "Suc m"] show ?case by (simp add: upt_cons del: upt_Suc)
qed simp

definition crit_violations :: "dict list \<Rightarrow> dict list \<Rightarrow> nat" where
  "crit_violations as cs = length (filter (\<lambda>p. \<not> crit_preserved_all p) (zip as cs))"

lemma crit_rate_eq:
  assumes "set crit_order = set CRITICAL_SECURITY_FIELDS"
  shows "fst (evaluate_critical_semantics crit_order as cs) =
    (if as = [] \<or> cs = [] then 0
     else py_round (fl (of_nat (crit_violations as cs) / of_nat (min (length as) (length cs)))) 4)"
proof -
  have "fst (foldl (crit_event crit_order) (0, []) (zip [0..<min (length as) (length cs)] (zip as cs)))
          = crit_violations as cs"
    using filter_zip_upt [of "\<lambda>p. \<not> crit_preserved_all p" 0 "zip as cs"]
    by (simp add: crit_fold_count [OF assms] crit_violations_def)
  then show ?thesis
    by (auto simp: evaluate_critical_semantics_def Let_def split: prod.split)
qed

text \<open>Retention counts the unknown fields of the active events and the retained ones.\<close>

definition unknown_pairs :: "(dict \<times> dict) list \<Rightarrow> (dict \<times> string \<times> pyval) list" where
  "unknown_pairs ps = concat (map (\<lambda>(a, c).
     case unknown_of a of PDict d \<Rightarrow> map (\<lambda>p. (c, p)) d | _ \<Rightarrow> []) ps)"

lemma retention_fold_field:
  "fst (foldl (retention_field i c) st d) = fst st + length d"
  "fst (snd (foldl (retention_field i c) st d))
     = fst (snd st) + length (filter (unknown_retained c) d)"
  by (induction d arbitrary: st) (auto simp: retention_field_def split: prod.split)

lemma retention_event_counts:
  "fst (retention_event st (i, p)) = fst st + length (unknown_pairs [p])"
  "fst (snd (retention_event st (i, p)))
     = fst (snd st) + length (filter (\<lambda>(c, p). unknown_retained c p) (unknown_pairs [p]))"
  by (auto simp: retention_event_def unknown_pairs_def retention_fold_field filter_map comp_def
      split: prod.split pyval.split)

lemma unknown_pairs_Cons: "unknown_pairs (p # ps) = unknown_pairs [p] @ unknown_pairs ps"
  by (simp add: unknown_pairs_def)

lemma retention_fold:
  "fst (foldl retention_event st (zip [m..<m + length ps] ps)) = fst st + length (unknown_pairs ps)"
  "fst (snd (foldl retention_event st (zip [m..<m + length ps] ps)))
     = fst (snd st) + length (filter (\<lambda>(c, p). unknown_retained c p) (unknown_pairs ps))"
proof (induction ps arbitrary: m st)
  case (Cons p ps)
  {
    case 1
    from Cons(1) [of _ "Suc m"] show ?case
      by (simp add: upt_cons retention_event_counts unknown_pairs_Cons [of p ps] del: upt_Suc)
  next
    case 2
    from Cons(2) [of _ "Suc m"] show ?case
      by (simp add: upt_cons retention_event_counts unknown_pairs_Cons [of p ps] del: upt_Suc)
  }
qed (simp_all add: unknown_pairs_def)

definition unknowns_kept :: "(dict \<times> string \<times> pyval) list \<Rightarrow> nat" where
  "unknowns_kept us = length (filter (\<lambda>(c, p). unknown_retained c p) us)"

lemma retention_eq:
  "fst (evaluate_unknown_retention as cs) =
     (if as = [] \<or> cs = [] \<or> unknown_pairs (zip as cs) = [] then 1
      else py_round (fl (of_nat (unknowns_kept (unknown_pairs (zip as cs)))
             / of_nat (length (unknown_pairs (zip as cs))))) 4)"
proof -
  let ?r = "foldl retention_event (0, 0, []) (zip [0..<min (length as) (length cs)] (zip as cs))"
  have "fst ?r = length (unknown_pairs (zip as cs))"
    "fst (snd ?r) = unknowns_kept (unknown_pairs (zip as cs))"
    using retention_fold [of "(0, 0, [])" 0 "zip as cs"] by (simp_all add: unknowns_kept_def)
  then show ?thesis by (simp add: evaluate_unknown_retention_def Let_def case_prod_unfold)
qed

text \<open>Detection preservation counts the security events and those that name an endpoint.\<close>

definition security_event :: "dict \<Rightarrow> bool" where
  "security_event ev \<longleftrightarrow>
     list_ex (\<lambda>w. str_contains w (event_text ev ''action'' ''event.action'')) [''deny'', ''block'', ''drop'']
     \<or> str_contains ''denied'' (event_text ev ''outcome'' ''event.outcome'')"

definition attributed :: "dict \<Rightarrow> bool" where
  "attributed ev \<longleftrightarrow> truthy (endpoint_ip ev ''src.ip'' ''src'') \<or> truthy (endpoint_ip ev ''dst.ip'' ''dst'')"

lemma dps_event_eq:
  "dps_event (e, p) ev = (if security_event ev then (e + 1, if attributed ev then p + 1 else p) else (e, p))"
  by (auto simp: dps_event_def security_event_def attributed_def Let_def)

lemma calc_dps_eq:
  "calc_dps evs = (let n = length (filter security_event evs) in
     if 0 < n then fl (of_nat (length (filter (\<lambda>e. security_event e \<and> attributed e) evs)) / of_nat n)
     else 1)"
proof -
  have "foldl dps_event (e, p) evs = (e + length (filter security_event evs),
      p + length (filter (\<lambda>e. security_event e \<and> attributed e) evs))" for e p
    by (induction evs arbitrary: e p) (auto simp: dps_event_eq)
  then show ?thesis by (simp add: calc_dps_def Let_def)
qed

text \<open>What rounding to four decimals does to a ratio near its ends.\<close>

lemma round4_pos:
  assumes "0 < k" "n \<le> 20000" "k \<le> n"
  shows "0 < py_round (fl (of_nat k / of_nat n)) 4"
proof -
  have "(1 / 20000 :: rat) \<le> of_nat k / of_nat n"
    using assms by (simp add: field_simps mult_mono del: of_nat_le_iff)
  then have "py_round (fl (1 / 20000)) 4 \<le> py_round (fl (of_nat k / of_nat n)) 4"
    by (intro py_round_mono fl_mono)
  moreover have "0 < py_round (fl (1 / 20000)) 4" by code_simp
  ultimately show ?thesis by linarith
qed

lemma round4_zero:
  assumes "20001 * k \<le> n" "0 < n"
  shows "py_round (fl (of_nat k / of_nat n)) 4 = 0"
proof -
  have "(of_nat (20001 * k) :: rat) \<le> of_nat n" using assms(1) by (simp only: of_nat_le_iff)
  then have "of_nat k / of_nat n \<le> (1 / 20001 :: rat)" using assms(2) by (simp add: field_simps)
  then have "py_round (fl (of_nat k / of_nat n)) 4 \<le> py_round (fl (1 / 20001)) 4"
    by (intro py_round_mono fl_mono)
  moreover have "py_round (fl (1 / 20001)) 4 = 0" by code_simp
  moreover have "0 \<le> py_round (fl (of_nat k / of_nat n)) 4"
    by (intro round4.nonneg ieee.nonneg) simp
  ultimately show ?thesis by linarith
qed

lemma round4_less_one:
  assumes "k < n" "n < 20000"
  shows "py_round (fl (of_nat k / of_nat n)) 4 < 1"
proof -
  have "k * 19999 \<le> 19998 * n" using assms by linarith
  then have "(of_nat (k * 19999) :: rat) \<le> of_nat (19998 * n)" by (simp only: of_nat_le_iff)
  then have "of_nat k / of_nat n \<le> (19998 / 19999 :: rat)" using assms by (simp add: field_simps)
  then have "py_round (fl (of_nat k / of_nat n)) 4 \<le> py_round (fl (19998 / 19999)) 4"
    by (intro py_round_mono fl_mono)
  moreover have "py_round (fl (19998 / 19999)) 4 < 1" by code_simp
  ultimately show ?thesis by linarith
qed

lemma crit_violations_le: "crit_violations as cs \<le> min (length as) (length cs)"
  using length_filter_le [of "\<lambda>p. \<not> crit_preserved_all p" "zip as cs"]
  by (simp add: crit_violations_def del: length_filter_le)

lemma crit_violations_0: "crit_violations as cs = 0 \<longleftrightarrow> (\<forall>p\<in>set (zip as cs). crit_preserved_all p)"
  by (auto simp: crit_violations_def filter_empty_conv)

lemma unknowns_kept_le: "unknowns_kept us \<le> length us"
  by (simp add: unknowns_kept_def)

lemma filter_length_all: "length (filter P xs) = length xs \<longleftrightarrow> (\<forall>x\<in>set xs. P x)"
  by (metis filter_True length_filter_less nat_neq_iff)

lemma unknowns_kept_all: "unknowns_kept us = length us \<longleftrightarrow> (\<forall>(c, u)\<in>set us. unknown_retained c u)"
  by (simp add: unknowns_kept_def filter_length_all)

lemma retained_all_if_one:
  assumes "1 \<le> fst (evaluate_unknown_retention as cs)" "length (unknown_pairs (zip as cs)) < 20000"
  shows "\<forall>(c, u)\<in>set (unknown_pairs (zip as cs)). unknown_retained c u"
proof (cases "unknown_pairs (zip as cs) = []")
  case False
  then have "as \<noteq> []" "cs \<noteq> []" by (auto simp: unknown_pairs_def)
  with False assms(1) have "\<not> unknowns_kept (unknown_pairs (zip as cs)) < length (unknown_pairs (zip as cs))"
    by (metis assms(2) not_less retention_eq round4_less_one)
  with unknowns_kept_le [of "unknown_pairs (zip as cs)"] show ?thesis
    using unknowns_kept_all by (metis le_neq_implies_less)
qed simp

lemma preserved_all_if_zero:
  assumes "set crit_order = set CRITICAL_SECURITY_FIELDS"
    and "fst (evaluate_critical_semantics crit_order as cs) \<le> 0" "min (length as) (length cs) \<le> 20000"
  shows "\<forall>p\<in>set (zip as cs). crit_preserved_all p"
proof (cases "as = [] \<or> cs = []")
  case False
  then have "crit_violations as cs = 0"
    using assms(2,3) round4_pos [OF _ assms(3) crit_violations_le] crit_rate_eq [OF assms(1)]
    by (metis gr0I not_less)
  then show ?thesis by (simp add: crit_violations_0)
qed auto

lemma measure_streams_metrics:
  "fst (measure_streams order as cs al cl) = \<lparr>
     sm_field_match_rate = fst (evaluate_field_congruence as cs),
     sm_critical_semantic_divergence = fst (evaluate_critical_semantics order as cs),
     sm_unknown_field_retention = fst (evaluate_unknown_retention as cs),
     sm_active_dps = py_round (calc_dps as) 4,
     sm_candidate_dps = py_round (calc_dps cs) 4,
     sm_dps_delta = py_round (fl (py_round (calc_dps cs) 4 - py_round (calc_dps as) 4)) 4,
     sm_active_latency_p95_ms = sm_active_latency_p95_ms (fst (measure_streams order as cs al cl)),
     sm_candidate_latency_p95_ms = sm_candidate_latency_p95_ms (fst (measure_streams order as cs al cl)),
     sm_latency_delta_pct = sm_latency_delta_pct (fst (measure_streams order as cs al cl))\<rparr>"
  by (simp add: measure_streams_def Let_def case_prod_unfold evaluate_dps_comparison_def)

lemma compare_streams_fields:
  fixes clock sid aid av cid cv as cs al cl isol st en ev order
  defines "r \<equiv> compare_streams order clock sid aid av cid cv as cs al cl isol st en ev"
  defines "m \<equiv> fst (measure_streams order as cs al cl)"
  shows "sc_metrics r = m"
    and "sc_shadow_state r = (if failure_flags isol m \<noteq> [] then SH_FAILED
           else if suspected_flags m \<noteq> [] then SH_SUSPECTED else SH_PASSED)"
    and "sc_recommendation r = (if failure_flags isol m \<noteq> [] then SH_REJECT
           else if suspected_flags m \<noteq> [] then REQUIRE_HUMAN_REVIEW else READY_FOR_PROMOTION)"
    and "sc_downstream_isolation_verified r = isol"
  by (simp_all add: r_def m_def compare_streams_def Let_def case_prod_unfold)

lemma failure_flags_Nil:
  "failure_flags isol m = [] \<longleftrightarrow> isol \<and> 0 \<le> sm_dps_delta m \<and> sm_critical_semantic_divergence m \<le> 0
     \<and> 1 \<le> sm_unknown_field_retention m \<and> fl (9 / 10) \<le> sm_field_match_rate m"
  by (auto simp: failure_flags_def not_less)

lemma suspected_flags_Nil:
  "suspected_flags m = [] \<longleftrightarrow>
     (sm_field_match_rate m < fl (9 / 10) \<or> fl (98 / 100) \<le> sm_field_match_rate m)
     \<and> \<not> (50 < sm_latency_delta_pct m
          \<and> 1 < fl (sm_candidate_latency_p95_ms m - sm_active_latency_p95_ms m))"
  by (auto simp: suspected_flags_def not_less Let_def)

text \<open>A stream compared with itself.\<close>

definition plain_stream :: "dict list \<Rightarrow> bool" where
  "plain_stream evs = list_all (\<lambda>ev. no_nan (PDict ev)) evs"

lemma zip_self: "zip xs xs = map (\<lambda>x. (x, x)) xs"
  by (induction xs) auto

lemma agrees_self:
  assumes "no_nan (PDict ev)" "p \<in> set (flatten_event ev)"
  shows "agrees (flatten_event ev) p"
proof -
  have "no_nan (snd p)" using flatten_event_no_nan [OF assms(1)] assms(2) by (auto simp: list_all_iff)
  moreover have "map_of (flatten_event ev) (fst p) = Some (snd p)"
    using assms(2) by (simp add: dict_ok_map_of [symmetric])
  ultimately show ?thesis by (simp add: agrees_def py_eq_refl)
qed

lemma fields_agreeing_self:
  assumes "plain_stream evs"
  shows "fields_agreeing (zip evs evs) = fields_compared (zip evs evs)"
proof -
  have "filter (agrees (flatten_event e)) (flatten_event e) = flatten_event e" if "e \<in> set evs" for e
    using that assms agrees_self by (auto simp: plain_stream_def list_all_iff intro!: filter_True)
  then show ?thesis
    by (auto simp: fields_agreeing_def fields_compared_def zip_self comp_def cong: map_cong)
qed

lemma crit_preserved_self:
  assumes "no_nan (PDict ev)"
  shows "crit_preserved ev ev f"
proof (cases "map_of (flatten_event ev) f")
  case (Some v)
  then have "no_nan v" using flatten_event_no_nan [OF assms]
    by (auto simp: list_all_iff dest: map_of_SomeD)
  with Some show ?thesis by (simp add: crit_preserved_def dict_get_def Let_def py_eq_refl)
qed (simp add: crit_preserved_def dict_get_def Let_def)

lemma crit_violations_self: "plain_stream evs \<Longrightarrow> crit_violations evs evs = 0"
  by (auto simp: crit_violations_0 zip_self crit_preserved_all_def list_all_iff plain_stream_def
      intro!: crit_preserved_self simp del: no_nan.simps)

lemma unknown_retained_self: "unknown_of ev = PDict d \<Longrightarrow> p \<in> set d \<Longrightarrow> unknown_retained ev p"
  by (auto simp: unknown_retained_def split: prod.split dest: weak_map_of_SomeI)

lemma unknowns_kept_self:
  "unknowns_kept (unknown_pairs (zip evs evs)) = length (unknown_pairs (zip evs evs))"
  unfolding unknowns_kept_all
  by (auto simp: unknown_pairs_def zip_self unknown_retained_self [OF sym] split: pyval.splits)

lemma calc_dps_unit: "0 \<le> calc_dps evs \<and> calc_dps evs \<le> 1"
proof -
  have "length (filter (\<lambda>e. security_event e \<and> attributed e) evs) \<le> length (filter security_event evs)"
    by (induction evs) auto
  then show ?thesis using ieee.ratio_unit by (simp add: calc_dps_eq Let_def)
qed

section \<open>Properties\<close>

text \<open>
  C4. A passed shadow run is sound: if the comparator reports PASSED on a window of at most
  20000 event pairs with fewer than 20000 unknown fields, then the candidate was isolated, every
  critical field present in an active event has the same meaning in the candidate's event, every
  unknown field of an active event is retained, and promotion is recommended.
\<close>

theorem shadow_pass_sound:
  assumes "set crit_order = set CRITICAL_SECURITY_FIELDS"
    and "sc_shadow_state (compare_streams crit_order clock sid aid av cid cv as cs al cl isol st en ev) = SH_PASSED"
    and "min (length as) (length cs) \<le> 20000" and "length (unknown_pairs (zip as cs)) < 20000"
  shows "isol
    \<and> (\<forall>(a, c)\<in>set (zip as cs). \<forall>f\<in>set CRITICAL_SECURITY_FIELDS. crit_preserved a c f)
    \<and> (\<forall>(c, u)\<in>set (unknown_pairs (zip as cs)). unknown_retained c u)
    \<and> sc_recommendation (compare_streams crit_order clock sid aid av cid cv as cs al cl isol st en ev)
        = READY_FOR_PROMOTION"
proof -
  let ?m = "fst (measure_streams crit_order as cs al cl)"
  have ok: "failure_flags isol ?m = []" "suspected_flags ?m = []"
    using assms(2) by (auto simp: compare_streams_fields split: if_splits)
  from ok(1) have "isol" "sm_critical_semantic_divergence ?m \<le> 0" "1 \<le> sm_unknown_field_retention ?m"
    by (simp_all add: failure_flags_Nil)
  then have i: isol and c: "fst (evaluate_critical_semantics crit_order as cs) \<le> 0"
    and u: "1 \<le> fst (evaluate_unknown_retention as cs)"
    using measure_streams_metrics [of crit_order as cs al cl] by (metis ShadowMetrics.select_convs(2,3))+
  have "\<forall>p\<in>set (zip as cs). crit_preserved_all p"
    by (rule preserved_all_if_zero [OF assms(1) c assms(3)])
  moreover have "\<forall>(c, u)\<in>set (unknown_pairs (zip as cs)). unknown_retained c u"
    by (rule retained_all_if_one [OF u assms(4)])
  ultimately show ?thesis
    using i ok by (fastforce simp: crit_preserved_all_def list_all_iff compare_streams_fields)
qed

text \<open>
  C15. Zero tolerance up to rounding: the reported critical divergence is 0 when no event pair
  diverges and positive when one does in a window of at most 20000 pairs; but it is 0 as well
  whenever the window holds more than 20000 pairs per diverging one, since it is rounded to four
  decimals before it is compared with 0.
\<close>

theorem critical_divergence_resolution:
  assumes "set crit_order = set CRITICAL_SECURITY_FIELDS"
  shows "(crit_violations as cs = 0 \<longrightarrow> fst (evaluate_critical_semantics crit_order as cs) = 0)
    \<and> (0 < crit_violations as cs \<and> min (length as) (length cs) \<le> 20000 \<longrightarrow>
         0 < fst (evaluate_critical_semantics crit_order as cs))
    \<and> (20001 * crit_violations as cs \<le> min (length as) (length cs) \<longrightarrow>
         fst (evaluate_critical_semantics crit_order as cs) = 0)"
proof (cases "as = [] \<or> cs = []")
  case True
  then have "crit_violations as cs = 0" by (auto simp: crit_violations_def)
  with True show ?thesis by (simp add: crit_rate_eq [OF assms])
next
  case False
  then have n: "0 < min (length as) (length cs)" by simp
  from False show ?thesis
    using round4_zero [OF _ n] round4_pos [OF _ _ crit_violations_le]
    by (simp add: crit_rate_eq [OF assms])
qed

text \<open>
  Every rate the comparator reports lies in the unit interval, and the change of the
  detection score between -1 and 1.
\<close>

theorem shadow_metrics_bounded:
  assumes "set crit_order = set CRITICAL_SECURITY_FIELDS"
    and "m = sc_metrics (compare_streams crit_order clock sid aid av cid cv as cs al cl isol st en ev)"
  shows "(\<forall>x\<in>{sm_field_match_rate m, sm_critical_semantic_divergence m, sm_unknown_field_retention m,
             sm_active_dps m, sm_candidate_dps m}. 0 \<le> x \<and> x \<le> 1) \<and> \<bar>sm_dps_delta m\<bar> \<le> 1"
proof -
  have m: "m = fst (measure_streams crit_order as cs al cl)"
    using assms(2) by (simp add: compare_streams_fields)
  note eqs = measure_streams_metrics [of crit_order as cs al cl, folded m]
  have dps: "0 \<le> py_round (calc_dps evs) 4 \<and> py_round (calc_dps evs) 4 \<le> 1" for evs
    using calc_dps_unit round4.unit_interval by blast
  have "0 \<le> fst (evaluate_field_congruence as cs) \<and> fst (evaluate_field_congruence as cs) \<le> 1"
    using ratio4_unit [OF fields_agreeing_le] by (simp add: match_rate_eq)
  moreover have "0 \<le> fst (evaluate_critical_semantics crit_order as cs)
      \<and> fst (evaluate_critical_semantics crit_order as cs) \<le> 1"
    using ratio4_unit [OF crit_violations_le] by (simp add: crit_rate_eq [OF assms(1)])
  moreover have "0 \<le> fst (evaluate_unknown_retention as cs) \<and> fst (evaluate_unknown_retention as cs) \<le> 1"
    using ratio4_unit [OF unknowns_kept_le] by (simp add: retention_eq)
  ultimately have "\<forall>x\<in>{sm_field_match_rate m, sm_critical_semantic_divergence m,
      sm_unknown_field_retention m, sm_active_dps m, sm_candidate_dps m}. 0 \<le> x \<and> x \<le> 1"
    using dps by (subst (1 2 3 4 5) eqs) simp
  moreover have "\<bar>py_round (calc_dps cs) 4 - py_round (calc_dps as) 4\<bar> \<le> 1" using dps [of as] dps [of cs] by linarith
  then have "\<bar>py_round (fl (py_round (calc_dps cs) 4 - py_round (calc_dps as) 4)) 4\<bar> \<le> 1"
    by (intro round4.abs_le_one ieee.abs_le_one)
  then have "\<bar>sm_dps_delta m\<bar> \<le> 1" by (subst eqs) simp
  ultimately show ?thesis ..
qed

text \<open>
  A candidate that reproduces the active parser's output passes: on identical event streams
  without NaN and equal latencies, with isolation verified, the field match rate and the
  retention are 1, the critical divergence and the change of the detection score are 0, and the
  verdict is PASSED.
\<close>

theorem identical_streams_pass:
  assumes "set crit_order = set CRITICAL_SECURITY_FIELDS" and "plain_stream evs"
    and "r = compare_streams crit_order clock sid aid av cid cv evs evs lat lat True st en ev"
  shows "sm_field_match_rate (sc_metrics r) = 1
    \<and> sm_critical_semantic_divergence (sc_metrics r) = 0
    \<and> sm_unknown_field_retention (sc_metrics r) = 1
    \<and> sm_dps_delta (sc_metrics r) = 0
    \<and> sc_shadow_state r = SH_PASSED \<and> sc_recommendation r = READY_FOR_PROMOTION"
proof -
  let ?m = "fst (measure_streams crit_order evs evs lat lat)"
  have match: "fst (evaluate_field_congruence evs evs) = 1"
    using fields_agreeing_self [OF assms(2)] by (simp add: match_rate_eq)
  have crit: "fst (evaluate_critical_semantics crit_order evs evs) = 0"
    using crit_violations_self [OF assms(2)] by (simp add: crit_rate_eq [OF assms(1)])
  have ret: "fst (evaluate_unknown_retention evs evs) = 1"
    by (simp add: retention_eq unknowns_kept_self)
  note eqs = measure_streams_metrics [of crit_order evs evs lat lat]
  have m: "sm_field_match_rate ?m = 1" "sm_critical_semantic_divergence ?m = 0"
    "sm_unknown_field_retention ?m = 1" "sm_dps_delta ?m = 0"
    by (subst eqs, simp add: match crit ret)+
  have "sm_latency_delta_pct ?m = 0"
    by (simp add: measure_streams_def Let_def case_prod_unfold evaluate_latencies_def)
  then have "failure_flags True ?m = []" "suspected_flags ?m = []"
    using m by (simp_all add: failure_flags_Nil suspected_flags_Nil float_bounds)
  with m show ?thesis by (simp add: assms(3) compare_streams_fields)
qed

text \<open>
  The detection score is relative to the stream's own security events: it is the share of
  them that name an endpoint. A candidate that no longer produces any security event, because it
  lost every blocking action, therefore scores 1 and never counts as a regression.
\<close>

theorem dps_blind_to_lost_actions:
  assumes "list_all (\<lambda>ev. \<not> security_event ev) candidate"
  shows "sm_candidate_dps (fst (measure_streams order active candidate al cl)) = 1
    \<and> 0 \<le> sm_dps_delta (fst (measure_streams order active candidate al cl))"
proof -
  have "filter security_event candidate = []" using assms by (simp add: list_all_iff filter_empty_conv)
  then have c: "calc_dps candidate = 1" by (simp add: calc_dps_eq)
  have "py_round (calc_dps active) 4 \<le> 1" using calc_dps_unit round4.le_one by blast
  with c show ?thesis
    by (subst (1 2) measure_streams_metrics) (simp add: round4.nonneg ieee.nonneg)
qed

section \<open>Witnesses\<close>

definition sample_event :: dict where
  "sample_event = [(''src.ip'', PStr ''10.0.0.1''), (''event'', PDict [(''action'', PStr ''deny'')]),
     (''unknown_fields'', PDict [(''x'', PInt 1)])]"

definition sample_report :: "dict list \<Rightarrow> dict list \<Rightarrow> ShadowComparisonReport" where
  "sample_report as cs = compare_streams CRITICAL_SECURITY_FIELDS \<lparr>dt_wall = 0, dt_offset = Some 0\<rparr>
     ''s'' (PStr ''a'') (PStr ''1'') (PStr ''c'') (PStr ''2'') as cs None None True None None None"

lemma sample_plain: "plain_stream [sample_event]"
  by (simp add: plain_stream_def sample_event_def dict_ok_def)

theorem identical_streams_pass_witness:
  "sc_shadow_state (sample_report [sample_event] [sample_event]) = SH_PASSED"
  using identical_streams_pass [OF refl sample_plain refl] by (simp add: sample_report_def)

theorem shadow_pass_sound_witness:
  "sc_shadow_state (sample_report [sample_event] [sample_event]) = SH_PASSED
   \<and> crit_preserved sample_event sample_event ''src.ip''"
proof -
  have s: "sc_shadow_state (sample_report [sample_event] [sample_event]) = SH_PASSED" by code_simp
  have u: "length (unknown_pairs (zip [sample_event] [sample_event])) < 20000" by code_simp
  have "''src.ip'' \<in> set CRITICAL_SECURITY_FIELDS" by (simp add: CRITICAL_SECURITY_FIELDS_def)
  with s shadow_pass_sound [OF refl s [unfolded sample_report_def] _ u] show ?thesis by simp
qed

theorem critical_divergence_resolution_witness:
  "0 < fst (evaluate_critical_semantics CRITICAL_SECURITY_FIELDS [sample_event] [[]])
   \<and> fst (evaluate_critical_semantics CRITICAL_SECURITY_FIELDS [sample_event] [sample_event]) = 0"
proof -
  have "crit_violations [sample_event] [[]] = 1" "crit_violations [sample_event] [sample_event] = 0"
    by code_simp+
  then show ?thesis
    using critical_divergence_resolution [OF refl, of "[sample_event]" "[[]]"]
      critical_divergence_resolution [OF refl, of "[sample_event]" "[sample_event]"] by simp
qed

theorem shadow_metrics_bounded_witness:
  "\<bar>sm_dps_delta (sc_metrics (sample_report [sample_event] [[]]))\<bar> \<le> 1"
  using shadow_metrics_bounded [OF refl refl] unfolding sample_report_def by blast

theorem dps_blind_to_lost_actions_witness:
  "security_event sample_event
   \<and> sm_candidate_dps (fst (measure_streams [] [sample_event] [[]] None None)) = 1"
proof -
  have "security_event sample_event" "list_all (\<lambda>ev. \<not> security_event ev) [[]]" by code_simp+
  then show ?thesis using dps_blind_to_lost_actions by blast
qed

end
