(* ===== verification/ProfileTypes.thy ===== *)
theory ProfileTypes
  imports PyFloat
begin

text \<open>
  The data classes of the source profiler, \<open>ml/source_profiler/profiler.py\<close>, which the drift
  detectors, the mapper and the validator read as well. The entries of the \<open>metadata\<close>
  dictionary are two fields; an absent entry is empty.
\<close>

datatype LogFormat =
    LF_JSON | LF_CEF | LF_LEEF | LF_SYSLOG_RFC5424 | LF_SYSLOG_RFC3164 | LF_KEY_VALUE | LF_CSV
  | LF_TEXT | LF_UNKNOWN

fun LogFormat_value :: "LogFormat \<Rightarrow> string" where
  "LogFormat_value LF_JSON = ''JSON''"
| "LogFormat_value LF_CEF = ''CEF''"
| "LogFormat_value LF_LEEF = ''LEEF''"
| "LogFormat_value LF_SYSLOG_RFC5424 = ''SYSLOG_RFC5424''"
| "LogFormat_value LF_SYSLOG_RFC3164 = ''SYSLOG_RFC3164''"
| "LogFormat_value LF_KEY_VALUE = ''KEY_VALUE''"
| "LogFormat_value LF_CSV = ''CSV''"
| "LogFormat_value LF_TEXT = ''TEXT''"
| "LogFormat_value LF_UNKNOWN = ''UNKNOWN''"

datatype DataType =
    DT_INTEGER | DT_FLOAT | DT_BOOLEAN | DT_IPV4 | DT_IPV6 | DT_MAC_ADDRESS | DT_TIMESTAMP
  | DT_EMAIL | DT_URL | DT_UUID | DT_JSON | DT_ARRAY | DT_STRING | DT_NULL

fun DataType_value :: "DataType \<Rightarrow> string" where
  "DataType_value DT_INTEGER = ''integer''"
| "DataType_value DT_FLOAT = ''float''"
| "DataType_value DT_BOOLEAN = ''boolean''"
| "DataType_value DT_IPV4 = ''ipv4''"
| "DataType_value DT_IPV6 = ''ipv6''"
| "DataType_value DT_MAC_ADDRESS = ''mac_address''"
| "DataType_value DT_TIMESTAMP = ''timestamp''"
| "DataType_value DT_EMAIL = ''email''"
| "DataType_value DT_URL = ''url''"
| "DataType_value DT_UUID = ''uuid''"
| "DataType_value DT_JSON = ''json''"
| "DataType_value DT_ARRAY = ''array''"
| "DataType_value DT_STRING = ''string''"
| "DataType_value DT_NULL = ''null''"

record FieldProfile =
  fp_name :: string
  fp_inferred_type :: string
  fp_type_distribution :: "(string \<times> nat) list"
  fp_nullable :: bool
  fp_null_count :: int
  fp_total_count :: nat
  fp_distinct_count :: nat
  fp_sample_values :: "pyval list"
  fp_min_value :: pyval
  fp_max_value :: pyval
  fp_avg_length :: "rat option"
  fp_is_ip_candidate :: bool
  fp_is_timestamp_candidate :: bool
  fp_is_enum_candidate :: bool
  fp_enum_values :: "string list option"
  fp_presence_ratio :: rat

record TemplateProfile =
  tp_template_id :: string
  tp_template_pattern :: string
  tp_count :: nat
  tp_sample_message :: string
  tp_variable_count :: nat
  tp_frequency_ratio :: rat

record SourceProfile =
  sp_format :: LogFormat
  sp_confidence :: rat
  sp_total_records :: nat
  sp_valid_records :: nat
  sp_corrupted_records :: nat
  sp_fields :: "(string \<times> FieldProfile) list"
  sp_templates :: "TemplateProfile list"
  sp_delimiter :: "string option"
  sp_format_distribution :: "(string \<times> nat) list"
  sp_sample_events :: "dict list"

lemma DataType_value_inject: "DataType_value a = DataType_value b \<longleftrightarrow> a = b"
  by (cases a; cases b) simp_all

lemma LogFormat_value_inject: "LogFormat_value a = LogFormat_value b \<longleftrightarrow> a = b"
  by (cases a; cases b) simp_all

end
