(* ===== verification/Structural.thy ===== *)
theory Structural
  imports ProfileTypes PyTime
begin

text \<open>
  The structural drift detector, \<open>ml/drift/structural.py\<close>. The sets of field names are lists
  without repetition; \<open>enum xs\<close> is the order in which Python iterates over the set of the
  elements of \<open>xs\<close>, which is only known to enumerate it. Detail lines are values that carry what
  the source formats.
\<close>

section \<open>Data\<close>

datatype DriftState = STABLE | SUSPECTED | DRIFTED

record DriftThresholds =
  dt_parse_failure_rate :: rat
  dt_unknown_field_ratio :: rat
  dt_type_violation_rate :: rat
  dt_key_set_distance :: rat
  dt_distribution_divergence :: rat
  dt_dps_regression :: "rat option"
  dt_enum_drift_score :: "rat option"
  dt_critical_mapping_drift :: "rat option"
  dt_event_family_drift :: "rat option"

definition default_thresholds :: DriftThresholds where
  "default_thresholds = \<lparr>dt_parse_failure_rate = fl (2 / 100), dt_unknown_field_ratio = fl (5 / 100),
     dt_type_violation_rate = fl (5 / 1000), dt_key_set_distance = fl (15 / 100),
     dt_distribution_divergence = fl (20 / 100), dt_dps_regression = None,
     dt_enum_drift_score = None, dt_critical_mapping_drift = None, dt_event_family_drift = None\<rparr>"

record DriftSignals =
  ds_parse_failure_rate :: rat
  ds_unknown_field_ratio :: rat
  ds_type_violation_rate :: rat
  ds_key_set_distance :: rat
  ds_distribution_divergence :: rat
  ds_dps_regression :: "rat option"
  ds_enum_drift_score :: "rat option"
  ds_critical_mapping_drift :: "rat option"
  ds_event_family_drift :: "rat option"

datatype drift_detail =
    Parse_failures rat rat
  | Key_set_changed rat rat "string list" "string list"
  | Unknown_fields rat rat
  | Type_violations rat rat "(string \<times> string \<times> string) list"
  | Format_divergence rat rat
  | Within_bounds
  | Mapping_dropped string string
  | Mapping_changed string string string
  | Enum_inverted string pyval pyval
  | Enum_unmapped rat
  | Family_divergence rat string string
  | Dps_dropped rat rat rat
  | Within_semantic_bounds

record DriftReport =
  dr_source :: string
  dr_parser_id :: string
  dr_parser_version :: string
  dr_drift_state :: DriftState
  dr_observed_at :: datetime
  dr_start_time :: datetime
  dr_end_time :: datetime
  dr_sample_count :: nat
  dr_signals :: DriftSignals
  dr_thresholds :: DriftThresholds
  dr_drift_details :: "drift_detail list"
  dr_remediation_recommended :: bool
  dr_baseline_run_id :: "string option"

section \<open>Serialisation\<close>

text \<open>\<open>to_dict\<close> of the thresholds and of the signals: optional entries only when present.\<close>

definition opt_entry :: "string \<Rightarrow> rat option \<Rightarrow> (string \<times> rat) list" where
  "opt_entry k x = (case x of None \<Rightarrow> [] | Some v \<Rightarrow> [(k, v)])"

definition thresholds_to_dict :: "DriftThresholds \<Rightarrow> (string \<times> rat) list" where
  "thresholds_to_dict t =
     [(''parse_failure_rate'', dt_parse_failure_rate t), (''unknown_field_ratio'', dt_unknown_field_ratio t),
      (''type_violation_rate'', dt_type_violation_rate t), (''key_set_distance'', dt_key_set_distance t),
      (''distribution_divergence'', dt_distribution_divergence t)]
     @ opt_entry ''dps_regression'' (dt_dps_regression t)
     @ opt_entry ''enum_drift_score'' (dt_enum_drift_score t)
     @ opt_entry ''critical_mapping_drift'' (dt_critical_mapping_drift t)
     @ opt_entry ''event_family_drift'' (dt_event_family_drift t)"

definition signals_to_dict :: "DriftSignals \<Rightarrow> (string \<times> rat) list" where
  "signals_to_dict s =
     (let r = (\<lambda>x. py_round x 4) in
     [(''parse_failure_rate'', r (ds_parse_failure_rate s)),
      (''unknown_field_ratio'', r (ds_unknown_field_ratio s)),
      (''type_violation_rate'', r (ds_type_violation_rate s)),
      (''key_set_distance'', r (ds_key_set_distance s)),
      (''distribution_divergence'', r (ds_distribution_divergence s))]
     @ opt_entry ''dps_regression'' (map_option r (ds_dps_regression s))
     @ opt_entry ''enum_drift_score'' (map_option r (ds_enum_drift_score s))
     @ opt_entry ''critical_mapping_drift'' (map_option r (ds_critical_mapping_drift s))
     @ opt_entry ''event_family_drift'' (map_option r (ds_event_family_drift s)))"

section \<open>Signals\<close>

definition keys_union :: "string list \<Rightarrow> string list \<Rightarrow> string list" where
  "keys_union a b = a @ filter (\<lambda>k. k \<notin> set a) b"

definition keys_inter :: "string list \<Rightarrow> string list \<Rightarrow> string list" where
  "keys_inter a b = filter (\<lambda>k. k \<in> set b) a"

definition keys_minus :: "string list \<Rightarrow> string list \<Rightarrow> string list" where
  "keys_minus a b = filter (\<lambda>k. k \<notin> set b) a"

definition parse_failures :: "SourceProfile \<Rightarrow> rat" where
  "parse_failures current =
     fl (of_nat (sp_corrupted_records current) / of_nat (max 1 (sp_total_records current)))"

definition jaccard_distance :: "string list \<Rightarrow> string list \<Rightarrow> rat" where
  "jaccard_distance base_keys curr_keys =
     (let union_keys = keys_union base_keys curr_keys; inter_keys = keys_inter base_keys curr_keys
      in if union_keys \<noteq> [] then fl (1 - fl (of_nat (length inter_keys) / of_nat (length union_keys)))
         else 0)"

definition unknown_ratio :: "string list \<Rightarrow> string list \<Rightarrow> rat" where
  "unknown_ratio base_keys curr_keys =
     (if curr_keys \<noteq> []
      then fl (of_nat (length (keys_minus curr_keys base_keys)) / of_nat (length curr_keys)) else 0)"

definition type_of_field :: "SourceProfile \<Rightarrow> string \<Rightarrow> string" where
  "type_of_field p k = (case map_of (sp_fields p) k of None \<Rightarrow> [] | Some f \<Rightarrow> fp_inferred_type f)"

definition type_mutations ::
    "SourceProfile \<Rightarrow> SourceProfile \<Rightarrow> string list \<Rightarrow> (string \<times> string \<times> string) list" where
  "type_mutations baseline current inter_keys =
     concat (map (\<lambda>k. let base_type = type_of_field baseline k; curr_type = type_of_field current k
       in if base_type \<noteq> curr_type \<and> base_type \<noteq> ''null'' \<and> curr_type \<noteq> ''null''
          then [(k, base_type, curr_type)] else []) inter_keys)"

definition type_violation_ratio ::
    "SourceProfile \<Rightarrow> SourceProfile \<Rightarrow> string list \<Rightarrow> rat" where
  "type_violation_ratio baseline current inter_keys =
     (if inter_keys \<noteq> []
      then fl (of_nat (length (type_mutations baseline current inter_keys)) / of_nat (length inter_keys))
      else 0)"

definition tvd_over :: "string list \<Rightarrow> (string \<times> rat) list \<Rightarrow> (string \<times> rat) list \<Rightarrow> rat" where
  "tvd_over all_keys p_a p_b = min 1 (max 0
     (fl (1 / 2 * py_fsum (map (\<lambda>k. \<bar>fl (dict_get p_a k 0 - dict_get p_b k 0)\<bar>) all_keys))))"

definition distribution_divergence ::
    "(string list \<Rightarrow> string list) \<Rightarrow> (string \<times> nat) list \<Rightarrow> (string \<times> nat) list \<Rightarrow> rat" where
  "distribution_divergence enum dist_a dist_b =
     (let sum_a = sum_list (map snd dist_a); sum_b = sum_list (map snd dist_b)
      in if sum_a = 0 \<or> sum_b = 0 then 0
         else
           let p_a = map (\<lambda>(k, v). (k, fl (of_nat v / of_nat sum_a))) dist_a;
               p_b = map (\<lambda>(k, v). (k, fl (of_nat v / of_nat sum_b))) dist_b;
               all_keys = enum (keys_union (map fst p_a) (map fst p_b))
           in tvd_over all_keys p_a p_b)"

section \<open>Comparison of profiles\<close>

definition profile_signals ::
    "(string list \<Rightarrow> string list) \<Rightarrow> SourceProfile \<Rightarrow> SourceProfile \<Rightarrow> DriftSignals" where
  "profile_signals enum baseline current =
     (let base_keys = map fst (sp_fields baseline); curr_keys = map fst (sp_fields current)
      in \<lparr>ds_parse_failure_rate = parse_failures current,
          ds_unknown_field_ratio = unknown_ratio base_keys curr_keys,
          ds_type_violation_rate =
            type_violation_ratio baseline current (enum (keys_inter base_keys curr_keys)),
          ds_key_set_distance = jaccard_distance base_keys curr_keys,
          ds_distribution_divergence = distribution_divergence enum
            (sp_format_distribution baseline) (sp_format_distribution current),
          ds_dps_regression = None, ds_enum_drift_score = None,
          ds_critical_mapping_drift = None, ds_event_family_drift = None\<rparr>)"

definition profile_details ::
    "(string list \<Rightarrow> string list) \<Rightarrow> DriftThresholds \<Rightarrow> SourceProfile \<Rightarrow> SourceProfile \<Rightarrow> drift_detail list" where
  "profile_details enum t baseline current =
     (let s = profile_signals enum baseline current;
          base_keys = map fst (sp_fields baseline); curr_keys = map fst (sp_fields current);
          inter_keys = enum (keys_inter base_keys curr_keys)
      in (if ds_parse_failure_rate s > dt_parse_failure_rate t
          then [Parse_failures (ds_parse_failure_rate s) (dt_parse_failure_rate t)] else [])
         @ (if ds_key_set_distance s > dt_key_set_distance t
            then [Key_set_changed (ds_key_set_distance s) (dt_key_set_distance t)
                   (take 5 (sort (keys_minus curr_keys base_keys)))
                   (take 5 (sort (keys_minus base_keys curr_keys)))] else [])
         @ (if ds_unknown_field_ratio s > dt_unknown_field_ratio t
            then [Unknown_fields (ds_unknown_field_ratio s) (dt_unknown_field_ratio t)] else [])
         @ (if ds_type_violation_rate s > dt_type_violation_rate t
            then [Type_violations (ds_type_violation_rate s) (dt_type_violation_rate t)
                   (take 5 (type_mutations baseline current inter_keys))] else [])
         @ (if ds_distribution_divergence s > dt_distribution_divergence t
            then [Format_divergence (ds_distribution_divergence s) (dt_distribution_divergence t)] else []))"

definition profile_state :: "DriftThresholds \<Rightarrow> DriftSignals \<Rightarrow> DriftState" where
  "profile_state t s =
     (if ds_type_violation_rate s > dt_type_violation_rate t
         \<or> ds_parse_failure_rate s > dt_parse_failure_rate t
         \<or> ds_key_set_distance s > dt_key_set_distance t then DRIFTED
      else if ds_unknown_field_ratio s > dt_unknown_field_ratio t
         \<or> ds_distribution_divergence s > dt_distribution_divergence t then SUSPECTED
      else STABLE)"

definition compare_profiles ::
    "(string list \<Rightarrow> string list) \<Rightarrow> datetime \<Rightarrow> DriftThresholds \<Rightarrow> SourceProfile \<Rightarrow> SourceProfile
     \<Rightarrow> string \<Rightarrow> string \<Rightarrow> string \<Rightarrow> string option \<Rightarrow> datetime option \<Rightarrow> DriftReport" where
  "compare_profiles enum clock t baseline current source_id parser_id parser_version
     baseline_run_id observed_at =
     (let now = (case observed_at of None \<Rightarrow> clock | Some d \<Rightarrow> d);
          s = profile_signals enum baseline current;
          details = profile_details enum t baseline current;
          state = profile_state t s
      in \<lparr>dr_source = source_id, dr_parser_id = parser_id, dr_parser_version = parser_version,
          dr_drift_state = state, dr_observed_at = now, dr_start_time = now, dr_end_time = now,
          dr_sample_count = sp_total_records current, dr_signals = s, dr_thresholds = t,
          dr_drift_details = (if state = STABLE \<and> details = [] then [Within_bounds] else details),
          dr_remediation_recommended = (state \<noteq> STABLE), dr_baseline_run_id = baseline_run_id\<rparr>)"

text \<open>\<open>detect_from_logs\<close>, over the profiler it is given, which may raise.\<close>

definition detect_from_logs ::
    "('logs \<Rightarrow> SourceProfile result) \<Rightarrow> (string list \<Rightarrow> string list) \<Rightarrow> datetime \<Rightarrow> DriftThresholds
     \<Rightarrow> SourceProfile \<Rightarrow> 'logs \<Rightarrow> string \<Rightarrow> string \<Rightarrow> string \<Rightarrow> string option \<Rightarrow> datetime option
     \<Rightarrow> DriftReport result" where
  "detect_from_logs profile enum clock t baseline current_logs source_id parser_id parser_version
     baseline_run_id observed_at =
     res_bind (profile current_logs) (\<lambda>current.
       Inr (compare_profiles enum clock t baseline current source_id parser_id
              parser_version baseline_run_id observed_at))"

section \<open>Lemmas\<close>

text \<open>What is known of the iteration order of a set.\<close>

definition enumerates :: "(string list \<Rightarrow> string list) \<Rightarrow> bool" where
  "enumerates enum \<longleftrightarrow> (\<forall>xs. distinct xs \<longrightarrow> distinct (enum xs) \<and> set (enum xs) = set xs)"

lemma enumerates_id: "enumerates (\<lambda>xs. xs)"
  by (simp add: enumerates_def)

lemma length_union_inter:
  assumes "distinct a" "distinct b"
  shows "length (keys_union a b) = card (set a \<union> set b)" "length (keys_inter a b) = card (set a \<inter> set b)"
proof -
  have "distinct (keys_union a b)" "set (keys_union a b) = set a \<union> set b"
    using assms by (auto simp: keys_union_def)
  then show "length (keys_union a b) = card (set a \<union> set b)" by (metis distinct_card)
  have "distinct (keys_inter a b)" "set (keys_inter a b) = set a \<inter> set b"
    using assms by (auto simp: keys_inter_def)
  then show "length (keys_inter a b) = card (set a \<inter> set b)" by (metis distinct_card)
qed

lemma jaccard_card:
  assumes "distinct a" "distinct b"
  shows "jaccard_distance a b = (if set a \<union> set b = {} then 0
    else fl (1 - fl (of_nat (card (set a \<inter> set b)) / of_nat (card (set a \<union> set b)))))"
proof -
  have "set (keys_union a b) = set a \<union> set b" by (auto simp: keys_union_def)
  then have "keys_union a b \<noteq> [] \<longleftrightarrow> set a \<union> set b \<noteq> {}" by (metis set_empty)
  then show ?thesis by (simp add: jaccard_distance_def Let_def length_union_inter [OF assms])
qed

lemma fl_one_minus_unit: "0 \<le> x \<Longrightarrow> x \<le> 1 \<Longrightarrow> 0 \<le> fl (1 - x) \<and> fl (1 - x) \<le> 1"
  by (simp add: float_bounds)

lemma jaccard_positive:
  assumes "distinct a" "distinct b" "set a \<noteq> set b" "card (set a \<union> set b) \<le> 2 ^ 53"
  shows "0 < jaccard_distance a b"
proof -
  have "set a \<inter> set b \<subset> set a \<union> set b" using assms(3) by auto
  then have "card (set a \<inter> set b) < card (set a \<union> set b)" by (simp add: psubset_card_mono)
  from fl_ratio_gap [OF this assms(4)]
  have "1 / 9007199254740992 \<le> 1 - fl (of_nat (card (set a \<inter> set b)) / of_nat (card (set a \<union> set b)))"
    by (simp add: field_simps)
  then have "fl (1 / 9007199254740992)
      \<le> fl (1 - fl (of_nat (card (set a \<inter> set b)) / of_nat (card (set a \<union> set b))))"
    by (rule fl_mono)
  moreover have "0 < fl (1 / 9007199254740992)" by code_simp
  moreover have "set a \<union> set b \<noteq> {}" using assms(3) by auto
  ultimately show ?thesis by (simp add: jaccard_card [OF assms(1,2)])
qed

lemma jaccard_self: "set a = set b \<Longrightarrow> distinct a \<Longrightarrow> distinct b \<Longrightarrow> jaccard_distance a b = 0"
  by (simp add: jaccard_card)

lemma jaccard_unit: "distinct a \<Longrightarrow> distinct b \<Longrightarrow> 0 \<le> jaccard_distance a b \<and> jaccard_distance a b \<le> 1"
proof -
  assume d: "distinct a" "distinct b"
  have "card (set a \<inter> set b) \<le> card (set a \<union> set b)" by (rule card_mono) auto
  from ieee.ratio_unit [OF this] show ?thesis by (simp add: jaccard_card [OF d] fl_one_minus_unit)
qed

lemma type_mutations_le: "length (type_mutations b c ks) \<le> length ks"
  by (induction ks) (auto simp: type_mutations_def Let_def)

lemma type_mutations_self: "type_mutations p p ks = []"
  by (simp add: type_mutations_def Let_def)

lemma abs_fl_diff: "\<bar>fl (x - y)\<bar> = \<bar>fl (y - x)\<bar>"
  using fl_uminus [of "x - y"] by (metis abs_minus_cancel minus_diff_eq)

lemma tvd_over_sym: "tvd_over ks a b = tvd_over ks b a"
proof -
  have "(\<lambda>k. \<bar>fl (dict_get a k 0 - dict_get b k 0)\<bar>) = (\<lambda>k. \<bar>fl (dict_get b k 0 - dict_get a k 0)\<bar>)"
    by (rule ext) (rule abs_fl_diff)
  then show ?thesis by (simp add: tvd_over_def)
qed

lemma tvd_over_self: "tvd_over ks a a = 0"
  by (simp add: tvd_over_def py_fsum_zeros)

lemma tvd_over_unit: "0 \<le> tvd_over ks a b \<and> tvd_over ks a b \<le> 1"
  by (simp add: tvd_over_def)

lemma divergence_unit: "0 \<le> distribution_divergence enum a b \<and> distribution_divergence enum a b \<le> 1"
  by (simp add: distribution_divergence_def Let_def tvd_over_unit)

lemma divergence_self: "distribution_divergence enum a a = 0"
  by (simp add: distribution_divergence_def Let_def tvd_over_self)

text \<open>Two spellings of the same set are iterated in the same order.\<close>

lemma divergence_sym:
  assumes "\<And>xs ys. distinct xs \<Longrightarrow> distinct ys \<Longrightarrow> set xs = set ys \<Longrightarrow> enum xs = enum ys"
    and "distinct (map fst a)" "distinct (map fst b)"
  shows "distribution_divergence enum a b = distribution_divergence enum b a"
proof -
  have f: "map fst (map (\<lambda>(k, v). (k, g v)) d) = map fst d" for g :: "nat \<Rightarrow> rat" and d :: "(string \<times> nat) list"
    by (induction d) auto
  have e: "enum (keys_union (map fst a) (map fst b)) = enum (keys_union (map fst b) (map fst a))"
    by (rule assms(1)) (use assms(2,3) in \<open>auto simp: keys_union_def\<close>)
  show ?thesis
    unfolding distribution_divergence_def Let_def f e by (subst tvd_over_sym) simp
qed

definition signals_unit :: "DriftSignals \<Rightarrow> bool" where
  "signals_unit s \<longleftrightarrow> (\<forall>x\<in>{ds_parse_failure_rate s, ds_unknown_field_ratio s, ds_type_violation_rate s,
     ds_key_set_distance s, ds_distribution_divergence s}. 0 \<le> x \<and> x \<le> 1)"

lemma profile_signals_unit:
  assumes "dict_ok (sp_fields baseline)" "dict_ok (sp_fields current)"
    and "sp_corrupted_records current \<le> sp_total_records current"
  shows "signals_unit (profile_signals enum baseline current)"
proof -
  have d: "distinct (map fst (sp_fields baseline))" "distinct (map fst (sp_fields current))"
    using assms(1,2) by (simp_all add: dict_ok_def)
  show ?thesis
    using ieee.ratio_unit [of "sp_corrupted_records current" "max 1 (sp_total_records current)"]
      ieee.ratio_unit [OF length_filter_le] ieee.ratio_unit [OF type_mutations_le]
      jaccard_unit [OF d] divergence_unit assms(3)
    by (auto simp: signals_unit_def profile_signals_def Let_def parse_failures_def unknown_ratio_def
        type_violation_ratio_def keys_minus_def)
qed

section \<open>Properties\<close>

text \<open>
  The structural verdict: a report is DRIFTED exactly when the type violations, the parse
  failures or the key-set distance exceed their thresholds, SUSPECTED exactly when only the
  unknown fields or the format distribution do, and STABLE otherwise; remediation is recommended
  exactly when it is not STABLE, and every signal lies in the unit interval when no more records
  are corrupted than were read and the field names of a profile are distinct.
\<close>

theorem structural_verdict:
  assumes "enumerates enum" "dict_ok (sp_fields baseline)" "dict_ok (sp_fields current)"
    and "sp_corrupted_records current \<le> sp_total_records current"
    and "r = compare_profiles enum clock t baseline current sid pid ver run obs" and "s = dr_signals r"
  shows "(dr_drift_state r = DRIFTED \<longleftrightarrow>
            dt_type_violation_rate t < ds_type_violation_rate s
            \<or> dt_parse_failure_rate t < ds_parse_failure_rate s
            \<or> dt_key_set_distance t < ds_key_set_distance s)
       \<and> (dr_drift_state r = STABLE \<longleftrightarrow>
            ds_type_violation_rate s \<le> dt_type_violation_rate t
            \<and> ds_parse_failure_rate s \<le> dt_parse_failure_rate t
            \<and> ds_key_set_distance s \<le> dt_key_set_distance t
            \<and> ds_unknown_field_ratio s \<le> dt_unknown_field_ratio t
            \<and> ds_distribution_divergence s \<le> dt_distribution_divergence t)
       \<and> (dr_remediation_recommended r \<longleftrightarrow> dr_drift_state r \<noteq> STABLE)
       \<and> (\<forall>x\<in>{ds_parse_failure_rate s, ds_unknown_field_ratio s, ds_type_violation_rate s,
               ds_key_set_distance s, ds_distribution_divergence s}. 0 \<le> x \<and> x \<le> 1)"
proof -
  have s: "s = profile_signals enum baseline current"
    by (simp add: assms(5,6) compare_profiles_def Let_def)
  have u: "signals_unit s"
    unfolding s using assms(2-4) by (rule profile_signals_unit)
  have st: "dr_drift_state r = profile_state t s" "dr_remediation_recommended r = (profile_state t s \<noteq> STABLE)"
    by (simp_all add: assms(5) s compare_profiles_def Let_def)
  show ?thesis using u by (auto simp: st profile_state_def not_less signals_unit_def)
qed

text \<open>
  The key-set distance is a distance of key sets: symmetric, 0 between profiles with the
  same field names and, for fewer than \<open>2^53\<close> names, only between those.
\<close>

theorem jaccard_is_distance:
  assumes "distinct a" "distinct b" "card (set a \<union> set b) \<le> 2 ^ 53"
  shows "jaccard_distance a b = jaccard_distance b a
    \<and> 0 \<le> jaccard_distance a b \<and> jaccard_distance a b \<le> 1
    \<and> (jaccard_distance a b = 0 \<longleftrightarrow> set a = set b)"
proof -
  have "jaccard_distance a b = jaccard_distance b a"
    by (simp add: jaccard_card assms(1,2) Un_commute Int_commute)
  moreover have "jaccard_distance a b = 0 \<longleftrightarrow> set a = set b"
    using jaccard_positive [OF assms(1,2) _ assms(3)] jaccard_self [OF _ assms(1,2)] by force
  ultimately show ?thesis using jaccard_unit [OF assms(1,2)] by blast
qed

text \<open>
  No false alarm: a profile compared with itself has no structural signal but its own parse
  failures, so with non-negative thresholds it is STABLE exactly when those are within bounds.
\<close>

theorem self_comparison_stable:
  assumes "dict_ok (sp_fields p)" and "\<forall>x\<in>{dt_unknown_field_ratio t, dt_type_violation_rate t,
      dt_key_set_distance t, dt_distribution_divergence t}. 0 \<le> x"
  shows "dr_drift_state (compare_profiles enum clock t p p sid pid ver run obs) = STABLE
    \<longleftrightarrow> parse_failures p \<le> dt_parse_failure_rate t"
proof -
  have d: "distinct (map fst (sp_fields p))" using assms(1) by (simp add: dict_ok_def)
  have "keys_minus (map fst (sp_fields p)) (map fst (sp_fields p)) = []"
    by (simp add: keys_minus_def)
  then have "unknown_ratio (map fst (sp_fields p)) (map fst (sp_fields p)) = 0"
    by (simp add: unknown_ratio_def)
  with assms(2) show ?thesis
    by (auto simp: compare_profiles_def Let_def profile_state_def profile_signals_def
        type_violation_ratio_def type_mutations_self divergence_self jaccard_self [OF refl d d] not_less)
qed

section \<open>Witnesses\<close>

definition sample_field :: "string \<Rightarrow> FieldProfile" where
  "sample_field ty = \<lparr>fp_name = ''f'', fp_inferred_type = ty, fp_type_distribution = [],
     fp_nullable = False, fp_null_count = 0, fp_total_count = 1, fp_distinct_count = 1,
     fp_sample_values = [], fp_min_value = PNone, fp_max_value = PNone, fp_avg_length = None,
     fp_is_ip_candidate = False, fp_is_timestamp_candidate = False, fp_is_enum_candidate = False,
     fp_enum_values = None, fp_presence_ratio = 1\<rparr>"

definition sample_profile :: SourceProfile where
  "sample_profile = \<lparr>sp_format = LF_JSON, sp_confidence = 1, sp_total_records = 2,
     sp_valid_records = 2, sp_corrupted_records = 0,
     sp_fields = [(''a'', sample_field ''integer''), (''b'', sample_field ''string'')],
     sp_templates = [], sp_delimiter = None, sp_format_distribution = [(''JSON'', 2)],
     sp_sample_events = []\<rparr>"

lemma sample_profile_ok: "dict_ok (sp_fields sample_profile)" "parse_failures sample_profile = 0"
  "sp_corrupted_records sample_profile \<le> sp_total_records sample_profile"
  by (simp_all add: sample_profile_def dict_ok_def parse_failures_def)

lemma default_thresholds_nonneg:
  "\<forall>x\<in>{dt_unknown_field_ratio default_thresholds, dt_type_violation_rate default_thresholds,
      dt_key_set_distance default_thresholds, dt_distribution_divergence default_thresholds}. 0 \<le> x"
  "0 \<le> dt_parse_failure_rate default_thresholds"
  by (simp_all add: default_thresholds_def float_bounds)

theorem structural_verdict_witness:
  "dr_remediation_recommended (compare_profiles (\<lambda>xs. xs) \<lparr>dt_wall = 0, dt_offset = None\<rparr>
     default_thresholds sample_profile (sample_profile\<lparr>sp_fields := []\<rparr>) ''s'' ''p'' ''1'' None None)
   \<longleftrightarrow> dr_drift_state (compare_profiles (\<lambda>xs. xs) \<lparr>dt_wall = 0, dt_offset = None\<rparr>
     default_thresholds sample_profile (sample_profile\<lparr>sp_fields := []\<rparr>) ''s'' ''p'' ''1'' None None) \<noteq> STABLE"
proof -
  have "dict_ok (sp_fields (sample_profile\<lparr>sp_fields := []\<rparr>))"
    "sp_corrupted_records (sample_profile\<lparr>sp_fields := []\<rparr>) \<le> sp_total_records (sample_profile\<lparr>sp_fields := []\<rparr>)"
    by (simp_all add: sample_profile_def)
  from structural_verdict [OF enumerates_id sample_profile_ok(1) this refl refl] show ?thesis by blast
qed

theorem jaccard_is_distance_witness:
  "0 < jaccard_distance [''a'', ''b''] [''b'', ''c''] \<and> jaccard_distance [''a'', ''b''] [''b'', ''a''] = 0"
proof -
  let ?a = "[''a'', ''b'']" and ?b = "[''b'', ''c'']" and ?c = "[''b'', ''a'']"
  have d: "distinct ?a" "distinct ?b" "distinct ?c" by simp_all
  have c: "card (set ?a \<union> set ?b) \<le> 2 ^ 53" by (rule le_trans [of _ 3]) (simp_all add: card_insert_if)
  have c': "card (set ?a \<union> set ?c) \<le> 2 ^ 53" by (rule le_trans [of _ 2]) (simp_all add: card_insert_if)
  have "''a'' \<in> set ?a" "''a'' \<notin> set ?b" by simp_all
  then have n: "set ?a \<noteq> set ?b" by metis
  have n': "set ?a = set ?c" by (simp add: insert_commute)
  from jaccard_is_distance [OF d(1,2) c] n have "0 < jaccard_distance ?a ?b" by (metis less_le)
  with jaccard_is_distance [OF d(1,3) c'] n' show ?thesis by blast
qed

theorem self_comparison_stable_witness:
  "dr_drift_state (compare_profiles (\<lambda>xs. xs) \<lparr>dt_wall = 0, dt_offset = None\<rparr>
     default_thresholds sample_profile sample_profile ''s'' ''p'' ''1'' None None) = STABLE"
  using self_comparison_stable [OF sample_profile_ok(1) default_thresholds_nonneg(1)]
    default_thresholds_nonneg(2) sample_profile_ok(2) by simp

end
