(* ===== verification/SemanticDrift.thy ===== *)
theory SemanticDrift
  imports Structural Comparator
begin

text \<open>
  The semantic drift detector, \<open>ml/drift/semantic.py\<close>. Specifications and events are dictionaries
  of arbitrary values, so the checks can raise: a missing method is an \<open>AttributeError\<close>, an
  unhashable value in a set or an \<open>in\<close> on a number a \<open>TypeError\<close>.
\<close>

section \<open>Data\<close>

record SemanticDriftThresholds =
  st_dps_regression :: rat
  st_enum_drift_score :: rat
  st_critical_mapping_drift :: rat
  st_event_family_drift :: rat

definition default_semantic_thresholds :: SemanticDriftThresholds where
  "default_semantic_thresholds = \<lparr>st_dps_regression = 0, st_enum_drift_score = fl (5 / 100),
     st_critical_mapping_drift = 0, st_event_family_drift = fl (10 / 100)\<rparr>"

definition CRITICAL_CANONICAL_FIELDS :: "string list" where
  "CRITICAL_CANONICAL_FIELDS = [''src.ip'', ''dst.ip'', ''src.port'', ''dst.port'',
     ''event.action'', ''event.outcome'', ''user.name'']"

text \<open>Hashing, as membership in a set needs it.\<close>

fun hashable :: "pyval \<Rightarrow> bool" where
  "hashable (PList _) = False"
| "hashable (PDict _) = False"
| "hashable _ = True"

section \<open>Critical mappings\<close>

definition spec_fields :: "dict \<Rightarrow> dict result" where
  "spec_fields spec = py_items (dict_get spec ''fields'' (PDict []))"

definition crit_map_entry ::
    "(string \<times> string) list \<Rightarrow> string \<times> pyval \<Rightarrow> (string \<times> string) list result" where
  "crit_map_entry m p = (case p of (raw_k, f_def) \<Rightarrow>
     res_bind (py_get f_def ''map_to'' PNone) (\<lambda>c.
       if \<not> hashable c then Inl TypeError
       else case c of
           PStr s \<Rightarrow> Inr (if s \<in> set CRITICAL_CANONICAL_FIELDS then AList.update s raw_k m else m)
         | _ \<Rightarrow> Inr m))"

definition crit_map :: "dict \<Rightarrow> (string \<times> string) list result" where
  "crit_map flds = res_foldl crit_map_entry [] flds"

definition mapping_mismatches ::
    "(string \<times> string) list \<Rightarrow> (string \<times> string) list \<Rightarrow> drift_detail list" where
  "mapping_mismatches base_crit_map cand_crit_map =
     concat (map (\<lambda>(canon_field, base_raw).
       case map_of cand_crit_map canon_field of
         None \<Rightarrow> [Mapping_dropped canon_field base_raw]
       | Some cand_raw \<Rightarrow>
           if cand_raw \<noteq> base_raw then [Mapping_changed canon_field base_raw cand_raw] else [])
       base_crit_map)"

definition check_critical_mapping_drift :: "dict \<Rightarrow> dict \<Rightarrow> (rat \<times> drift_detail list) result" where
  "check_critical_mapping_drift baseline_spec candidate_spec =
     res_bind (spec_fields baseline_spec) (\<lambda>base_fields.
     res_bind (crit_map base_fields) (\<lambda>base_crit_map.
     res_bind (spec_fields candidate_spec) (\<lambda>cand_fields.
     res_bind (crit_map cand_fields) (\<lambda>cand_crit_map.
       if base_crit_map = [] then Inr (0, [])
       else let details = mapping_mismatches base_crit_map cand_crit_map
            in Inr (py_round (fl (of_nat (length details) / of_nat (length base_crit_map))) 4, details)))))"

section \<open>Enumerations\<close>

fun action_enum :: "dict \<Rightarrow> pyval result" where
  "action_enum [] = Inr (PDict [])"
| "action_enum ((_, f_def) # r) =
     res_bind (py_get f_def ''map_to'' PNone) (\<lambda>c.
       if c = PStr ''event.action'' then py_get f_def ''enum'' (PDict []) else action_enum r)"

definition enum_inversion :: "pyval \<Rightarrow> string \<times> pyval \<Rightarrow> drift_detail list result" where
  "enum_inversion cand_enum p = (case p of (raw_val, base_norm) \<Rightarrow>
     res_bind (py_get cand_enum raw_val PNone) (\<lambda>cand_norm.
       Inr (if truthy cand_norm \<and> \<not> py_eq cand_norm base_norm
            then [Enum_inverted raw_val cand_norm base_norm] else [])))"

definition event_action :: "dict \<Rightarrow> pyval result" where
  "event_action ev =
     (let a = dict_get ev ''event.action'' PNone
      in if truthy a then Inr a
         else py_get (py_or (dict_get ev ''event'' PNone) (PDict [])) ''action'' PNone)"

definition unmapped_event :: "pyval list \<Rightarrow> dict \<Rightarrow> bool result" where
  "unmapped_event known ev = res_bind (event_action ev) (\<lambda>act.
     if \<not> truthy act then Inr False
     else if \<not> hashable act then Inl TypeError
     else Inr (\<not> list_ex (\<lambda>k. py_eq k act) known))"

text \<open>\<open>set(d.values())\<close>\<close>

definition value_set :: "pyval \<Rightarrow> pyval list result" where
  "value_set v = res_bind (py_items v) (\<lambda>d.
     if list_all hashable (map snd d) then Inr (map snd d) else Inl TypeError)"

definition check_enum_behavior_drift ::
    "dict \<Rightarrow> dict \<Rightarrow> dict list \<Rightarrow> (rat \<times> drift_detail list) result" where
  "check_enum_behavior_drift baseline_spec candidate_spec candidate_events =
     res_bind (spec_fields baseline_spec) (\<lambda>base_fields.
     res_bind (action_enum base_fields) (\<lambda>base_enum.
     res_bind (spec_fields candidate_spec) (\<lambda>cand_fields.
     res_bind (action_enum cand_fields) (\<lambda>cand_enum.
     res_bind (py_items base_enum) (\<lambda>base_items.
     res_bind (res_map (enum_inversion cand_enum) base_items) (\<lambda>inversions.
       if concat inversions \<noteq> [] then Inr (1, concat inversions)
       else if candidate_events = [] \<or> base_items = [] then Inr (0, [])
       else
         res_bind (value_set base_enum) (\<lambda>base_values.
         res_bind (value_set cand_enum) (\<lambda>cand_values.
         res_bind (res_map (unmapped_event (base_values @ cand_values)) candidate_events) (\<lambda>flags.
           let ratio = fl (of_nat (length (filter id flags)) / of_nat (length candidate_events))
           in Inr (py_round ratio 4, if 0 < ratio then [Enum_unmapped ratio] else []))))))))))"

section \<open>Event families\<close>

definition get_family :: "dict \<Rightarrow> string result" where
  "get_family event =
     (let ev_obj = (case dict_get event ''event'' PNone of PDict d \<Rightarrow> d | _ \<Rightarrow> []);
          cls = py_or (py_or (dict_get ev_obj ''class'' PNone) (dict_get event ''event.class'' PNone)) (PStr []);
          act = py_or (py_or (dict_get ev_obj ''action'' PNone) (dict_get event ''event.action'' PNone)) (PStr []);
          has = (\<lambda>k. truthy (dict_get event k PNone))
      in if truthy cls then Inr (str_lower (py_str cls))
         else res_bind (py_in ''auth'' act) (\<lambda>auth.
              res_bind (if auth then Inr True else py_in ''login'' act) (\<lambda>login.
           if login \<or> has ''user.name'' \<or> has ''user'' then Inr ''auth''
           else if has ''http'' \<or> has ''http.response.status_code'' then Inr ''http''
           else if has ''dns'' \<or> has ''dns.query_name'' then Inr ''dns''
           else if has ''src.ip'' \<or> has ''dst.ip'' \<or> has ''src'' then Inr ''network''
           else Inr ''general'')))"

definition count_families :: "dict list \<Rightarrow> (string \<times> nat) list result" where
  "count_families evs = res_foldl (\<lambda>m ev. res_bind (get_family ev) (\<lambda>fam.
     Inr (AList.update fam (dict_get m fam 0 + 1) m))) [] evs"

text \<open>\<open>max(items, key=lambda x: x[1])[0]\<close>: the first entry with the largest value.\<close>

fun first_max :: "string \<times> rat \<Rightarrow> (string \<times> rat) list \<Rightarrow> string" where
  "first_max best [] = fst best"
| "first_max best (p # ps) = first_max (if snd best < snd p then p else best) ps"

definition primary_of :: "(string \<times> rat) list \<Rightarrow> string" where
  "primary_of ps = (case ps of [] \<Rightarrow> [] | p # r \<Rightarrow> first_max p r)"

definition check_event_family_drift ::
    "(string list \<Rightarrow> string list) \<Rightarrow> SemanticDriftThresholds \<Rightarrow> dict list \<Rightarrow> dict list
     \<Rightarrow> (rat \<times> drift_detail list) result" where
  "check_event_family_drift enum t baseline_events candidate_events =
     (if baseline_events = [] \<or> candidate_events = [] then Inr (0, [])
      else
        res_bind (count_families baseline_events) (\<lambda>base_counts.
        res_bind (count_families candidate_events) (\<lambda>cand_counts.
          let p_base = map (\<lambda>(k, v). (k, fl (of_nat v / of_nat (length baseline_events)))) base_counts;
              p_cand = map (\<lambda>(k, v). (k, fl (of_nat v / of_nat (length candidate_events)))) cand_counts;
              all_fams = enum (keys_union (map fst p_base) (map fst p_cand));
              tvd = py_round (tvd_over all_fams p_base p_cand) 4
          in Inr (tvd, if st_event_family_drift t < tvd
                       then [Family_divergence tvd (primary_of p_base) (primary_of p_cand)] else []))))"

section \<open>Detection preservation\<close>

definition eval_blocked_preservation :: "dict list \<Rightarrow> nat \<times> nat" where
  "eval_blocked_preservation events = foldl dps_event (0, 0) events"

definition check_dps_regression :: "dict list \<Rightarrow> dict list \<Rightarrow> rat \<times> drift_detail list" where
  "check_dps_regression baseline_events candidate_events =
     (let (base_exp, base_pres) = eval_blocked_preservation baseline_events;
          (_, cand_pres) = eval_blocked_preservation candidate_events;
          base_dps = (if 0 < base_exp then fl (of_nat base_pres / of_nat base_exp) else 1);
          cand_dps = (if 0 < base_exp then fl (of_nat cand_pres / of_nat base_exp) else 1);
          dps_drop = py_round (max 0 (fl (base_dps - cand_dps))) 4
      in (dps_drop, if 0 < dps_drop then [Dps_dropped dps_drop base_dps cand_dps] else []))"

section \<open>The verdict\<close>

definition semantic_state :: "SemanticDriftThresholds \<Rightarrow> rat \<Rightarrow> rat \<Rightarrow> rat \<Rightarrow> rat \<Rightarrow> DriftState" where
  "semantic_state t dps_reg crit_drift enum_drift fam_drift =
     (if dps_reg > st_dps_regression t \<or> crit_drift > st_critical_mapping_drift t
         \<or> enum_drift > st_enum_drift_score t then DRIFTED
      else if fam_drift > st_event_family_drift t then SUSPECTED
      else STABLE)"

definition semantic_signals :: "rat \<Rightarrow> rat \<Rightarrow> rat \<Rightarrow> rat \<Rightarrow> DriftSignals" where
  "semantic_signals dps_reg enum_drift crit_drift fam_drift =
     \<lparr>ds_parse_failure_rate = 0, ds_unknown_field_ratio = 0, ds_type_violation_rate = 0,
      ds_key_set_distance = 0, ds_distribution_divergence = 0, ds_dps_regression = Some dps_reg,
      ds_enum_drift_score = Some enum_drift, ds_critical_mapping_drift = Some crit_drift,
      ds_event_family_drift = Some fam_drift\<rparr>"

definition combined_thresholds :: "SemanticDriftThresholds \<Rightarrow> DriftThresholds \<Rightarrow> DriftThresholds" where
  "combined_thresholds t s =
     \<lparr>dt_parse_failure_rate = dt_parse_failure_rate s, dt_unknown_field_ratio = dt_unknown_field_ratio s,
      dt_type_violation_rate = dt_type_violation_rate s, dt_key_set_distance = dt_key_set_distance s,
      dt_distribution_divergence = dt_distribution_divergence s,
      dt_dps_regression = Some (st_dps_regression t), dt_enum_drift_score = Some (st_enum_drift_score t),
      dt_critical_mapping_drift = Some (st_critical_mapping_drift t),
      dt_event_family_drift = Some (st_event_family_drift t)\<rparr>"

definition detect_semantic_drift ::
    "(string list \<Rightarrow> string list) \<Rightarrow> datetime \<Rightarrow> SemanticDriftThresholds \<Rightarrow> DriftThresholds \<Rightarrow> dict \<Rightarrow> dict
     \<Rightarrow> dict list \<Rightarrow> dict list \<Rightarrow> string \<Rightarrow> string \<Rightarrow> string \<Rightarrow> string option \<Rightarrow> datetime option
     \<Rightarrow> DriftReport result" where
  "detect_semantic_drift enum clock t s baseline_spec candidate_spec baseline_events candidate_events
     source_id parser_id parser_version baseline_run_id observed_at =
     (let now = (case observed_at of None \<Rightarrow> clock | Some d \<Rightarrow> d) in
      res_bind (check_critical_mapping_drift baseline_spec candidate_spec) (\<lambda>(crit_drift, crit_details).
      res_bind (check_enum_behavior_drift baseline_spec candidate_spec candidate_events)
        (\<lambda>(enum_drift, enum_details).
      res_bind (check_event_family_drift enum t baseline_events candidate_events)
        (\<lambda>(fam_drift, fam_details).
      let (dps_reg, dps_details) = check_dps_regression baseline_events candidate_events;
          details = (if crit_drift > st_critical_mapping_drift t then crit_details else [])
            @ (if enum_drift > st_enum_drift_score t then enum_details else [])
            @ (if fam_drift > st_event_family_drift t then fam_details else [])
            @ (if dps_reg > st_dps_regression t then dps_details else []);
          state = semantic_state t dps_reg crit_drift enum_drift fam_drift
      in Inr \<lparr>dr_source = source_id, dr_parser_id = parser_id, dr_parser_version = parser_version,
          dr_drift_state = state, dr_observed_at = now, dr_start_time = now, dr_end_time = now,
          dr_sample_count = length candidate_events,
          dr_signals = semantic_signals dps_reg enum_drift crit_drift fam_drift,
          dr_thresholds = combined_thresholds t s,
          dr_drift_details = (if state = STABLE \<and> details = [] then [Within_semantic_bounds] else details),
          dr_remediation_recommended = (state \<noteq> STABLE), dr_baseline_run_id = baseline_run_id\<rparr>))))"

section \<open>Lemmas\<close>

lemma crit_map_keys:
  assumes "crit_map flds = Inr m"
  shows "dict_ok m \<and> list_all (\<lambda>(k, v). k \<in> set CRITICAL_CANONICAL_FIELDS) m"
  using assms unfolding crit_map_def
proof (rule res_foldl_invariant)
  fix m p m'
  assume "dict_ok m \<and> list_all (\<lambda>(k, v). k \<in> set CRITICAL_CANONICAL_FIELDS) m" "crit_map_entry m p = Inr m'"
  then show "dict_ok m' \<and> list_all (\<lambda>(k, v). k \<in> set CRITICAL_CANONICAL_FIELDS) m'"
    by (auto simp: crit_map_entry_def result_simps list_all_update split: prod.splits if_splits pyval.splits)
qed simp

lemma crit_map_length: "crit_map flds = Inr m \<Longrightarrow> length m \<le> 7"
proof -
  assume m: "crit_map flds = Inr m"
  have "length m = card (set (map fst m))"
    using crit_map_keys [OF m] distinct_card [of "map fst m"] by (simp add: dict_ok_def)
  also have "\<dots> \<le> card (set CRITICAL_CANONICAL_FIELDS)"
    using crit_map_keys [OF m] by (intro card_mono) (auto simp: list_all_iff)
  also have "\<dots> \<le> 7"
    using card_length [of CRITICAL_CANONICAL_FIELDS] by (simp add: CRITICAL_CANONICAL_FIELDS_def)
  finally show ?thesis .
qed

lemma mapping_mismatches_Nil:
  assumes "dict_ok b"
  shows "mapping_mismatches b c = [] \<longleftrightarrow> map_of b \<subseteq>\<^sub>m map_of c"
proof -
  have "mapping_mismatches b c = [] \<longleftrightarrow> (\<forall>(k, v)\<in>set b. map_of c k = Some v)"
    by (induction b) (auto simp: mapping_mismatches_def split: option.splits if_splits)
  also have "\<dots> \<longleftrightarrow> map_of b \<subseteq>\<^sub>m map_of c"
  proof
    assume *: "\<forall>(k, v)\<in>set b. map_of c k = Some v"
    show "map_of b \<subseteq>\<^sub>m map_of c"
      unfolding map_le_def
    proof
      fix k
      assume "k \<in> dom (map_of b)"
      then obtain v where v: "map_of b k = Some v" by auto
      from map_of_SomeD [OF v] * have "map_of c k = Some v" by fastforce
      with v show "map_of b k = map_of c k" by simp
    qed
  next
    assume "map_of b \<subseteq>\<^sub>m map_of c"
    then show "\<forall>(k, v)\<in>set b. map_of c k = Some v"
      by (auto simp: dict_ok_map_of [OF assms] map_le_def dom_def)
  qed
  finally show ?thesis .
qed

lemma mapping_mismatches_le: "length (mapping_mismatches b c) \<le> length b"
  by (induction b) (auto simp: mapping_mismatches_def split: option.split)

lemma eval_blocked_eq:
  "eval_blocked_preservation evs = (length (filter security_event evs),
     length (filter (\<lambda>e. security_event e \<and> attributed e) evs))"
proof -
  have "foldl dps_event (e, p) evs = (e + length (filter security_event evs),
      p + length (filter (\<lambda>e. security_event e \<and> attributed e) evs))" for e p
    by (induction evs arbitrary: e p) (auto simp: dps_event_eq)
  then show ?thesis by (simp add: eval_blocked_preservation_def)
qed

lemma detections_le: "length (filter (\<lambda>e. security_event e \<and> attributed e) evs) \<le> length (filter security_event evs)"
  by (induction evs) auto

lemma detect_result:
  assumes "detect_semantic_drift enum clock t s bs cs be ce sid pid ver run obs = Inr r"
  obtains crit enm fam where
    "map_sum id fst (check_critical_mapping_drift bs cs) = Inr crit"
    "map_sum id fst (check_enum_behavior_drift bs cs ce) = Inr enm"
    "map_sum id fst (check_event_family_drift enum t be ce) = Inr fam"
    "dr_drift_state r = semantic_state t (fst (check_dps_regression be ce)) crit enm fam"
    "dr_signals r = semantic_signals (fst (check_dps_regression be ce)) enm crit fam"
    "dr_remediation_recommended r = (dr_drift_state r \<noteq> STABLE)"
  using assms
  by (auto simp: detect_semantic_drift_def Let_def result_simps case_prod_unfold)

section \<open>Properties\<close>

text \<open>
  Critical mappings: the check succeeds exactly on the specifications whose field tables it
  can read, and the reported drift is positive exactly when some critical canonical field of the
  baseline is dropped or read from another raw field. No rounding can hide it, since there are
  only seven critical fields.
\<close>

theorem critical_mapping_drift_exact:
  assumes "spec_fields bs = Inr bf" "spec_fields cs = Inr cf"
    and "crit_map bf = Inr bm" "crit_map cf = Inr cm"
  shows "\<exists>x ds. check_critical_mapping_drift bs cs = Inr (x, ds)
    \<and> 0 \<le> x \<and> x \<le> 1
    \<and> (0 < x \<longleftrightarrow> (\<exists>f raw. map_of bm f = Some raw \<and> map_of cm f \<noteq> Some raw))"
proof (cases "bm = []")
  case True
  then show ?thesis using assms by (simp add: check_critical_mapping_drift_def)
next
  case False
  let ?ds = "mapping_mismatches bm cm"
  let ?x = "py_round (fl (of_nat (length ?ds) / of_nat (length bm))) 4"
  have n: "length bm \<le> 20000" using crit_map_length [OF assms(3)] by simp
  have "0 < ?x \<longleftrightarrow> ?ds \<noteq> []"
    using round4_pos [OF _ n mapping_mismatches_le] by (cases "?ds = []") auto
  also have "\<dots> \<longleftrightarrow> (\<exists>f raw. map_of bm f = Some raw \<and> map_of cm f \<noteq> Some raw)"
    using crit_map_keys [OF assms(3)] by (auto simp: mapping_mismatches_Nil map_le_def dom_def) metis
  finally show ?thesis
    using False assms ratio4_unit [OF mapping_mismatches_le]
    by (simp add: check_critical_mapping_drift_def Let_def)
qed

text \<open>
  The semantic verdict: whenever the detector returns, the state is DRIFTED exactly when the
  detection, mapping or enumeration signal exceeds its threshold, SUSPECTED exactly when only the
  event families diverge, STABLE otherwise, and remediation is recommended exactly when it is not
  STABLE.
\<close>

theorem semantic_verdict:
  assumes "detect_semantic_drift enum clock t s bs cs be ce sid pid ver run obs = Inr r"
  shows "\<exists>dps enm crit fam.
       ds_dps_regression (dr_signals r) = Some dps \<and> ds_enum_drift_score (dr_signals r) = Some enm
     \<and> ds_critical_mapping_drift (dr_signals r) = Some crit \<and> ds_event_family_drift (dr_signals r) = Some fam
     \<and> (dr_drift_state r = DRIFTED \<longleftrightarrow> st_dps_regression t < dps
          \<or> st_critical_mapping_drift t < crit \<or> st_enum_drift_score t < enm)
     \<and> (dr_drift_state r = STABLE \<longleftrightarrow> dps \<le> st_dps_regression t \<and> crit \<le> st_critical_mapping_drift t
          \<and> enm \<le> st_enum_drift_score t \<and> fam \<le> st_event_family_drift t)
     \<and> (dr_remediation_recommended r \<longleftrightarrow> dr_drift_state r \<noteq> STABLE)"
  using assms by (rule detect_result) (auto simp: semantic_signals_def semantic_state_def not_less)

text \<open>
  C19. An inverted action never passes: if some raw action of the baseline's enumeration is given
  another, non-empty meaning by the candidate's, the enumeration check reports 1, and the
  detector, with a threshold below 1, reports DRIFTED whenever it returns.
\<close>

theorem enum_inversion_drifted:
  assumes "spec_fields bs = Inr bf" "action_enum bf = Inr (PDict benum)"
    and "spec_fields cs = Inr cf" "action_enum cf = Inr (PDict cenum)"
    and "(raw, meaning) \<in> set benum" "map_of cenum raw = Some meaning'"
    and "truthy meaning'" "\<not> py_eq meaning' meaning" and "st_enum_drift_score t < 1"
  shows "(\<exists>ds. check_enum_behavior_drift bs cs ce = Inr (1, ds))
    \<and> (\<forall>r. detect_semantic_drift enum clock t s bs cs be ce sid pid ver run obs = Inr r
          \<longrightarrow> dr_drift_state r = DRIFTED)"
proof -
  let ?inv = "\<lambda>(raw, base). if truthy (dict_get cenum raw PNone) \<and> \<not> py_eq (dict_get cenum raw PNone) base
    then [Enum_inverted raw (dict_get cenum raw PNone) base] else []"
  have "enum_inversion (PDict cenum) = (\<lambda>p. Inr (?inv p))"
    by (auto simp: enum_inversion_def)
  then have m: "res_map (enum_inversion (PDict cenum)) benum = Inr (map ?inv benum)"
    by (simp add: res_map_pure)
  have "?inv (raw, meaning) \<noteq> []" using assms(6-8) by (simp add: dict_get_def)
  then have "concat (map ?inv benum) \<noteq> []" using assms(5) by (force simp: concat_eq_Nil_conv)
  then have c: "\<exists>ds. check_enum_behavior_drift bs cs ce = Inr (1, ds)"
    using assms(1-4) m by (simp add: check_enum_behavior_drift_def)
  moreover have "dr_drift_state r = DRIFTED"
    if "detect_semantic_drift enum clock t s bs cs be ce sid pid ver run obs = Inr r" for r
    using that by (rule detect_result) (use c assms(9) in \<open>auto simp: semantic_state_def\<close>)
  ultimately show ?thesis by blast
qed

text \<open>
  Lost detections are noticed here: the candidate's detections are counted against the
  baseline's security events, so a candidate stream without any attributed security event makes
  the drop positive as soon as the baseline had one, in a window of up to 20000 security events;
  a stream with at least as many detections never counts as a drop.
\<close>

theorem lost_detections_drop:
  assumes "b = eval_blocked_preservation be" "c = eval_blocked_preservation ce"
  shows "(snd b \<le> snd c \<longrightarrow> fst (check_dps_regression be ce) = 0)
    \<and> (0 < snd b \<and> snd c = 0 \<and> fst b \<le> 20000 \<longrightarrow> 0 < fst (check_dps_regression be ce))"
proof -
  have le: "snd b \<le> fst b" using detections_le by (simp add: assms(1) eval_blocked_eq)
  have eq: "fst (check_dps_regression be ce) = (if 0 < fst b
      then py_round (max 0 (fl (fl (of_nat (snd b) / of_nat (fst b)) - fl (of_nat (snd c) / of_nat (fst b))))) 4
      else 0)"
    by (simp add: check_dps_regression_def Let_def case_prod_unfold assms)
  have "fl (fl (of_nat (snd b) / of_nat (fst b)) - fl (of_nat (snd c) / of_nat (fst b))) \<le> 0"
    if "snd b \<le> snd c"
    using that by (intro ieee.nonpos) (simp add: fl_mono divide_right_mono)
  then have 1: "snd b \<le> snd c \<longrightarrow> fst (check_dps_regression be ce) = 0"
    by (auto simp: eq max_def)
  have "0 < py_round (fl (of_nat (snd b) / of_nat (fst b))) 4" if "0 < snd b" "fst b \<le> 20000"
    using round4_pos [OF that le] .
  then have "0 < fst (check_dps_regression be ce)" if "0 < snd b" "snd c = 0" "fst b \<le> 20000"
    using that le by (simp add: eq max_def fl_idem ieee.nonneg)
  with 1 show ?thesis by blast
qed

section \<open>Witnesses\<close>

definition base_spec :: dict where
  "base_spec = [(''fields'', PDict [(''act'', PDict [(''map_to'', PStr ''event.action''),
     (''enum'', PDict [(''D'', PStr ''blocked'')])])])]"

definition inverted_spec :: dict where
  "inverted_spec = [(''fields'', PDict [(''act'', PDict [(''map_to'', PStr ''event.action''),
     (''enum'', PDict [(''D'', PStr ''allowed'')])])])]"

definition moved_spec :: dict where
  "moved_spec = [(''fields'', PDict [(''verb'', PDict [(''map_to'', PStr ''event.action'')])])]"

definition blocked_event :: dict where
  "blocked_event = [(''event.action'', PStr ''deny''), (''src.ip'', PStr ''10.0.0.1'')]"

theorem critical_mapping_drift_exact_witness:
  "\<exists>x ds. check_critical_mapping_drift base_spec moved_spec = Inr (x, ds) \<and> 0 < x"
proof -
  have s: "spec_fields base_spec = Inr [(''act'', PDict [(''map_to'', PStr ''event.action''),
        (''enum'', PDict [(''D'', PStr ''blocked'')])])]"
      "spec_fields moved_spec = Inr [(''verb'', PDict [(''map_to'', PStr ''event.action'')])]"
    by (simp_all add: spec_fields_def base_spec_def moved_spec_def dict_get_def)
  have c: "crit_map [(''act'', PDict [(''map_to'', PStr ''event.action''),
        (''enum'', PDict [(''D'', PStr ''blocked'')])])] = Inr [(''event.action'', ''act'')]"
      "crit_map [(''verb'', PDict [(''map_to'', PStr ''event.action'')])] = Inr [(''event.action'', ''verb'')]"
    by (simp_all add: crit_map_def crit_map_entry_def dict_get_def CRITICAL_CANONICAL_FIELDS_def)
  from critical_mapping_drift_exact [OF s c] show ?thesis by auto
qed

lemma moved_detected:
  "detect_semantic_drift (\<lambda>xs. xs) \<lparr>dt_wall = 0, dt_offset = None\<rparr> default_semantic_thresholds
     default_thresholds base_spec inverted_spec [blocked_event] [blocked_event] ''s'' ''p'' ''1'' None None
   \<noteq> Inl e"
  by (simp add: detect_semantic_drift_def check_critical_mapping_drift_def check_enum_behavior_drift_def
      check_event_family_drift_def base_spec_def inverted_spec_def blocked_event_def spec_fields_def
      crit_map_def crit_map_entry_def CRITICAL_CANONICAL_FIELDS_def enum_inversion_def dict_get_def
      count_families_def get_family_def py_or_def Let_def case_prod_unfold str_startswith_def)

theorem semantic_verdict_witness:
  "\<exists>r. detect_semantic_drift (\<lambda>xs. xs) \<lparr>dt_wall = 0, dt_offset = None\<rparr> default_semantic_thresholds
     default_thresholds base_spec inverted_spec [blocked_event] [blocked_event] ''s'' ''p'' ''1'' None None = Inr r
   \<and> (dr_remediation_recommended r \<longleftrightarrow> dr_drift_state r \<noteq> STABLE)"
  using moved_detected semantic_verdict by (metis old.sum.exhaust)

theorem enum_inversion_drifted_witness:
  "\<exists>ds. check_enum_behavior_drift base_spec inverted_spec [] = Inr (1, ds)"
proof -
  let ?f = "\<lambda>m. [(''act'', PDict [(''map_to'', PStr ''event.action''), (''enum'', PDict [(''D'', PStr m)])])]"
  have s: "spec_fields base_spec = Inr (?f ''blocked'')" "spec_fields inverted_spec = Inr (?f ''allowed'')"
    by (simp_all add: spec_fields_def base_spec_def inverted_spec_def dict_get_def)
  have a: "action_enum (?f m) = Inr (PDict [(''D'', PStr m)])" for m by (simp add: dict_get_def)
  have "st_enum_drift_score default_semantic_thresholds < 1" by code_simp
  then show ?thesis
    using enum_inversion_drifted [OF s(1) a s(2) a, of "''D''" "PStr ''blocked''" "PStr ''allowed''"]
    by simp
qed

theorem lost_detections_drop_witness:
  "0 < fst (check_dps_regression [blocked_event] [[]])"
proof -
  have "eval_blocked_preservation [blocked_event] = (1, 1)" "eval_blocked_preservation [[]] = (0, 0)"
    by code_simp+
  then show ?thesis using lost_detections_drop [OF refl refl, of "[blocked_event]" "[[]]"] by simp
qed

end
