(* ===== verification/Regex.thy ===== *)
theory Regex
  imports Prelude
begin

text \<open>
  The regular expressions of Python's \<open>re\<close> that the profiler uses, as a backtracking matcher: a
  pattern is run from a position with a continuation, and alternatives are tried in the order of
  the pattern, greedy repetitions longest first. A position is the previous character, the rest
  of the subject and the groups captured so far. Repetition iterates only while the body
  consumes characters, so a run ends; its fuel is the length of the rest.

  \<open>rsem\<close> says declaratively which strings a pattern consumes in which context, and
  \<open>rx_match_iff\<close> proves that the matcher succeeds on exactly those.
\<close>

section \<open>Patterns and the matcher\<close>

datatype re =
    Cls "char \<Rightarrow> bool"
  | Eps
  | Seq re re
  | Alt re re
  | Star bool re
  | Opt bool re
  | Cap nat re
  | Bos
  | Eos
  | WordB
  | Ahead re

type_synonym rstate = "char option \<times> string \<times> (nat \<times> string) list"

definition is_word :: "char \<Rightarrow> bool" where
  "is_word c \<longleftrightarrow> (let n = (of_char c :: nat) in
     48 \<le> n \<and> n \<le> 57 \<or> 65 \<le> n \<and> n \<le> 90 \<or> n = 95 \<or> 97 \<le> n \<and> n \<le> 122
     \<or> n \<in> {170, 178, 179, 181, 185, 186, 188, 189, 190} \<or> 192 \<le> n \<and> n \<noteq> 215 \<and> n \<noteq> 247)"

definition opt_word :: "char option \<Rightarrow> bool" where
  "opt_word c = (case c of None \<Rightarrow> False | Some x \<Rightarrow> is_word x)"

definition next_char :: "string \<Rightarrow> char option" where
  "next_char s = (case s of [] \<Rightarrow> None | c # _ \<Rightarrow> Some c)"

definition at_end :: "string \<Rightarrow> bool" where
  "at_end s \<longleftrightarrow> s = [] \<or> s = [char_of (10 :: nat)]"

definition or_else :: "'a option \<Rightarrow> 'a option \<Rightarrow> 'a option" where
  "or_else a b = (case a of None \<Rightarrow> b | Some _ \<Rightarrow> a)"

primrec rx_star ::
    "nat \<Rightarrow> bool \<Rightarrow> (rstate \<Rightarrow> (rstate \<Rightarrow> rstate option) \<Rightarrow> rstate option) \<Rightarrow> rstate \<Rightarrow> (rstate \<Rightarrow> rstate option) \<Rightarrow> rstate option" where
  "rx_star 0 greedy f st k = k st"
| "rx_star (Suc n) greedy f st k =
     (let again = f st (\<lambda>st'. if length (fst (snd st')) < length (fst (snd st))
                             then rx_star n greedy f st' k else None)
      in if greedy then or_else again (k st) else or_else (k st) again)"

primrec rx_run :: "re \<Rightarrow> rstate \<Rightarrow> (rstate \<Rightarrow> rstate option) \<Rightarrow> rstate option" where
  "rx_run (Cls f) st k = (case st of (p, s, caps) \<Rightarrow>
     (case s of [] \<Rightarrow> None | c # s' \<Rightarrow> if f c then k (Some c, s', caps) else None))"
| "rx_run Eps st k = k st"
| "rx_run (Seq a b) st k = rx_run a st (\<lambda>st'. rx_run b st' k)"
| "rx_run (Alt a b) st k = or_else (rx_run a st k) (rx_run b st k)"
| "rx_run (Star greedy r) st k = rx_star (length (fst (snd st))) greedy (rx_run r) st k"
| "rx_run (Opt greedy r) st k =
     (if greedy then or_else (rx_run r st k) (k st) else or_else (k st) (rx_run r st k))"
| "rx_run (Cap n r) st k = rx_run r st (\<lambda>st'. case (st, st') of ((_, s, _), (p', s', caps')) \<Rightarrow>
     k (p', s', AList.update n (take (length s - length s') s) caps'))"
| "rx_run Bos st k = (case st of (p, s, caps) \<Rightarrow> if p = None then k st else None)"
| "rx_run Eos st k = (case st of (p, s, caps) \<Rightarrow> if at_end s then k st else None)"
| "rx_run WordB st k = (case st of (p, s, caps) \<Rightarrow>
     if opt_word p \<noteq> opt_word (next_char s) then k st else None)"
| "rx_run (Ahead r) st k = (case rx_run r st Some of None \<Rightarrow> None | Some _ \<Rightarrow> k st)"

text \<open>\<open>re.match\<close>, \<open>re.fullmatch\<close> and the text of a group.\<close>

definition re_match :: "re \<Rightarrow> string \<Rightarrow> rstate option" where
  "re_match r s = rx_run r (None, s, []) Some"

definition re_matches :: "re \<Rightarrow> string \<Rightarrow> bool" where
  "re_matches r s \<longleftrightarrow> re_match r s \<noteq> None"

definition re_fullmatch :: "re \<Rightarrow> string \<Rightarrow> bool" where
  "re_fullmatch r s \<longleftrightarrow> rx_run r (None, s, []) (\<lambda>st. if fst (snd st) = [] then Some st else None) \<noteq> None"

definition group_of :: "rstate \<Rightarrow> nat \<Rightarrow> string option" where
  "group_of st n = map_of (snd (snd st)) n"

definition group_text :: "rstate \<Rightarrow> nat \<Rightarrow> string" where
  "group_text st n = (case group_of st n of None \<Rightarrow> [] | Some s \<Rightarrow> s)"

text \<open>
  Scanning, for \<open>re.sub\<close>, \<open>re.finditer\<close> and \<open>re.findall\<close> with patterns that never match the empty
  string: the subject cut into matched and unmatched pieces, leftmost matches first.
\<close>

datatype piece = Lit char | Hit string rstate

definition last_char :: "char option \<Rightarrow> string \<Rightarrow> char option" where
  "last_char p u = (if u = [] then p else Some (last u))"

function re_scan :: "re \<Rightarrow> char option \<Rightarrow> string \<Rightarrow> piece list" where
  "re_scan r p [] = []"
| "re_scan r p (c # s) =
     (case rx_run r (p, c # s, []) Some of
        None \<Rightarrow> Lit c # re_scan r (Some c) s
      | Some st \<Rightarrow>
          let rest = fst (snd st); u = take (length (c # s) - length rest) (c # s)
          in if length rest \<le> length s
             then Hit u st # re_scan r (last_char p u) rest
             else Lit c # re_scan r (Some c) s)"
  by pat_completeness auto
termination
  by (relation "measure (\<lambda>(r, p, s). length s)") auto

definition re_sub :: "re \<Rightarrow> string \<Rightarrow> string \<Rightarrow> string" where
  "re_sub r repl s = concat (map (\<lambda>x. case x of Lit c \<Rightarrow> [c] | Hit _ _ \<Rightarrow> repl) (re_scan r None s))"

definition re_finditer :: "re \<Rightarrow> string \<Rightarrow> rstate list" where
  "re_finditer r s = concat (map (\<lambda>x. case x of Lit _ \<Rightarrow> [] | Hit _ st \<Rightarrow> [st]) (re_scan r None s))"

section \<open>Building patterns\<close>

definition chr_is :: "char \<Rightarrow> re" where
  "chr_is c = Cls (\<lambda>x. x = c)"

definition chr_ci :: "char \<Rightarrow> re" where
  "chr_ci c = Cls (\<lambda>x. lower_char x = lower_char c)"

primrec lit_str :: "string \<Rightarrow> re" where
  "lit_str [] = Eps"
| "lit_str (c # s) = Seq (chr_is c) (lit_str s)"

primrec lit_ci :: "string \<Rightarrow> re" where
  "lit_ci [] = Eps"
| "lit_ci (c # s) = Seq (chr_ci c) (lit_ci s)"

fun seq :: "re list \<Rightarrow> re" where
  "seq [] = Eps"
| "seq [r] = r"
| "seq (r # q # rs) = Seq r (seq (q # rs))"

fun alts :: "re list \<Rightarrow> re" where
  "alts [] = Cls (\<lambda>_. False)"
| "alts [r] = r"
| "alts (r # q # rs) = Alt r (alts (q # rs))"

primrec rep :: "nat \<Rightarrow> re \<Rightarrow> re" where
  "rep 0 r = Eps"
| "rep (Suc n) r = Seq r (rep n r)"

primrec up_to :: "nat \<Rightarrow> re \<Rightarrow> re" where
  "up_to 0 r = Eps"
| "up_to (Suc n) r = Opt True (Seq r (up_to n r))"

definition plus :: "re \<Rightarrow> re" where
  "plus r = Seq r (Star True r)"

definition many :: "re \<Rightarrow> re" where
  "many r = Star True r"

definition between :: "nat \<Rightarrow> nat \<Rightarrow> re \<Rightarrow> re" where
  "between m n r = Seq (rep m r) (up_to (n - m) r)"

definition in_str :: "string \<Rightarrow> char \<Rightarrow> bool" where
  "in_str cs c \<longleftrightarrow> c \<in> set cs"

definition is_upper :: "char \<Rightarrow> bool" where
  "is_upper c \<longleftrightarrow> (let n = (of_char c :: nat) in 65 \<le> n \<and> n \<le> 90)"

definition is_lower :: "char \<Rightarrow> bool" where
  "is_lower c \<longleftrightarrow> (let n = (of_char c :: nat) in 97 \<le> n \<and> n \<le> 122)"

definition is_alnum :: "char \<Rightarrow> bool" where
  "is_alnum c \<longleftrightarrow> is_upper c \<or> is_lower c \<or> is_digit c"

definition is_hex :: "char \<Rightarrow> bool" where
  "is_hex c \<longleftrightarrow> is_digit c \<or> in_str ''abcdefABCDEF'' c"

definition bslash :: char where "bslash = char_of (92 :: nat)"
definition dquote :: char where "dquote = char_of (34 :: nat)"
definition squote :: char where "squote = char_of (39 :: nat)"
definition newline :: char where "newline = char_of (10 :: nat)"
definition creturn :: char where "creturn = char_of (13 :: nat)"
definition tab :: char where "tab = char_of (9 :: nat)"

abbreviation "digit \<equiv> Cls is_digit"
abbreviation "space \<equiv> Cls is_space"
abbreviation "nonspace \<equiv> Cls (\<lambda>c. \<not> is_space c)"
abbreviation "hex \<equiv> Cls is_hex"
abbreviation "anychar \<equiv> Cls (\<lambda>_. True)"
abbreviation "anybut_nl \<equiv> Cls (\<lambda>c. c \<noteq> newline)"

section \<open>Declarative semantics\<close>

inductive star_sem ::
    "(char option \<Rightarrow> string \<Rightarrow> string \<Rightarrow> bool) \<Rightarrow> char option \<Rightarrow> string \<Rightarrow> string \<Rightarrow> bool" for R where
  star_nil: "star_sem R p [] rest"
| star_step: "R p u (v @ rest) \<Longrightarrow> u \<noteq> [] \<Longrightarrow> star_sem R (last_char p u) v rest \<Longrightarrow> star_sem R p (u @ v) rest"

primrec rsem :: "re \<Rightarrow> char option \<Rightarrow> string \<Rightarrow> string \<Rightarrow> bool" where
  "rsem (Cls f) p u rest = (\<exists>c. u = [c] \<and> f c)"
| "rsem Eps p u rest = (u = [])"
| "rsem (Seq a b) p u rest = (\<exists>v w. u = v @ w \<and> rsem a p v (w @ rest) \<and> rsem b (last_char p v) w rest)"
| "rsem (Alt a b) p u rest = (rsem a p u rest \<or> rsem b p u rest)"
| "rsem (Star g r) p u rest = star_sem (rsem r) p u rest"
| "rsem (Opt g r) p u rest = (rsem r p u rest \<or> u = [])"
| "rsem (Cap n r) p u rest = rsem r p u rest"
| "rsem Bos p u rest = (u = [] \<and> p = None)"
| "rsem Eos p u rest = (u = [] \<and> at_end rest)"
| "rsem WordB p u rest = (u = [] \<and> opt_word p \<noteq> opt_word (next_char rest))"
| "rsem (Ahead r) p u rest = (u = [] \<and> (\<exists>v w. rest = v @ w \<and> rsem r p v w))"

section \<open>Correctness of the matcher\<close>

text \<open>The outcomes of a run are the states from which its continuation is tried.\<close>

definition explains :: "(char option \<Rightarrow> string \<Rightarrow> string \<Rightarrow> bool) \<Rightarrow>
    (rstate \<Rightarrow> (rstate \<Rightarrow> rstate option) \<Rightarrow> rstate option) \<Rightarrow> bool" where
  "explains R f \<longleftrightarrow>
     (\<forall>p s caps k y. f (p, s, caps) k = Some y \<longrightarrow>
        (\<exists>u rest caps'. s = u @ rest \<and> R p u rest \<and> k (last_char p u, rest, caps') = Some y))
     \<and> (\<forall>p u rest caps k. R p u rest \<and> (\<forall>caps'. k (last_char p u, rest, caps') \<noteq> None)
          \<longrightarrow> f (p, u @ rest, caps) k \<noteq> None)"

lemma explainsD1:
  assumes "explains R f" "f (p, s, caps) k = Some y"
  obtains u rest caps' where "s = u @ rest" "R p u rest" "k (last_char p u, rest, caps') = Some y"
  using assms unfolding explains_def by blast

lemma explainsD2:
  assumes "explains R f" "R p u rest" "\<And>caps'. k (last_char p u, rest, caps') \<noteq> None"
  shows "f (p, u @ rest, caps) k \<noteq> None"
  using assms unfolding explains_def by blast

lemma last_char_simps [simp]:
  "last_char p [] = p" "last_char p [c] = Some c" "last_char (last_char p u) v = last_char p (u @ v)"
  by (simp_all add: last_char_def)

lemma or_else_Some: "or_else a b = Some y \<longleftrightarrow> a = Some y \<or> a = None \<and> b = Some y"
  by (cases a) (auto simp: or_else_def)

lemma or_else_None: "or_else a b = None \<longleftrightarrow> a = None \<and> b = None"
  by (cases a) (auto simp: or_else_def)

lemma rx_star_sound:
  assumes "explains R f" "rx_star n g f (p, s, caps) k = Some y"
  shows "\<exists>u rest caps'. s = u @ rest \<and> star_sem R p u rest \<and> k (last_char p u, rest, caps') = Some y"
  using assms(2)
proof (induction n arbitrary: p s caps)
  case 0
  then show ?case by (intro exI [of _ "[]"] exI [of _ s] exI [of _ caps]) (simp add: star_nil)
next
  case (Suc n)
  let ?k = "\<lambda>st'. if length (fst (snd st')) < length s then rx_star n g f st' k else None"
  from Suc.prems consider "k (p, s, caps) = Some y" | "f (p, s, caps) ?k = Some y"
    by (auto simp: Let_def or_else_Some split: if_splits)
  then show ?case
  proof cases
    case 1
    then show ?thesis by (intro exI [of _ "[]"] exI [of _ s] exI [of _ caps]) (simp add: star_nil)
  next
    case 2
    obtain u rest caps' where u: "s = u @ rest" "R p u rest" "?k (last_char p u, rest, caps') = Some y"
      by (rule explainsD1 [OF assms(1) 2])
    then have lt: "length rest < length s" and rec: "rx_star n g f (last_char p u, rest, caps') k = Some y"
      by (auto split: if_splits)
    from Suc.IH [OF rec] obtain v rest' caps'' where
      v: "rest = v @ rest'" "star_sem R (last_char p u) v rest'" "k (last_char p (u @ v), rest', caps'') = Some y"
      by auto
    have "star_sem R p (u @ v) rest'" using u(1,2) v(1,2) lt by (auto intro!: star_step)
    with u(1) v show ?thesis by (metis append.assoc)
  qed
qed

lemma rx_star_complete:
  assumes "explains R f" "star_sem R p u rest" "length (u @ rest) \<le> n"
    "\<And>caps'. k (last_char p u, rest, caps') \<noteq> None"
  shows "rx_star n g f (p, u @ rest, caps) k \<noteq> None"
  using assms(2-4)
proof (induction arbitrary: n caps rule: star_sem.induct)
  case (star_nil p rest)
  then show ?case by (cases n) (simp_all add: Let_def or_else_None del: not_None_eq)
next
  case (star_step p u v rest)
  then obtain m where n: "n = Suc m" by (cases n) auto
  have "rx_star m g f (last_char p u, v @ rest, caps') k \<noteq> None" for caps'
    using star_step.prems n star_step.hyps(2) by (intro star_step.IH) (cases u; simp)+
  then have "f (p, u @ (v @ rest), caps) (\<lambda>st'. if length (fst (snd st')) < length (u @ v @ rest)
      then rx_star m g f st' k else None) \<noteq> None"
    using star_step.hyps(2) by (intro explainsD2 [OF assms(1) star_step.hyps(1)]) auto
  then show ?case by (simp add: n Let_def or_else_None del: not_None_eq)
qed

lemma explains_star:
  assumes "explains R f"
  shows "explains (star_sem R) (\<lambda>st k. rx_star (length (fst (snd st))) g f st k)"
  unfolding explains_def [of "star_sem R"]
proof (intro conjI allI impI)
  fix p s caps y and k :: "rstate \<Rightarrow> rstate option"
  assume "rx_star (length (fst (snd (p, s, caps)))) g f (p, s, caps) k = Some y"
  then show "\<exists>u rest caps'. s = u @ rest \<and> star_sem R p u rest \<and> k (last_char p u, rest, caps') = Some y"
    by (rule rx_star_sound [OF assms])
next
  fix p u rest caps and k :: "rstate \<Rightarrow> rstate option"
  assume *: "star_sem R p u rest \<and> (\<forall>caps'. k (last_char p u, rest, caps') \<noteq> None)"
  show "rx_star (length (fst (snd (p, u @ rest, caps)))) g f (p, u @ rest, caps) k \<noteq> None"
    by (rule rx_star_complete [OF assms]) (use * in \<open>simp_all del: not_None_eq\<close>)
qed

lemma explains_seq:
  assumes "explains R f" "explains Q g"
  shows "explains (\<lambda>p u rest. \<exists>v w. u = v @ w \<and> R p v (w @ rest) \<and> Q (last_char p v) w rest)
    (\<lambda>st k. f st (\<lambda>st'. g st' k))"
  unfolding explains_def
proof (intro conjI allI impI)
  fix p s caps y and k :: "rstate \<Rightarrow> rstate option"
  assume "f (p, s, caps) (\<lambda>st'. g st' k) = Some y"
  then obtain v r1 c1 where 1: "s = v @ r1" "R p v r1" "g (last_char p v, r1, c1) k = Some y"
    by (rule explainsD1 [OF assms(1)])
  from 1(3) obtain w rest c2 where "r1 = w @ rest" "Q (last_char p v) w rest"
      "k (last_char (last_char p v) w, rest, c2) = Some y"
    by (rule explainsD1 [OF assms(2)])
  with 1 show "\<exists>u rest caps'. s = u @ rest \<and>
      (\<exists>v w. u = v @ w \<and> R p v (w @ rest) \<and> Q (last_char p v) w rest) \<and> k (last_char p u, rest, caps') = Some y"
    by (intro exI [of _ "v @ w"] exI [of _ rest] exI [of _ c2]) auto
next
  fix p u rest caps and k :: "rstate \<Rightarrow> rstate option"
  assume "(\<exists>v w. u = v @ w \<and> R p v (w @ rest) \<and> Q (last_char p v) w rest)
    \<and> (\<forall>caps'. k (last_char p u, rest, caps') \<noteq> None)"
  then obtain v w where u: "u = v @ w" "R p v (w @ rest)" "Q (last_char p v) w rest"
    and k: "\<And>caps'. k (last_char p u, rest, caps') \<noteq> None" by blast
  have "g (last_char p v, w @ rest, caps') k \<noteq> None" for caps'
    by (rule explainsD2 [OF assms(2) u(3)]) (use k u(1) in simp)
  then have "f (p, v @ (w @ rest), caps) (\<lambda>st'. g st' k) \<noteq> None"
    by (rule explainsD2 [OF assms(1) u(2)])
  then show "f (p, u @ rest, caps) (\<lambda>st'. g st' k) \<noteq> None" by (simp add: u(1))
qed

lemma explains_cap:
  assumes "explains R f"
  shows "explains R (\<lambda>st k. f st (\<lambda>st'. case (st, st') of ((_, s, _), (p', s', caps')) \<Rightarrow>
    k (p', s', AList.update n (take (length s - length s') s) caps')))"
  unfolding explains_def
proof (intro conjI allI impI)
  fix p s caps y and k :: "rstate \<Rightarrow> rstate option"
  assume "f (p, s, caps) (\<lambda>st'. case ((p, s, caps), st') of ((_, s, _), (p', s', caps')) \<Rightarrow>
    k (p', s', AList.update n (take (length s - length s') s) caps')) = Some y"
  then show "\<exists>u rest caps'. s = u @ rest \<and> R p u rest \<and> k (last_char p u, rest, caps') = Some y"
    by (rule explainsD1 [OF assms]) auto
next
  fix p u rest caps and k :: "rstate \<Rightarrow> rstate option"
  assume "R p u rest \<and> (\<forall>caps'. k (last_char p u, rest, caps') \<noteq> None)"
  then show "f (p, u @ rest, caps) (\<lambda>st'. case ((p, u @ rest, caps), st') of ((_, s, _), (p', s', caps')) \<Rightarrow>
      k (p', s', AList.update n (take (length s - length s') s) caps')) \<noteq> None"
    by (intro explainsD2 [OF assms]) auto
qed

lemma explains_alt:
  assumes "explains R f" "explains Q g"
  shows "explains (\<lambda>p u rest. R p u rest \<or> Q p u rest) (\<lambda>st k. or_else (f st k) (g st k))"
  unfolding explains_def or_else_Some or_else_None
proof (intro conjI allI impI)
  fix p s caps y and k :: "rstate \<Rightarrow> rstate option"
  assume "f (p, s, caps) k = Some y \<or> f (p, s, caps) k = None \<and> g (p, s, caps) k = Some y"
  then consider "f (p, s, caps) k = Some y" | "g (p, s, caps) k = Some y" by blast
  then show "\<exists>u rest caps'. s = u @ rest \<and> (R p u rest \<or> Q p u rest) \<and> k (last_char p u, rest, caps') = Some y"
    by cases (use assms [unfolded explains_def] in metis)+
next
  fix p u rest caps and k :: "rstate \<Rightarrow> rstate option"
  assume "(R p u rest \<or> Q p u rest) \<and> (\<forall>caps'. k (last_char p u, rest, caps') \<noteq> None)"
  then show "\<not> (f (p, u @ rest, caps) k = None \<and> g (p, u @ rest, caps) k = None)"
    using explainsD2 [OF assms(1)] explainsD2 [OF assms(2)] by metis
qed

lemma explains_eps: "explains (\<lambda>p u rest. u = []) (\<lambda>st k. k st)"
  unfolding explains_def by auto

lemma explains_guard:
  assumes "\<And>p s caps. c (p, s, caps) = P p s"
  shows "explains (\<lambda>p u rest. u = [] \<and> P p rest) (\<lambda>st k. if c st then k st else None)"
  unfolding explains_def by (auto simp: assms split: if_splits)

lemma explains_run: "explains (rsem r) (rx_run r)"
proof (induction r)
  case (Cls f)
  show ?case
    unfolding explains_def
    by (auto split: list.splits if_splits) (metis append_Cons append_Nil last_char_simps(2))
next
  case (Ahead r)
  show ?case
    unfolding explains_def
  proof (intro conjI allI impI)
    fix p s caps y and k :: "rstate \<Rightarrow> rstate option"
    assume "rx_run (Ahead r) (p, s, caps) k = Some y"
    then obtain z where z: "rx_run r (p, s, caps) Some = Some z" and k: "k (p, s, caps) = Some y"
      by (auto split: option.splits)
    obtain u rest c where "s = u @ rest" "rsem r p u rest" using explainsD1 [OF Ahead z] by metis
    with k show "\<exists>u rest caps'. s = u @ rest \<and> rsem (Ahead r) p u rest \<and> k (last_char p u, rest, caps') = Some y"
      by (intro exI [of _ "[]"] exI [of _ s] exI [of _ caps]) auto
  next
    fix p u rest caps and k :: "rstate \<Rightarrow> rstate option"
    assume "rsem (Ahead r) p u rest \<and> (\<forall>caps'. k (last_char p u, rest, caps') \<noteq> None)"
    then obtain v w where *: "u = []" "rest = v @ w" "rsem r p v w"
      and k: "\<forall>caps'. k (last_char p u, rest, caps') \<noteq> None" by auto
    have "rx_run r (p, v @ w, caps) Some \<noteq> None" by (rule explainsD2 [OF Ahead *(3)]) simp
    with * k show "rx_run (Ahead r) (p, u @ rest, caps) k \<noteq> None" by (auto split: option.splits)
  qed
next
  case Eps
  show ?case using explains_eps by (simp add: explains_def)
next
  case (Seq a b)
  from explains_seq [OF this] show ?case by (simp add: explains_def)
next
  case (Alt a b)
  from explains_alt [OF this] show ?case by (simp add: explains_def)
next
  case (Star g r)
  from explains_star [OF this, of g] show ?case by (simp add: explains_def)
next
  case (Opt g r)
  from explains_alt [OF this explains_eps] explains_alt [OF explains_eps this] show ?case
    by (cases g) (simp_all add: explains_def disj_commute)
next
  case (Cap n r)
  from explains_cap [OF this, of n] show ?case by (simp add: explains_def)
next
  case Bos
  have "rx_run Bos = (\<lambda>st k. if fst st = None then k st else None)" by (auto simp: fun_eq_iff)
  moreover have "rsem Bos = (\<lambda>p u rest. u = [] \<and> p = None)" by (auto simp: fun_eq_iff)
  ultimately show ?case using explains_guard [of "\<lambda>st. fst st = None" "\<lambda>p s. p = None"] by simp
next
  case Eos
  have "rx_run Eos = (\<lambda>st k. if at_end (fst (snd st)) then k st else None)" by (auto simp: fun_eq_iff)
  moreover have "rsem Eos = (\<lambda>p u rest. u = [] \<and> at_end rest)" by (auto simp: fun_eq_iff)
  ultimately show ?case
    using explains_guard [of "\<lambda>st. at_end (fst (snd st))" "\<lambda>p s. at_end s"] by simp
next
  case WordB
  have "rx_run WordB = (\<lambda>st k. if opt_word (fst st) \<noteq> opt_word (next_char (fst (snd st))) then k st else None)"
    by (auto simp: fun_eq_iff)
  moreover have "rsem WordB = (\<lambda>p u rest. u = [] \<and> opt_word p \<noteq> opt_word (next_char rest))"
    by (auto simp: fun_eq_iff)
  ultimately show ?case
    using explains_guard [of "\<lambda>st. opt_word (fst st) \<noteq> opt_word (next_char (fst (snd st)))"
        "\<lambda>p s. opt_word p \<noteq> opt_word (next_char s)"] by simp
qed

theorem rx_match_iff: "re_matches r s \<longleftrightarrow> (\<exists>u rest. s = u @ rest \<and> rsem r None u rest)"
proof
  assume "re_matches r s"
  then obtain y where "rx_run r (None, s, []) Some = Some y" by (auto simp: re_matches_def re_match_def)
  from explainsD1 [OF explains_run this] show "\<exists>u rest. s = u @ rest \<and> rsem r None u rest" by metis
next
  assume "\<exists>u rest. s = u @ rest \<and> rsem r None u rest"
  then obtain u rest where *: "s = u @ rest" "rsem r None u rest" by blast
  from explainsD2 [OF explains_run *(2), of Some] *(1) show "re_matches r s"
    by (simp add: re_matches_def re_match_def)
qed

theorem rx_fullmatch_iff: "re_fullmatch r s \<longleftrightarrow> rsem r None s []"
proof
  let ?k = "\<lambda>st :: rstate. if fst (snd st) = [] then Some st else None"
  assume "re_fullmatch r s"
  then obtain y where "rx_run r (None, s, []) ?k = Some y" by (auto simp: re_fullmatch_def)
  from explainsD1 [OF explains_run this] show "rsem r None s []" by (force split: if_splits)
next
  let ?k = "\<lambda>st :: rstate. if fst (snd st) = [] then Some st else None"
  assume "rsem r None s []"
  from explainsD2 [OF explains_run this, of ?k "[]"] show "re_fullmatch r s"
    by (simp add: re_fullmatch_def)
qed

text \<open>Pieces of a scan, in order, make up the subject.\<close>

lemma rx_run_suffix:
  assumes "rx_run r (p, s, caps) Some = Some st"
  shows "\<exists>u. s = u @ fst (snd st)"
  by (rule explainsD1 [OF explains_run assms]) auto

lemma re_scan_concat:
  "concat (map (\<lambda>x. case x of Lit c \<Rightarrow> [c] | Hit u _ \<Rightarrow> u) (re_scan r p s)) = s"
proof (induction r p s rule: re_scan.induct)
  case (2 r p c s)
  show ?case
  proof (cases "rx_run r (p, c # s, []) Some")
    case None
    with 2(1) show ?thesis by simp
  next
    case (Some st)
    let ?rest = "fst (snd st)"
    let ?u = "take (length (c # s) - length ?rest) (c # s)"
    from rx_run_suffix [OF Some] obtain u where "c # s = u @ ?rest" by blast
    then have u: "?u @ ?rest = c # s" by (simp only: length_append add_diff_cancel_right') simp
    show ?thesis
    proof (cases "length ?rest \<le> length s")
      case True
      then have "re_scan r p (c # s) = Hit ?u st # re_scan r (last_char p ?u) ?rest"
        using Some by (simp add: Let_def)
      with 2(2) [OF Some refl refl True] u show ?thesis by simp
    next
      case False
      then have "re_scan r p (c # s) = Lit c # re_scan r (Some c) s"
        using Some by (simp add: Let_def)
      with 2(3) [OF Some refl refl False] show ?thesis by simp
    qed
  qed
qed simp

section \<open>Repetitions of character classes\<close>

named_theorems rx_simps \<open>what the patterns built from character classes consume\<close>

lemma rsem_seq_class [rx_simps]:
  "rsem (Seq (Cls f) b) p u rest \<longleftrightarrow> (\<exists>c w. u = c # w \<and> f c \<and> rsem b (Some c) w rest)"
proof
  assume "\<exists>c w. u = c # w \<and> f c \<and> rsem b (Some c) w rest"
  then obtain c w where "u = [c] @ w" "f c" "rsem b (Some c) w rest" by auto
  then show "rsem (Seq (Cls f) b) p u rest" by (simp add: exI [of _ "[c]"])
qed auto

lemma rsem_many_class [rx_simps]: "rsem (many (Cls f)) p u rest \<longleftrightarrow> list_all f u"
proof -
  have "list_all f u" if "star_sem (rsem (Cls f)) p u rest"
    using that by (induction rule: star_sem.induct) auto
  moreover have "star_sem (rsem (Cls f)) p u rest" if "list_all f u" for p
    using that
  proof (induction u arbitrary: p)
    case Nil
    show ?case by (rule star_nil)
  next
    case (Cons c u)
    have "star_sem (rsem (Cls f)) (last_char p [c]) u rest" using Cons by (simp del: rsem.simps)
    moreover have "rsem (Cls f) p [c] (u @ rest)" using Cons.prems by simp
    ultimately have "star_sem (rsem (Cls f)) p ([c] @ u) rest" by (intro star_step) simp_all
    then show ?case by (simp del: rsem.simps)
  qed
  ultimately show ?thesis by (auto simp: many_def simp del: rsem.simps(1))
qed

lemma rsem_plus_class [rx_simps]: "rsem (plus (Cls f)) p u rest \<longleftrightarrow> u \<noteq> [] \<and> list_all f u"
  unfolding plus_def rsem_seq_class using rsem_many_class [unfolded many_def]
  by (cases u) (auto simp del: rsem.simps)

lemma rsem_rep_class [rx_simps]: "rsem (rep n (Cls f)) p u rest \<longleftrightarrow> length u = n \<and> list_all f u"
proof (induction n arbitrary: p u)
  case (Suc n)
  then show ?case by (cases u) (auto simp: rsem_seq_class simp del: rsem.simps(3))
qed auto

lemma rsem_lit_str [rx_simps]: "rsem (lit_str w) p u rest \<longleftrightarrow> u = w"
  by (induction w arbitrary: p u) (auto simp: chr_is_def rsem_seq_class simp del: rsem.simps(3))

lemma rsem_lit_ci [rx_simps]: "rsem (lit_ci w) p u rest \<longleftrightarrow> map lower_char u = map lower_char w"
  by (induction w arbitrary: p u) (auto simp: chr_ci_def rsem_seq_class map_eq_Cons_conv simp del: rsem.simps(3))

lemma rsem_chr_is [rx_simps]: "rsem (chr_is c) p u rest \<longleftrightarrow> u = [c]"
  by (auto simp: chr_is_def)

lemma at_end_Nil [simp]: "at_end []"
  by (simp add: at_end_def)

end
