(* ===== verification/TypeInfer.thy ===== *)
theory TypeInfer
  imports Regex ProfileTypes "HOL-Library.Word"
begin

text \<open>
  Type inference and template mining of the source profiler, \<open>ml/source_profiler/profiler.py\<close>.
  Each pattern of the source is the value of the same name. \<open>json_loads\<close> is the value a text
  denotes in JSON, or \<open>None\<close> where \<open>json.loads\<close> raises.
\<close>

section \<open>Type patterns\<close>

definition sign :: re where "sign = Opt True (Cls (in_str ''+-''))"

definition RE_INT :: re where
  "RE_INT = seq [Bos, sign, Alt (chr_is (CHR ''0'')) (Seq (Cls (in_str ''123456789'')) (many digit)), Eos]"

definition RE_FLOAT :: re where
  "RE_FLOAT = seq [Bos, sign,
     Alt (seq [plus digit, chr_is (CHR ''.''), plus digit])
         (seq [plus digit, Opt True (Seq (chr_is (CHR ''.'')) (plus digit)), Cls (in_str ''eE''), sign, plus digit]),
     Eos]"

definition RE_BOOLEAN :: re where
  "RE_BOOLEAN = seq [Bos, alts (map lit_ci [''true'', ''false'', ''yes'', ''no'', ''on'', ''off'']), Eos]"

definition RE_NULL :: re where
  "RE_NULL = seq [Bos, alts (map lit_ci [''null'', ''none'', ''nil'', ''n/a'', ''na'', ''-'']), Eos]"

definition RE_MAC :: re where
  "RE_MAC = seq [Bos, rep 5 (seq [rep 2 hex, Cls (in_str '':-'')]), rep 2 hex, Eos]"

definition RE_UUID :: re where
  "RE_UUID = seq [Bos, rep 8 hex, chr_is (CHR ''-''), rep 4 hex, chr_is (CHR ''-''),
     Cls (in_str ''12345''), rep 3 hex, chr_is (CHR ''-''), Cls (in_str ''89abAB''), rep 3 hex,
     chr_is (CHR ''-''), rep 12 hex, Eos]"

definition email_local :: "char \<Rightarrow> bool" where "email_local c \<longleftrightarrow> is_alnum c \<or> in_str ''_.+-'' c"
definition email_host :: "char \<Rightarrow> bool" where "email_host c \<longleftrightarrow> is_alnum c \<or> c = CHR ''-''"
definition email_tld :: "char \<Rightarrow> bool" where "email_tld c \<longleftrightarrow> is_alnum c \<or> in_str ''-.'' c"

definition RE_EMAIL :: re where
  "RE_EMAIL = seq [Bos, plus (Cls email_local), chr_is (CHR ''@''), plus (Cls email_host),
     chr_is (CHR ''.''), plus (Cls email_tld), Eos]"

definition RE_URL :: re where
  "RE_URL = seq [Bos,
     alts [Seq (lit_ci ''http'') (Opt True (chr_ci (CHR ''s''))), lit_ci ''ftp'', lit_ci ''sftp'', lit_ci ''ws'', lit_ci ''wss''],
     lit_ci ''://'', Cls (\<lambda>c. \<not> is_space c \<and> \<not> in_str ''/$.?#'' c), anybut_nl, many nonspace, Eos]"

definition time_of_day :: re where
  "time_of_day = seq [rep 2 digit, chr_is (CHR '':''), rep 2 digit, chr_is (CHR '':''), rep 2 digit]"

definition iso_body :: re where
  "iso_body = seq [rep 4 digit, chr_is (CHR ''-''), rep 2 digit, chr_is (CHR ''-''), rep 2 digit,
     Cls (in_str ''T ''), time_of_day, Opt True (Seq (chr_is (CHR ''.'')) (plus digit)),
     Opt True (Alt (chr_is (CHR ''Z''))
       (seq [Cls (in_str ''+-''), rep 2 digit, Opt True (chr_is (CHR '':'')), rep 2 digit]))]"

definition RE_ISO8601 :: re where "RE_ISO8601 = seq [Bos, iso_body, Eos]"

definition syslog_date :: re where
  "syslog_date = seq [Cls is_upper, rep 2 (Cls is_lower), plus space, between 1 2 digit, plus space, time_of_day]"

definition RE_SYSLOG_DATE :: re where
  "RE_SYSLOG_DATE = seq [Bos, syslog_date, Opt True (Seq (chr_is (CHR ''.'')) (plus digit)), Eos]"

definition RE_HTTP_DATE :: re where
  "RE_HTTP_DATE = seq [Bos, rep 2 digit, chr_is (CHR ''/''), rep 3 (Cls (\<lambda>c. is_upper c \<or> is_lower c)),
     chr_is (CHR ''/''), rep 4 digit, chr_is (CHR '':''), time_of_day, plus space,
     Cls (in_str ''+-''), rep 4 digit, Eos]"

definition RE_UNIX_TIMESTAMP :: re where
  "RE_UNIX_TIMESTAMP = seq [Bos, chr_is (CHR ''1''), rep 9 digit,
     Opt True (Seq (chr_is (CHR ''.'')) (plus digit)), Eos]"

definition RE_UNIX_TIMESTAMP_MS :: re where
  "RE_UNIX_TIMESTAMP_MS = seq [Bos, Cls (in_str ''12''), rep 12 digit, Eos]"

definition octet :: re where
  "octet = alts [seq [lit_str ''25'', Cls (in_str ''012345'')], seq [chr_is (CHR ''2''), Cls (in_str ''01234''), digit],
     seq [chr_is (CHR ''1''), digit, digit], seq [Opt True (Cls (in_str ''123456789'')), digit]]"

definition RE_MASK_IPV4 :: re where
  "RE_MASK_IPV4 = seq [WordB, octet, rep 3 (seq [chr_is (CHR ''.''), octet]), WordB]"

section \<open>Addresses and numbers\<close>

text \<open>\<open>ipaddress.IPv4Address(s)\<close> and \<open>ipaddress.IPv6Address(s)\<close> accept the text.\<close>

definition octet_ok :: "string \<Rightarrow> bool" where
  "octet_ok o' \<longleftrightarrow> o' \<noteq> [] \<and> list_all is_digit o' \<and> length o' \<le> 3
     \<and> (o' = ''0'' \<or> hd o' \<noteq> CHR ''0'') \<and> foldl (\<lambda>n c. 10 * n + digit_val c) 0 o' \<le> 255"

definition ipv4_ok :: "string \<Rightarrow> bool" where
  "ipv4_ok s \<longleftrightarrow> CHR ''/'' \<notin> set s \<and> (let ps = str_split (CHR ''.'') s in length ps = 4 \<and> list_all octet_ok ps)"

definition hextet_ok :: "string \<Rightarrow> bool" where
  "hextet_ok h \<longleftrightarrow> h \<noteq> [] \<and> list_all is_hex h \<and> length h \<le> 4"

definition inner_empties :: "string list \<Rightarrow> nat list" where
  "inner_empties ps = filter (\<lambda>i. ps ! i = []) [1..<length ps - 1]"

definition ipv6_parts_ok :: "string list \<Rightarrow> bool" where
  "ipv6_parts_ok ps \<longleftrightarrow> length ps \<le> 9 \<and>
     (case inner_empties ps of
        [] \<Rightarrow> length ps = 8 \<and> list_all hextet_ok ps
      | [i] \<Rightarrow>
          (let hi = (if hd ps = [] then i - 1 else i);
               lo = (if last ps = [] then length ps - i - 2 else length ps - i - 1)
           in (hd ps = [] \<longrightarrow> hi = 0) \<and> (last ps = [] \<longrightarrow> lo = 0) \<and> hi + lo < 8
              \<and> list_all hextet_ok (take hi ps) \<and> list_all hextet_ok (drop (length ps - lo) ps))
      | _ \<Rightarrow> False)"

definition ipv6_ok :: "string \<Rightarrow> bool" where
  "ipv6_ok s \<longleftrightarrow> CHR ''/'' \<notin> set s \<and>
     (let addr = takeWhile (\<lambda>c. c \<noteq> CHR ''%'') s; scope = drop (length addr) s;
          ps = str_split (CHR '':'') addr
      in (scope = [] \<or> (tl scope \<noteq> [] \<and> CHR ''%'' \<notin> set (tl scope)))
         \<and> addr \<noteq> [] \<and> 3 \<le> length ps
         \<and> (if CHR ''.'' \<in> set (last ps)
            then ipv4_ok (last ps) \<and> ipv6_parts_ok (butlast ps @ [''0'', ''0''])
            else ipv6_parts_ok ps))"

text \<open>
  \<open>float(s)\<close> of a decimal text: sign, digits, fraction, exponent; beyond the largest float the
  result is an infinity.
\<close>

definition digits_val :: "string \<Rightarrow> rat" where
  "digits_val s = foldl (\<lambda>n c. 10 * n + of_nat (digit_val c)) 0 s"

definition to_float :: "rat \<Rightarrow> pyval" where
  "to_float x = (let y = fl x in
     if 2 ^ 1024 \<le> y then PNonFinite PosInf else if y \<le> - (2 ^ 1024) then PNonFinite NegInf else PFloat y)"

definition parse_float :: "string \<Rightarrow> pyval" where
  "parse_float s =
     (let neg = str_startswith s ''-'';
          body = (if neg \<or> str_startswith s ''+'' then tl s else s);
          mant = takeWhile (\<lambda>c. \<not> in_str ''eE'' c) body;
          ex = drop (length mant + 1) body;
          int_part = takeWhile (\<lambda>c. c \<noteq> CHR ''.'') mant;
          frac = drop (length int_part + 1) mant;
          e = (if str_startswith ex ''-'' then - \<lfloor>digits_val (tl ex)\<rfloor>
               else if str_startswith ex ''+'' then \<lfloor>digits_val (tl ex)\<rfloor> else \<lfloor>digits_val ex\<rfloor>);
          x = digits_val (int_part @ frac) * 10 powi (e - int (length frac))
      in to_float (if neg then - x else x))"

section \<open>Inference\<close>

definition is_epoch :: "string \<Rightarrow> bool" where
  "is_epoch s \<longleftrightarrow> (re_matches RE_UNIX_TIMESTAMP s \<or> re_matches RE_UNIX_TIMESTAMP_MS s) \<and>
     (case parse_float s of
        PFloat num \<Rightarrow> 946684800 \<le> num \<and> num \<le> 4102444800 \<or> 946684800000 \<le> num \<and> num \<le> 4102444800000
      | _ \<Rightarrow> False)"

definition bracketed :: "char \<Rightarrow> char \<Rightarrow> string \<Rightarrow> bool" where
  "bracketed a b s \<longleftrightarrow> str_startswith s [a] \<and> str_endswith s [b]"

definition infer_text :: "(string \<Rightarrow> pyval option) \<Rightarrow> string \<Rightarrow> DataType" where
  "infer_text json_loads s =
     (if s = [] then DT_NULL
      else if re_matches RE_NULL s then DT_NULL
      else if re_matches RE_BOOLEAN s then DT_BOOLEAN
      else if re_matches RE_INT s then DT_INTEGER
      else if re_matches RE_FLOAT s then DT_FLOAT
      else if re_matches RE_MAC s then DT_MAC_ADDRESS
      else if CHR ''.'' \<in> set s \<and> re_fullmatch RE_MASK_IPV4 s \<and> ipv4_ok s then DT_IPV4
      else if CHR '':'' \<in> set s \<and> ipv6_ok s then DT_IPV6
      else if re_matches RE_UUID s then DT_UUID
      else if re_matches RE_EMAIL s then DT_EMAIL
      else if re_matches RE_URL s then DT_URL
      else if re_matches RE_ISO8601 s \<or> re_matches RE_SYSLOG_DATE s \<or> re_matches RE_HTTP_DATE s then DT_TIMESTAMP
      else if is_epoch s then DT_TIMESTAMP
      else if bracketed (CHR ''{'') (CHR ''}'') s \<or> bracketed (CHR ''['') (CHR '']'') s
      then (case json_loads s of
              Some (PDict _) \<Rightarrow> DT_JSON
            | Some (PList _) \<Rightarrow> DT_ARRAY
            | _ \<Rightarrow> DT_STRING)
      else DT_STRING)"

fun infer_type :: "(string \<Rightarrow> pyval option) \<Rightarrow> pyval \<Rightarrow> DataType" where
  "infer_type json_loads PNone = DT_NULL"
| "infer_type json_loads (PBool _) = DT_BOOLEAN"
| "infer_type json_loads (PInt _) = DT_INTEGER"
| "infer_type json_loads (PFloat _) = DT_FLOAT"
| "infer_type json_loads (PNonFinite _) = DT_FLOAT"
| "infer_type json_loads (PDict _) = DT_JSON"
| "infer_type json_loads (PList _) = DT_ARRAY"
| "infer_type json_loads (PStr s) = infer_text json_loads (str_strip s)"

section \<open>Template mining\<close>

definition RE_MASK_ISO8601 :: re where "RE_MASK_ISO8601 = seq [WordB, iso_body, WordB]"

definition month_name :: re where
  "month_name = alts (map lit_str [''Jan'', ''Feb'', ''Mar'', ''Apr'', ''May'', ''Jun'', ''Jul'', ''Aug'',
     ''Sep'', ''Oct'', ''Nov'', ''Dec''])"

definition RE_MASK_SYSLOG_DATE :: re where
  "RE_MASK_SYSLOG_DATE = seq [WordB, month_name, plus space, between 1 2 digit, plus space, time_of_day, WordB]"

definition RE_MASK_HTTP_DATE :: re where
  "RE_MASK_HTTP_DATE = seq [WordB, rep 2 digit, chr_is (CHR ''/''), month_name, chr_is (CHR ''/''),
     rep 4 digit, chr_is (CHR '':''), time_of_day, plus space, Cls (in_str ''+-''), rep 4 digit, WordB]"

definition RE_MASK_UUID :: re where
  "RE_MASK_UUID = seq [WordB, rep 8 hex, chr_is (CHR ''-''), rep 4 hex, chr_is (CHR ''-''), rep 4 hex,
     chr_is (CHR ''-''), rep 4 hex, chr_is (CHR ''-''), rep 12 hex, WordB]"

definition RE_MASK_IPV6 :: re where
  "RE_MASK_IPV6 = alts [
     seq [WordB, rep 7 (Seq (between 1 4 hex) (chr_is (CHR '':''))), between 1 4 hex, WordB],
     seq [WordB, between 1 7 (Seq (between 1 4 hex) (chr_is (CHR '':''))), chr_is (CHR '':'')],
     seq [chr_is (CHR '':''), between 1 7 (Seq (chr_is (CHR '':'')) (between 1 4 hex)), WordB]]"

definition RE_MASK_MAC :: re where
  "RE_MASK_MAC = seq [WordB, rep 5 (seq [rep 2 hex, Cls (in_str '':-'')]), rep 2 hex, WordB]"

definition RE_MASK_URL :: re where
  "RE_MASK_URL = seq [WordB,
     alts [Seq (lit_ci ''http'') (Opt True (chr_ci (CHR ''s''))), lit_ci ''ftp'', lit_ci ''sftp''],
     lit_ci ''://'', plus nonspace]"

definition RE_MASK_EMAIL :: re where
  "RE_MASK_EMAIL = seq [WordB, plus (Cls email_local), chr_is (CHR ''@''), plus (Cls email_host),
     chr_is (CHR ''.''), plus (Cls email_tld), WordB]"

definition win_char :: "char \<Rightarrow> bool" where
  "win_char c \<longleftrightarrow> \<not> in_str ([bslash, dquote, creturn, newline] @ ''/:*?<>|'') c"

definition RE_MASK_WIN_PATH :: re where
  "RE_MASK_WIN_PATH = seq [WordB, Cls (\<lambda>c. is_upper c \<or> is_lower c), chr_is (CHR '':''), chr_is bslash,
     many (Seq (plus (Cls win_char)) (chr_is bslash)), many (Cls win_char)]"

definition path_step :: re where
  "path_step = Seq (chr_is (CHR ''/'')) (plus (Cls (\<lambda>c. is_alnum c \<or> in_str ''_.-'' c)))"

definition RE_MASK_UNIX_PATH :: re where
  "RE_MASK_UNIX_PATH = seq [rep 2 path_step, many path_step]"

definition RE_MASK_HEX :: re where
  "RE_MASK_HEX = Alt (seq [WordB, lit_str ''0x'', plus hex, WordB]) (seq [WordB, between 16 64 hex, WordB])"

definition quoted :: "char \<Rightarrow> re" where
  "quoted q = seq [chr_is q, many (Cls (\<lambda>c. c \<noteq> q \<and> c \<noteq> bslash)),
     many (seq [chr_is bslash, anybut_nl, many (Cls (\<lambda>c. c \<noteq> q \<and> c \<noteq> bslash))]), chr_is q]"

definition RE_MASK_QUOTED :: re where
  "RE_MASK_QUOTED = Alt (quoted dquote) (quoted squote)"

definition RE_MASK_NUMBERS :: re where
  "RE_MASK_NUMBERS = Alt (seq [WordB, plus digit, chr_is (CHR ''.''), plus digit, WordB]) (seq [WordB, plus digit, WordB])"

definition mask_steps :: "(re \<times> string) list" where
  "mask_steps = [(RE_MASK_URL, ''<URL>''), (RE_MASK_EMAIL, ''<EMAIL>''), (RE_MASK_ISO8601, ''<TIMESTAMP>''),
     (RE_MASK_HTTP_DATE, ''<TIMESTAMP>''), (RE_MASK_SYSLOG_DATE, ''<TIMESTAMP>''), (RE_MASK_UUID, ''<UUID>''),
     (RE_MASK_MAC, ''<MAC>''), (RE_MASK_IPV4, ''<IP>''), (RE_MASK_IPV6, ''<IP>''),
     (RE_MASK_WIN_PATH, ''<PATH>''), (RE_MASK_UNIX_PATH, ''<PATH>''), (RE_MASK_HEX, ''<HEX>''),
     (RE_MASK_QUOTED, [dquote] @ ''<STR>'' @ [dquote]), (RE_MASK_NUMBERS, ''<NUM>'')]"

definition mask_message :: "string \<Rightarrow> string" where
  "mask_message message =
     (if message = [] then []
      else str_strip (re_sub (plus space) '' '' (foldl (\<lambda>text (r, repl). re_sub r repl text) message mask_steps)))"

definition template_hash :: "string \<Rightarrow> 32 word" where
  "template_hash pattern = foldl (\<lambda>h c. h * 31 + of_nat (of_char c)) 0 pattern"

definition hex_char :: "nat \<Rightarrow> char" where
  "hex_char n = char_of (if n < 10 then 48 + n else 87 + n)"

primrec hex_digits :: "nat \<Rightarrow> int \<Rightarrow> string" where
  "hex_digits 0 n = []"
| "hex_digits (Suc w) n = hex_digits w (n div 16) @ [hex_char (nat (n mod 16))]"

definition generate_template_id :: "string \<Rightarrow> string" where
  "generate_template_id pattern = ''tpl_'' @ hex_digits 8 (uint (template_hash pattern))"

section \<open>Lemmas\<close>

lemma strip_last: "str_strip v \<noteq> [] \<Longrightarrow> \<not> is_space (last (str_strip v))"
  by (simp add: str_strip_def rstrip_by_def last_rev hd_dropWhile)

lemma newline_space: "is_space newline"
  by code_simp

text \<open>On a stripped text the end anchor is the end of the text.\<close>

lemma stripped_at_end:
  assumes "str_strip v = u @ rest" "u \<noteq> []" "at_end rest"
  shows "rest = []"
  using assms strip_last [of v] newline_space by (auto simp: at_end_def newline_def)

lemma rsem_seq_bos [rx_simps]: "rsem (Seq Bos b) None u rest \<longleftrightarrow> rsem b None u rest"
  by auto

lemma rsem_seq_eos [rx_simps]: "rsem (Seq b Eos) p u rest \<longleftrightarrow> rsem b p u rest \<and> at_end rest"
  by auto

lemma digit_class: "is_digit (CHR ''1'')" "in_str ''123456789'' (CHR ''1'')" "in_str ''123456789'' (CHR ''2'')"
  by code_simp+

lemma RE_INT_digits:
  assumes "in_str ''123456789'' c" "list_all is_digit ds"
  shows "re_matches RE_INT (c # ds)"
proof -
  have "rsem (Seq (Cls (in_str ''123456789'')) (many digit)) p (c # ds) []" for p
    using assms by (simp only: rx_simps) blast
  then have "rsem (Seq (Alt (chr_is (CHR ''0'')) (Seq (Cls (in_str ''123456789'')) (many digit))) Eos) p (c # ds) []" for p
    by (simp only: rsem_seq_eos rsem.simps(4)) simp
  then have "rsem RE_INT None ([] @ (c # ds)) []"
    unfolding RE_INT_def seq.simps rsem_seq_bos sign_def
    by (subst rsem.simps(3), intro exI [of _ "[]"] exI [of _ "c # ds"]) (simp del: rsem.simps(3))
  then show ?thesis unfolding rx_match_iff by (metis append.right_neutral append_Nil)
qed

lemma RE_FLOAT_decimal:
  assumes "ds \<noteq> []" "list_all is_digit ds" "fs \<noteq> []" "list_all is_digit fs"
  shows "re_matches RE_FLOAT (ds @ CHR ''.'' # fs)"
proof -
  have "rsem (Seq (chr_is (CHR ''.'')) (plus digit)) p (CHR ''.'' # fs) rest" for p rest
    unfolding chr_is_def rsem_seq_class rsem_plus_class using assms by simp
  then have "rsem (Seq (plus digit) (Seq (chr_is (CHR ''.'')) (plus digit))) p (ds @ CHR ''.'' # fs) rest" for p rest
    using assms by (subst rsem.simps(3), intro exI [of _ ds] exI [of _ "CHR ''.'' # fs"])
      (simp add: rsem_plus_class del: rsem.simps(3))
  then have "rsem RE_FLOAT None ([] @ (ds @ CHR ''.'' # fs)) []"
    unfolding RE_FLOAT_def seq.simps rsem_seq_bos sign_def
    by (subst rsem.simps(3), intro exI [of _ "[]"] exI [of _ "ds @ CHR ''.'' # fs"])
      (simp add: rsem_seq_eos del: rsem.simps(3))
  then show ?thesis unfolding rx_match_iff by (metis append.right_neutral append_Nil)
qed

lemma rsem_alts_lit_ci: "ws \<noteq> [] \<Longrightarrow> rsem (alts (map lit_ci ws)) p u rest \<longleftrightarrow> map lower_char u \<in> map lower_char ` set ws"
  by (induction ws rule: induct_list012) (auto simp: rx_simps)

text \<open>A text that starts with a digit is neither a null nor a boolean word.\<close>

lemma word_pattern_head:
  assumes "re_matches (seq [Bos, alts (map lit_ci ws), Eos]) s" "ws \<noteq> []" "[] \<notin> set ws"
  shows "\<exists>w\<in>set ws. s \<noteq> [] \<and> lower_char (hd s) = lower_char (hd w)"
proof -
  obtain u rest where s: "s = u @ rest" and "rsem (alts (map lit_ci ws)) None u rest"
    using assms(1) by (auto simp: rx_match_iff rsem_seq_eos rsem_seq_bos simp del: rsem.simps(3))
  then obtain w where w: "w \<in> set ws" "map lower_char u = map lower_char w"
    using rsem_alts_lit_ci [OF assms(2)] by auto
  then have "u \<noteq> []" using assms(3) by auto
  with w s show ?thesis by (metis (no_types, opaque_lifting) hd_append2 list.map_disc_iff list.map_sel(1) append_is_Nil_conv)
qed

lemma digit_lower: "lower_char (CHR ''1'') = CHR ''1''" "lower_char (CHR ''2'') = CHR ''2''"
  by code_simp+

lemma not_word:
  assumes "c = CHR ''1'' \<or> c = CHR ''2''"
  shows "\<not> re_matches RE_NULL (c # s)" "\<not> re_matches RE_BOOLEAN (c # s)"
proof -
  have "list_all (\<lambda>w. w \<noteq> [] \<and> lower_char (hd w) \<noteq> CHR ''1'' \<and> lower_char (hd w) \<noteq> CHR ''2'')
      [''null'', ''none'', ''nil'', ''n/a'', ''na'', ''-'']"
    "list_all (\<lambda>w. w \<noteq> [] \<and> lower_char (hd w) \<noteq> CHR ''1'' \<and> lower_char (hd w) \<noteq> CHR ''2'')
      [''true'', ''false'', ''yes'', ''no'', ''on'', ''off'']" by code_simp+
  note l = this [unfolded list_all_iff]
  have "lower_char c = c" using assms digit_lower by auto
  then show "\<not> re_matches RE_NULL (c # s)"
    unfolding RE_NULL_def using assms l(1) word_pattern_head [of _ "c # s"] by (metis list.distinct(1) list.sel(1))
  show "\<not> re_matches RE_BOOLEAN (c # s)"
    unfolding RE_BOOLEAN_def using assms l(2) \<open>lower_char c = c\<close> word_pattern_head [of _ "c # s"]
    by (metis list.distinct(1) list.sel(1))
qed

lemma epoch_form:
  assumes "re_matches RE_UNIX_TIMESTAMP (str_strip v) \<or> re_matches RE_UNIX_TIMESTAMP_MS (str_strip v)"
  obtains (whole) c ds where "str_strip v = c # ds" "c = CHR ''1'' \<or> c = CHR ''2''" "list_all is_digit ds"
  | (fraction) ds fs where "str_strip v = (CHR ''1'' # ds) @ CHR ''.'' # fs" "list_all is_digit ds"
      "fs \<noteq> []" "list_all is_digit fs"
proof -
  from assms consider
    u rest where "str_strip v = u @ rest" "rsem RE_UNIX_TIMESTAMP None u rest"
  | u rest where "str_strip v = u @ rest" "rsem RE_UNIX_TIMESTAMP_MS None u rest"
    unfolding rx_match_iff by blast
  then show thesis
  proof cases
    case 1
    from 1(2) obtain x y where "u = CHR ''1'' # x @ y" "list_all is_digit x" "at_end rest"
      and y: "y = [] \<or> (\<exists>fs. y = CHR ''.'' # fs \<and> fs \<noteq> [] \<and> list_all is_digit fs)"
      unfolding RE_UNIX_TIMESTAMP_def seq.simps rsem_seq_bos
      by (auto simp: chr_is_def rsem_seq_class rsem_rep_class rsem_plus_class)
    with 1(1) have "str_strip v = CHR ''1'' # x @ y" using stripped_at_end [of v u rest] by simp
    with y \<open>list_all is_digit x\<close> show thesis using whole fraction by (metis append.right_neutral append_Cons)
  next
    case 2
    from 2(2) obtain c x where "u = c # x" "in_str ''12'' c" "list_all is_digit x" "at_end rest"
      unfolding RE_UNIX_TIMESTAMP_MS_def seq.simps rsem_seq_bos
      by (auto simp: rsem_rep_class)
    with 2(1) show thesis using whole [of c x] stripped_at_end [of v u rest] by (auto simp: in_str_def)
  qed
qed

lemma hex_digits_length [simp]: "length (hex_digits w n) = w"
  by (induction w arbitrary: n) auto

lemma hex_char_inject: "a < 16 \<Longrightarrow> b < 16 \<Longrightarrow> hex_char a = hex_char b \<longleftrightarrow> a = b"
proof -
  assume ab: "a < 16" "b < 16"
  then have c: "of_char (hex_char a) = (if a < 10 then 48 + a else 87 + a)"
    "of_char (hex_char b) = (if b < 10 then 48 + b else 87 + b)" by (simp_all add: hex_char_def)
  show ?thesis
  proof
    assume "hex_char a = hex_char b"
    with c have "(if a < 10 then 48 + a else 87 + a) = (if b < 10 then 48 + b else 87 + b)" by metis
    with ab show "a = b" by (simp split: if_split_asm)
  qed simp
qed

lemma hex_digits_inject:
  "0 \<le> m \<Longrightarrow> m < 16 ^ w \<Longrightarrow> 0 \<le> n \<Longrightarrow> n < 16 ^ w \<Longrightarrow> hex_digits w m = hex_digits w n \<longleftrightarrow> m = n"
proof (induction w arbitrary: m n)
  case (Suc w)
  then have "m div 16 < 16 ^ w" "n div 16 < 16 ^ w" "0 \<le> m div 16" "0 \<le> n div 16"
    by (auto simp: div_less_iff_less_mult mult.commute)
  with Suc.IH have "hex_digits w (m div 16) = hex_digits w (n div 16) \<longleftrightarrow> m div 16 = n div 16" by blast
  moreover have "hex_char (nat (m mod 16)) = hex_char (nat (n mod 16)) \<longleftrightarrow> m mod 16 = n mod 16"
    by (subst hex_char_inject) (auto simp: nat_less_iff)
  ultimately show ?case by (auto, metis div_mult_mod_eq)
qed simp

section \<open>Properties\<close>

text \<open>
  Unix times are never timestamps: a text of the form that the timestamp patterns for Unix
  times accept is inferred to be an integer or a float, since the numeric patterns are tried
  first; the later check for Unix times cannot apply.
\<close>

theorem epoch_inferred_as_number:
  assumes "re_matches RE_UNIX_TIMESTAMP (str_strip v) \<or> re_matches RE_UNIX_TIMESTAMP_MS (str_strip v)"
  shows "infer_type json_loads (PStr v) \<in> {DT_INTEGER, DT_FLOAT}"
  using assms
proof (cases rule: epoch_form)
  case (whole c ds)
  then have "re_matches RE_INT (str_strip v)" using RE_INT_digits digit_class by auto
  then show ?thesis using whole not_word [of c ds] by (simp add: infer_text_def)
next
  case (fraction ds fs)
  then have "re_matches RE_FLOAT (str_strip v)"
    using RE_FLOAT_decimal [of "CHR ''1'' # ds" fs] digit_class by simp
  then show ?thesis using fraction not_word [of "CHR ''1''" "ds @ CHR ''.'' # fs"] by (simp add: infer_text_def)
qed

text \<open>
  Template identifiers: every identifier is the prefix and eight hexadecimal digits, and
  two patterns share an identifier exactly when their 32-bit hashes agree.
\<close>

theorem template_id_faithful:
  "length (generate_template_id p) = 12 \<and> take 4 (generate_template_id p) = ''tpl_''
   \<and> (generate_template_id p = generate_template_id q \<longleftrightarrow> template_hash p = template_hash q)"
proof -
  have "0 \<le> uint h \<and> uint h < 16 ^ 8" for h :: "32 word"
    using unsigned_less [of h, where ?'a = int] by simp
  then show ?thesis by (simp add: generate_template_id_def hex_digits_inject word_uint_eq_iff)
qed

theorem epoch_inferred_as_number_witness:
  "infer_type (\<lambda>_. None) (PStr ''1700000000'') \<in> {DT_INTEGER, DT_FLOAT}"
proof -
  have "re_matches RE_UNIX_TIMESTAMP (str_strip ''1700000000'')" by code_simp
  then show ?thesis using epoch_inferred_as_number by blast
qed

end
