(* ===== verification/LogParsers.thy ===== *)
theory LogParsers
  imports TypeInfer
begin

text \<open>
  The format parsers of the source profiler, \<open>ml/source_profiler/profiler.py\<close>: CEF, LEEF, both
  syslog formats, JSON, key-value and CSV. A parser returns \<open>None\<close> where the source returns
  \<open>None\<close>; those that can raise return a result. \<open>json_loads\<close> is as in \<open>TypeInfer\<close>.
\<close>

section \<open>Shared text operations\<close>

definition prefixed :: "string \<Rightarrow> string list \<Rightarrow> bool" where
  "prefixed s ps = list_ex (str_startswith s) ps"

definition enclosed :: "char \<Rightarrow> string \<Rightarrow> bool" where
  "enclosed q v \<longleftrightarrow> str_startswith v [q] \<and> str_endswith v [q]"

text \<open>\<open>v[1:-1]\<close> of a quoted value.\<close>

definition unquote :: "string \<Rightarrow> string" where
  "unquote v = (if enclosed dquote v \<or> enclosed squote v then butlast (tl v) else v)"

definition unescape_header :: "string \<Rightarrow> string" where
  "unescape_header v = str_replace [bslash, bslash] [bslash] (str_replace [bslash, CHR ''|''] ''|'' v)"

text \<open>\<open>s.split(sep)\<close> for a non-empty separator.\<close>

function split_on :: "string \<Rightarrow> string \<Rightarrow> string \<Rightarrow> string list" where
  "split_on sep acc [] = [rev acc]"
| "split_on sep acc (c # s) =
     (if sep \<noteq> [] \<and> str_startswith (c # s) sep
      then rev acc # split_on sep [] (drop (length sep) (c # s))
      else split_on sep (c # acc) s)"
  by pat_completeness auto
termination
  by (relation "measure (\<lambda>(sep, acc, s). length s)") auto

section \<open>CEF\<close>

definition hdr_char :: "char \<Rightarrow> bool" where
  "hdr_char c \<longleftrightarrow> c \<noteq> bslash \<and> c \<noteq> CHR ''|''"

definition hdr_field :: "nat \<Rightarrow> re" where
  "hdr_field n = Cap n (Seq (many (Cls hdr_char)) (many (seq [chr_is bslash, anychar, many (Cls hdr_char)])))"

abbreviation "bar \<equiv> chr_is (CHR ''|'')"

definition CEF_HEADER_REGEX :: re where
  "CEF_HEADER_REGEX = seq [Bos, lit_str ''CEF:'', many space, Cap 1 (plus digit), many space, bar,
     hdr_field 2, bar, hdr_field 3, bar, hdr_field 4, bar, hdr_field 5, bar, hdr_field 6, bar,
     hdr_field 7, bar, Cap 8 (many anychar), Eos]"

definition is_cef :: "string \<Rightarrow> bool" where
  "is_cef line = (let s = str_strip line in
     str_startswith s ''CEF:'' \<and> 7 \<le> str_count_char (CHR ''|'') s)"

definition ext_key :: "char \<Rightarrow> bool" where
  "ext_key c \<longleftrightarrow> is_alnum c \<or> in_str ''_.-'' c"

definition cef_ext_pattern :: re where
  "cef_ext_pattern =
     (let ch = alts [lit_str [bslash, CHR ''=''], lit_str [bslash, CHR ''|''], lit_str [bslash, bslash],
                     Cls (\<lambda>c. c \<noteq> CHR ''='')]
      in seq [Cap 1 (plus (Cls ext_key)), chr_is (CHR ''=''), Cap 2 (Seq ch (Star False ch)),
              Ahead (Alt (seq [plus space, plus (Cls ext_key), chr_is (CHR ''='')]) Eos)])"

definition unescape_cef :: "string \<Rightarrow> string" where
  "unescape_cef v =
     str_replace [bslash, CHR ''r''] [creturn] (str_replace [bslash, CHR ''n''] [newline]
       (str_replace [bslash, bslash] [bslash] (str_replace [bslash, CHR ''|''] ''|''
         (str_replace [bslash, CHR ''=''] ''='' v))))"

definition parse_cef_extension :: "string \<Rightarrow> dict" where
  "parse_cef_extension ext = foldl (\<lambda>result m.
     let k = str_strip (group_text m 1); v = unquote (unescape_cef (str_strip (group_text m 2)))
     in AList.update k (PStr v) result) [] (re_finditer cef_ext_pattern ext)"

definition parse_cef :: "string \<Rightarrow> dict option" where
  "parse_cef line = (case re_match CEF_HEADER_REGEX (str_strip line) of
       None \<Rightarrow> None
     | Some m \<Rightarrow>
         let g = (\<lambda>n. PStr (unescape_header (group_text m n)));
             result = [(''cef_version'', PStr (group_text m 1)), (''device_vendor'', g 2),
               (''device_product'', g 3), (''device_version'', g 4), (''device_event_class_id'', g 5),
               (''name'', g 6), (''severity'', g 7)];
             ext = group_text m 8
         in Some (if ext = [] then result else dict_update result (parse_cef_extension ext)))"

section \<open>LEEF\<close>

definition LEEF_HEADER_REGEX :: re where
  "LEEF_HEADER_REGEX = seq [Bos, lit_str ''LEEF:'', many space,
     Cap 1 (plus (Cls (\<lambda>c. is_digit c \<or> c = CHR ''.''))), many space, bar,
     hdr_field 2, bar, hdr_field 3, bar, hdr_field 4, bar, hdr_field 5,
     Opt True (Seq bar (Cap 6 (many anychar))), Eos]"

definition is_leef :: "string \<Rightarrow> bool" where
  "is_leef line = (let s = str_strip line in
     str_startswith s ''LEEF:'' \<and> 4 \<le> str_count_char (CHR ''|'') s)"

text \<open>\<open>int(s, 16)\<close>; \<open>None\<close> is its \<open>ValueError\<close>.\<close>

definition hex_val :: "char \<Rightarrow> nat" where
  "hex_val c = (let n = of_char c in if n < 58 then n - 48 else if n < 91 then n - 55 else n - 87)"

fun parse_hex :: "int \<Rightarrow> bool \<Rightarrow> string \<Rightarrow> int option" where
  "parse_hex acc after_digit [] = (if after_digit then Some acc else None)"
| "parse_hex acc after_digit (c # s) =
     (if is_hex c then parse_hex (16 * acc + int (hex_val c)) True s
      else if c = CHR ''_'' \<and> after_digit \<and> s \<noteq> [] \<and> hd s \<noteq> CHR ''_'' then parse_hex acc False s
      else None)"

definition parse_int16 :: "string \<Rightarrow> int option" where
  "parse_int16 raw =
     (let s = str_strip raw; neg = str_startswith s ''-'';
          body = (if neg \<or> str_startswith s ''+'' then tl s else s);
          n = (if str_startswith body ''0x'' \<or> str_startswith body ''0X''
               then (let d = drop 2 body in parse_hex 0 False (if str_startswith d ''_'' then tl d else d))
               else parse_hex 0 False body)
      in map_option (\<lambda>i. if neg then - i else i) n)"

text \<open>
  \<open>chr(code)\<close>: a \<open>ValueError\<close> outside the code points, an \<open>OverflowError\<close> outside the C integers.
  A character beyond Latin-1 does not occur in the texts of the model, and \<open>Some None\<close> stands for
  such a delimiter.
\<close>

definition resolve_leef_delimiter :: "string \<Rightarrow> string option result" where
  "resolve_leef_delimiter raw =
     (let fallback = Inr (Some (if raw = [bslash, CHR ''t''] \<or> raw = [tab] \<or> raw = [] then [tab] else raw))
      in if str_startswith raw ''x'' \<or> str_startswith raw ''0x''
         then (case parse_int16 (str_replace ''x'' [] (str_replace ''0x'' [] raw)) of
                 None \<Rightarrow> fallback
               | Some code \<Rightarrow>
                   if code < - (2 ^ 31) \<or> 2 ^ 31 \<le> code then Inl OverflowError
                   else if code < 0 \<or> 1114111 < code then fallback
                   else if code < 256 then Inr (Some [char_of (nat code)]) else Inr None)
         else fallback)"

definition parse_leef_attributes :: "string \<Rightarrow> string option \<Rightarrow> dict" where
  "parse_leef_attributes ext delimiter =
     foldl (\<lambda>result tok.
       let token = str_strip tok
       in case str_split1 (CHR ''='') token of
            [k, v] \<Rightarrow>
              AList.update (str_strip k)
                (PStr (unquote (str_replace [bslash, bslash] [bslash]
                  (str_replace [bslash, CHR ''=''] ''='' (str_strip v))))) result
          | _ \<Rightarrow> result) []
       (case delimiter of None \<Rightarrow> [ext] | Some d \<Rightarrow> split_on d [] ext)"

definition parse_leef :: "string \<Rightarrow> dict option result" where
  "parse_leef line = (case re_match LEEF_HEADER_REGEX (str_strip line) of
       None \<Rightarrow> Inr None
     | Some m \<Rightarrow>
         let leef_ver = group_text m 1; g = (\<lambda>n. PStr (unescape_header (group_text m n)));
             result = [(''leef_version'', PStr leef_ver), (''vendor'', g 2), (''product'', g 3),
               (''version'', g 4), (''event_id'', g 5)];
             remainder = group_text m 6
         in if remainder = [] then Inr (Some result)
            else res_bind (if str_startswith leef_ver ''2'' \<and> CHR ''|'' \<in> set remainder
                           then (let parts = str_split1 (CHR ''|'') remainder
                                 in res_bind (resolve_leef_delimiter (hd parts)) (\<lambda>d.
                                      Inr (d, if 1 < length parts then parts ! 1 else [])))
                           else Inr (Some [tab], remainder))
              (\<lambda>(delimiter, extension_str).
                Inr (Some (if extension_str = [] then result
                           else dict_update result (parse_leef_attributes extension_str delimiter)))))"

section \<open>Syslog\<close>

definition SYSLOG_5424_HDR :: re where
  "SYSLOG_5424_HDR = seq [Bos, chr_is (CHR ''<''), Cap 1 (between 1 3 digit), lit_str ''>1'', plus space,
     Cap 2 (plus nonspace), plus space, Cap 3 (plus nonspace), plus space, Cap 4 (plus nonspace), plus space,
     Cap 5 (plus nonspace), plus space, Cap 6 (plus nonspace),
     Opt True (Seq (plus space) (Cap 7 (many anychar))), Eos]"

definition is_syslog_5424 :: "string \<Rightarrow> bool" where
  "is_syslog_5424 line = re_matches SYSLOG_5424_HDR (str_strip line)"

definition dash_none :: "string \<Rightarrow> pyval" where
  "dash_none s = (if s = ''-'' then PNone else PStr s)"

definition prival_of :: "string \<Rightarrow> int" where
  "prival_of s = (case parse_int s of None \<Rightarrow> 0 | Some i \<Rightarrow> i)"

text \<open>The blocks in brackets at the start, with the spaces between them, and what follows.\<close>

function sd_blocks :: "string \<Rightarrow> string list \<times> string" where
  "sd_blocks rest =
     (if str_startswith rest ''['' \<and> CHR '']'' \<in> set rest
      then (let block = takeWhile (\<lambda>c. c \<noteq> CHR '']'') rest @ '']'';
                (bs, msg) = sd_blocks (dropWhile (\<lambda>c. c = CHR '' '') (drop (length block) rest))
            in (block # bs, msg))
      else ([], rest))"
  by pat_completeness auto
termination
proof (relation "measure length")
  fix rest block :: string
  assume "str_startswith rest ''['' \<and> CHR '']'' \<in> set rest"
    and b: "block = takeWhile (\<lambda>c. c \<noteq> CHR '']'') rest @ '']''"
  then have "rest \<noteq> []" by auto
  then have "length (drop (length block) rest) < length rest" by (simp add: b)
  then show "(dropWhile (\<lambda>c. c = CHR '' '') (drop (length block) rest), rest) \<in> measure length"
    using length_dropWhile_le [of "\<lambda>c. c = CHR '' ''" "drop (length block) rest"] by simp
qed simp

declare sd_blocks.simps [simp del]

definition sd_param_pattern :: re where
  "sd_param_pattern = seq [Cap 1 (Seq nonspace (Star False nonspace)), lit_str [CHR ''='', dquote],
     Cap 2 (Seq (many (Cls (\<lambda>c. c \<noteq> dquote \<and> c \<noteq> bslash)))
       (many (seq [chr_is bslash, anybut_nl, many (Cls (\<lambda>c. c \<noteq> dquote \<and> c \<noteq> bslash))]))),
     chr_is dquote]"

definition unescape_sd :: "string \<Rightarrow> string" where
  "unescape_sd v = str_replace [bslash, CHR '']''] '']''
     (str_replace [bslash, bslash] [bslash] (str_replace [bslash, dquote] [dquote] v))"

text \<open>\<open>inner.split(None, 1)\<close>\<close>

definition split_word :: "string \<Rightarrow> string list" where
  "split_word s =
     (let t = dropWhile is_space s; w = takeWhile (\<lambda>c. \<not> is_space c) t;
          r = dropWhile is_space (drop (length w) t)
      in if w = [] then [] else if r = [] then [w] else [w, r])"

definition add_sd_block :: "dict \<Rightarrow> string \<Rightarrow> dict result" where
  "add_sd_block record block = (case split_word (str_strip (butlast (tl block))) of
       [] \<Rightarrow> Inl IndexError
     | sd_id # params \<Rightarrow>
         let r1 = AList.update (''sd_'' @ sd_id) (PStr (case params of [] \<Rightarrow> [] | p # _ \<Rightarrow> p)) record
         in Inr (case params of
                   [] \<Rightarrow> r1
                 | p # _ \<Rightarrow> foldl (\<lambda>r m. AList.update (''sd_'' @ sd_id @ ''_'' @ group_text m 1)
                     (PStr (unescape_sd (group_text m 2))) r) r1 (re_finditer sd_param_pattern p)))"

definition syslog_5424_record :: "rstate \<Rightarrow> dict" where
  "syslog_5424_record m = (let p = prival_of (group_text m 1) in
     [(''prival'', PInt p), (''facility'', PInt (p div 8)), (''severity'', PInt (p mod 8)),
      (''version'', PInt 1), (''timestamp'', dash_none (group_text m 2)),
      (''hostname'', dash_none (group_text m 3)), (''app_name'', dash_none (group_text m 4)),
      (''proc_id'', dash_none (group_text m 5)), (''msg_id'', dash_none (group_text m 6)),
      (''message'', PStr [])])"

definition parse_syslog_5424 :: "string \<Rightarrow> dict option result" where
  "parse_syslog_5424 line = (case re_match SYSLOG_5424_HDR (str_strip line) of
       None \<Rightarrow> Inr None
     | Some m \<Rightarrow>
         let record = syslog_5424_record m; rest0 = group_text m 7; rest = str_strip rest0
         in if rest0 = [] \<or> rest = ''-'' then Inr (Some record)
            else if str_startswith rest ''- ''
            then Inr (Some (AList.update ''message'' (PStr (str_strip (drop 2 rest))) record))
            else let (blocks, msg) = sd_blocks rest
                 in res_bind (res_foldl add_sd_block
                      (AList.update ''message'' (PStr (str_strip msg)) record) blocks) (\<lambda>r. Inr (Some r)))"

definition SYSLOG_3164_REGEX :: re where
  "SYSLOG_3164_REGEX = seq [Bos, chr_is (CHR ''<''), Cap 1 (between 1 3 digit), chr_is (CHR ''>''),
     Cap 2 syslog_date, plus space, Cap 3 (plus nonspace), plus space,
     Cap 4 (plus (Cls (\<lambda>c. \<not> is_space c \<and> \<not> in_str '':['' c))),
     Opt True (seq [chr_is (CHR ''[''), Cap 5 (plus digit), chr_is (CHR '']'')]), chr_is (CHR '':''),
     many space, Cap 6 (many anychar), Eos]"

definition is_syslog_3164 :: "string \<Rightarrow> bool" where
  "is_syslog_3164 line = re_matches SYSLOG_3164_REGEX (str_strip line)"

definition parse_syslog_3164 :: "string \<Rightarrow> dict option" where
  "parse_syslog_3164 line = (case re_match SYSLOG_3164_REGEX (str_strip line) of
       None \<Rightarrow> None
     | Some m \<Rightarrow>
         let p = prival_of (group_text m 1); pid = group_text m 5
         in Some [(''prival'', PInt p), (''facility'', PInt (p div 8)), (''severity'', PInt (p mod 8)),
              (''timestamp'', PStr (group_text m 2)), (''hostname'', PStr (group_text m 3)),
              (''tag'', PStr (group_text m 4)), (''proc_id'', if pid = [] then PNone else PStr pid),
              (''message'', PStr (str_strip (group_text m 6)))])"

section \<open>JSON\<close>

definition is_json :: "(string \<Rightarrow> pyval option) \<Rightarrow> string \<Rightarrow> bool" where
  "is_json json_loads line = (let s = str_strip line in
     bracketed (CHR ''{'') (CHR ''}'') s \<and> (case json_loads s of Some (PDict _) \<Rightarrow> True | _ \<Rightarrow> False))"

definition json_key :: "string \<Rightarrow> string \<Rightarrow> string" where
  "json_key parent_key k = (if parent_key = [] then k else parent_key @ ''.'' @ k)"

text \<open>\<open>dict(items)\<close> at every level, an empty dictionary being a value like any other.\<close>

fun flatten_items :: "string \<Rightarrow> dict \<Rightarrow> dict" where
  "flatten_items parent_key [] = []"
| "flatten_items parent_key ((k, PDict (p # d)) # r) =
     dict_update [] (flatten_items (json_key parent_key k) (p # d)) @ flatten_items parent_key r"
| "flatten_items parent_key ((k, v) # r) = (json_key parent_key k, v) # flatten_items parent_key r"

definition flatten_dict :: "string \<Rightarrow> dict \<Rightarrow> dict" where
  "flatten_dict parent_key d = dict_update [] (flatten_items parent_key d)"

definition parse_json :: "(string \<Rightarrow> pyval option) \<Rightarrow> string \<Rightarrow> dict option" where
  "parse_json json_loads line = (case json_loads (str_strip line) of
       Some (PDict d) \<Rightarrow> Some (flatten_dict [] d)
     | _ \<Rightarrow> None)"

section \<open>Key-value\<close>

definition KV_PAIR_REGEX :: re where
  "KV_PAIR_REGEX = seq [Cap 1 (plus (Cls (\<lambda>c. is_alnum c \<or> in_str ''_.-/'' c))), many space,
     chr_is (CHR ''=''), many space,
     Cap 2 (alts [quoted dquote, quoted squote, plus (Cls (\<lambda>c. \<not> is_space c \<and> \<not> in_str '',;'' c))])]"

definition is_kv :: "string \<Rightarrow> bool" where
  "is_kv line =
     (let s = str_strip line
      in if prefixed s [''CEF:'', ''LEEF:'', ''<''] then False
         else if bracketed (CHR ''{'') (CHR ''}'') s then False
         else let pairs = re_finditer KV_PAIR_REGEX s
              in if length pairs < 2 then False
                 else let matched_len = sum_list (map (\<lambda>m. length (group_text m 1) + length (group_text m 2) + 1) pairs)
                      in fl (of_nat (length s) * fl (35 / 100)) \<le> of_nat matched_len \<or> 3 \<le> length pairs)"

definition unescape_kv :: "string \<Rightarrow> string" where
  "unescape_kv v = str_replace [bslash, CHR ''=''] ''='' (str_replace [bslash, bslash] [bslash]
     (str_replace [bslash, squote] [squote] (str_replace [bslash, dquote] [dquote] v)))"

definition parse_kv :: "string \<Rightarrow> dict" where
  "parse_kv line = foldl (\<lambda>result m.
     AList.update (group_text m 1) (PStr (unescape_kv (unquote (group_text m 2)))) result)
     [] (re_finditer KV_PAIR_REGEX (str_strip line))"

section \<open>CSV\<close>

text \<open>
  \<open>next(csv.reader([s], delimiter=d))\<close> in the default dialect: quoted fields with doubled quotes.
  \<open>None\<close> is an error: a line break inside an unquoted field, or a field over the size limit.
\<close>

datatype csv_state = Start_record | Start_field | In_field | In_quoted | Quote_in_quoted | Eat_crnl

fun csv_chars :: "char \<Rightarrow> csv_state \<Rightarrow> string \<Rightarrow> string list \<Rightarrow> string \<Rightarrow> (csv_state \<times> string \<times> string list) option" where
  "csv_chars d q field row [] = Some (q, field, row)"
| "csv_chars d q field row (c # s) =
     (let crnl = (c = newline \<or> c = creturn)
      in case q of
           Start_record \<Rightarrow>
             if crnl then csv_chars d Eat_crnl field row s
             else if c = dquote then csv_chars d In_quoted field row s
             else if c = d then csv_chars d Start_field [] (row @ [rev field]) s
             else csv_chars d In_field (c # field) row s
         | Start_field \<Rightarrow>
             if crnl then csv_chars d Eat_crnl [] (row @ [rev field]) s
             else if c = dquote then csv_chars d In_quoted field row s
             else if c = d then csv_chars d Start_field [] (row @ [rev field]) s
             else csv_chars d In_field (c # field) row s
         | In_field \<Rightarrow>
             if crnl then csv_chars d Eat_crnl [] (row @ [rev field]) s
             else if c = d then csv_chars d Start_field [] (row @ [rev field]) s
             else csv_chars d In_field (c # field) row s
         | In_quoted \<Rightarrow>
             if c = dquote then csv_chars d Quote_in_quoted field row s
             else csv_chars d In_quoted (c # field) row s
         | Quote_in_quoted \<Rightarrow>
             if c = dquote then csv_chars d In_quoted (c # field) row s
             else if c = d then csv_chars d Start_field [] (row @ [rev field]) s
             else if crnl then csv_chars d Eat_crnl [] (row @ [rev field]) s
             else csv_chars d In_field (c # field) row s
         | Eat_crnl \<Rightarrow> if crnl then csv_chars d Eat_crnl field row s else None)"

definition csv_row :: "char \<Rightarrow> string \<Rightarrow> string list option" where
  "csv_row d s = (case csv_chars d Start_record [] [] s of
       None \<Rightarrow> None
     | Some (q, field, row) \<Rightarrow>
         let r = (if q = Start_record \<or> q = Eat_crnl then row else row @ [rev field])
         in if list_all (\<lambda>f. int (length f) \<le> 131072) r then Some r else None)"

definition DELIMITERS :: "char list" where
  "DELIMITERS = [CHR '','', tab, CHR ''|'', CHR '';'']"

definition csv_counts :: "string list \<Rightarrow> char \<Rightarrow> nat list" where
  "csv_counts lines delim = concat (map (\<lambda>line.
     let s = str_strip line
     in if s = [] \<or> prefixed s [''CEF:'', ''LEEF:'', ''<''] then []
        else case csv_row delim s of
               None \<Rightarrow> []
             | Some row \<Rightarrow> if 1 < length row then [length row] else []) (take 50 lines))"

text \<open>\<open>Counter(xs).most_common(1)[0]\<close>: the first of the most frequent elements.\<close>

definition most_common :: "'a list \<Rightarrow> ('a \<times> nat) option" where
  "most_common xs = foldl (\<lambda>best x. case best of
       None \<Rightarrow> Some (x, count_list xs x)
     | Some (y, n) \<Rightarrow> if n < count_list xs x then Some (x, count_list xs x) else best) None xs"

definition delimiter_fits :: "string list \<Rightarrow> char \<Rightarrow> bool" where
  "delimiter_fits lines delim =
     (let counts = csv_counts lines delim
      in 2 \<le> length counts
         \<and> (list_all (\<lambda>n. n = hd counts) counts \<and> 2 \<le> hd counts
            \<or> (case most_common counts of
                 None \<Rightarrow> False
               | Some (cnt, freq) \<Rightarrow>
                   fl (85 / 100) \<le> fl (of_nat freq / of_nat (length counts)) \<and> 2 \<le> cnt)))"

definition detect_delimiter :: "string list \<Rightarrow> char option" where
  "detect_delimiter lines = (if lines = [] then None else List.find (delimiter_fits lines) DELIMITERS)"

definition column_name :: "nat \<Rightarrow> string" where
  "column_name i = ''column_'' @ show_nat (i + 1)"

definition parse_csv_line :: "string \<Rightarrow> char \<Rightarrow> string list option \<Rightarrow> dict option" where
  "parse_csv_line line delimiter headers = (case csv_row delimiter (str_strip line) of
       None \<Rightarrow> None
     | Some row \<Rightarrow>
         if row = [] then None
         else let names = (case headers of
                  Some hs \<Rightarrow> if hs \<noteq> [] \<and> length hs = length row then hs else map column_name [0..<length row]
                | None \<Rightarrow> map column_name [0..<length row])
              in Some (dict_update [] (zip names (map (\<lambda>f. PStr (str_strip f)) row))))"

section \<open>The loop over structured data\<close>

lemma suffix_dropWhile: "suffix (dropWhile P xs) xs"
  by (metis suffixI takeWhile_dropWhile_id)

lemma first_block_splits:
  assumes "str_startswith rest ''['' \<and> CHR '']'' \<in> set rest"
  defines "block \<equiv> takeWhile (\<lambda>c. c \<noteq> CHR '']'') rest @ '']''"
  defines "after \<equiv> dropWhile (\<lambda>c. c = CHR '' '') (drop (length block) rest)"
  shows "sd_blocks rest = (block # fst (sd_blocks after), snd (sd_blocks after))"
    and "str_startswith block ''[''" "str_endswith block '']''" "suffix after rest"
    and "Suc (count_list after (CHR '']'')) \<le> count_list rest (CHR '']'')"
proof -
  show "sd_blocks rest = (block # fst (sd_blocks after), snd (sd_blocks after))"
    using assms(1) by (subst sd_blocks.simps) (simp add: after_def case_prod_unfold Let_def flip: block_def)
  have "dropWhile (\<lambda>c. c \<noteq> CHR '']'') rest \<noteq> []" using assms(1) by (simp add: dropWhile_eq_Nil_conv)
  then obtain t where "dropWhile (\<lambda>c. c \<noteq> CHR '']'') rest = CHR '']'' # t"
    using hd_dropWhile [of "\<lambda>c. c \<noteq> CHR '']''" rest] by (metis list.collapse)
  then have "rest = block @ t" by (metis append_Cons append_Nil append_assoc block_def takeWhile_dropWhile_id)
  then have split: "rest = block @ drop (length block) rest" by (metis append_eq_conv_conj)
  obtain u where "rest = CHR ''['' # u" using assms(1) by (cases rest) (auto simp: str_startswith_def)
  then show "str_startswith block ''[''" by (simp add: block_def str_startswith_def)
  show "str_endswith block '']''" by (simp add: block_def str_endswith_def str_startswith_def)
  show "suffix after rest" unfolding after_def by (metis split suffixI suffix_dropWhile suffix_order.trans)
  have "count_list block (CHR '']'') \<ge> 1" by (simp add: block_def)
  moreover have "count_list (drop (length block) rest) (CHR '']'') \<ge> count_list after (CHR '']'')"
    unfolding after_def by (metis count_list_append le_add2 takeWhile_dropWhile_id)
  ultimately show "Suc (count_list after (CHR '']'')) \<le> count_list rest (CHR '']'')"
    using split by (metis Suc_le_eq add_mono_thms_linordered_semiring(1) count_list_append plus_1_eq_Suc)
qed

text \<open>
  The loop over the structured data of a syslog line ends: it takes a block for at most every
  closing bracket of the text, each block is in brackets, and what it leaves as the message is
  the end of the text and starts no further block.
\<close>

theorem structured_data_loop_ends:
  "length (fst (sd_blocks rest)) \<le> count_list rest (CHR '']'')
   \<and> list_all (\<lambda>b. str_startswith b ''['' \<and> str_endswith b '']'') (fst (sd_blocks rest))
   \<and> suffix (snd (sd_blocks rest)) rest
   \<and> \<not> (str_startswith (snd (sd_blocks rest)) ''['' \<and> CHR '']'' \<in> set (snd (sd_blocks rest)))"
proof (induction rest rule: sd_blocks.induct)
  case (1 rest)
  show ?case
  proof (cases "str_startswith rest ''['' \<and> CHR '']'' \<in> set rest")
    case False
    then show ?thesis by (subst (1 2 3 4 5) sd_blocks.simps) auto
  next
    case True
    note first = first_block_splits [OF True]
    show ?thesis using "1.IH" [OF True refl] first(2-5) unfolding first(1)
      by (auto intro: suffix_order.trans)
  qed
qed

end
