(* ===== verification/Profiler.thy ===== *)
theory Profiler
  imports LogParsers PyStr
begin

text \<open>
  The engine of the source profiler, \<open>ml/source_profiler/profiler.py\<close>: format detection for a
  line and for a batch, parsing of a record with its fallbacks, and the aggregation of a
  collection of lines into a profile. What the source keeps in one dictionary per statistic,
  keyed by field name, is one record per field here. The aggregation can raise, so it returns a
  result.
\<close>

section \<open>Detection\<close>

definition detect_format :: "(string \<Rightarrow> pyval option) \<Rightarrow> string \<Rightarrow> LogFormat \<times> rat" where
  "detect_format json_loads raw_log =
     (let s = str_strip raw_log
      in if s = [] then (LF_UNKNOWN, 0)
         else if is_cef s then (LF_CEF, 1)
         else if is_leef s then (LF_LEEF, 1)
         else if is_syslog_5424 s then (LF_SYSLOG_RFC5424, 1)
         else if is_syslog_3164 s then (LF_SYSLOG_RFC3164, fl (95 / 100))
         else if is_json json_loads s then (LF_JSON, 1)
         else if is_kv s then (LF_KEY_VALUE, fl (90 / 100))
         else (LF_TEXT, 1 / 2))"

definition structured_line :: "(string \<Rightarrow> pyval option) \<Rightarrow> string \<Rightarrow> bool" where
  "structured_line json_loads l \<longleftrightarrow> is_cef l \<or> is_leef l \<or> is_syslog_5424 l \<or> is_json json_loads l"

definition count_up :: "'a \<Rightarrow> ('a \<times> nat) list \<Rightarrow> ('a \<times> nat) list" where
  "count_up k c = AList.update k ((case map_of c k of None \<Rightarrow> 0 | Some n \<Rightarrow> n) + 1) c"

definition detect_batch_format ::
    "(string \<Rightarrow> pyval option) \<Rightarrow> string list \<Rightarrow> LogFormat \<times> rat \<times> char option \<times> (string \<times> nat) list" where
  "detect_batch_format json_loads lines =
     (let clean_lines = filter (\<lambda>l. l \<noteq> []) (map str_strip lines)
      in if clean_lines = [] then (LF_UNKNOWN, 0, None, [])
         else
           let csv = (case detect_delimiter clean_lines of
                 None \<Rightarrow> None
               | Some d \<Rightarrow>
                   if fl (of_nat (length (filter (structured_line json_loads) clean_lines)) / of_nat (length clean_lines))
                      < fl (20 / 100)
                   then Some (LF_CSV, fl (95 / 100), Some d, [(''CSV'', length clean_lines)]) else None)
           in case csv of
                Some r \<Rightarrow> r
              | None \<Rightarrow>
                  let votes = map (\<lambda>l. fst (detect_format json_loads l)) clean_lines;
                      fmt_dist = map (\<lambda>(f, n). (LogFormat_value f, n)) (foldl (\<lambda>c f. count_up f c) [] votes)
                  in case most_common votes of
                       None \<Rightarrow> (LF_UNKNOWN, 0, None, [])
                     | Some (f, n) \<Rightarrow> (f, fl (of_nat n / of_nat (length clean_lines)), None, fmt_dist))"

section \<open>Parsing a record\<close>

definition text_record :: "string \<Rightarrow> dict option \<times> LogFormat" where
  "text_record s = (Some [(''message'', PStr s)], LF_TEXT)"

definition settle ::
    "string \<Rightarrow> LogFormat option \<Rightarrow> LogFormat \<Rightarrow> dict option \<Rightarrow> dict option \<times> LogFormat" where
  "settle s format_hint fmt res = (case res of
       Some r \<Rightarrow> (Some r, fmt)
     | None \<Rightarrow> if format_hint = Some fmt then (None, fmt) else text_record s)"

definition parse_record ::
    "(string \<Rightarrow> pyval option) \<Rightarrow> string \<Rightarrow> LogFormat option \<Rightarrow> char option \<Rightarrow> string list option
     \<Rightarrow> (dict option \<times> LogFormat) result" where
  "parse_record json_loads raw_log format_hint delimiter headers =
     (let s = str_strip raw_log
      in if s = [] then Inr (None, LF_UNKNOWN)
         else
           let target = (case format_hint of
                 None \<Rightarrow> fst (detect_format json_loads s)
               | Some f \<Rightarrow> if f = LF_UNKNOWN then fst (detect_format json_loads s) else f)
           in case target of
                LF_JSON \<Rightarrow> Inr (settle s format_hint LF_JSON (parse_json json_loads s))
              | LF_CEF \<Rightarrow> Inr (settle s format_hint LF_CEF (parse_cef s))
              | LF_LEEF \<Rightarrow> res_bind (parse_leef s) (\<lambda>r. Inr (settle s format_hint LF_LEEF r))
              | LF_SYSLOG_RFC5424 \<Rightarrow>
                  res_bind (parse_syslog_5424 s) (\<lambda>r. Inr (settle s format_hint LF_SYSLOG_RFC5424 r))
              | LF_SYSLOG_RFC3164 \<Rightarrow> Inr (settle s format_hint LF_SYSLOG_RFC3164 (parse_syslog_3164 s))
              | LF_KEY_VALUE \<Rightarrow>
                  Inr (settle s format_hint LF_KEY_VALUE (let r = parse_kv s in if r = [] then None else Some r))
              | LF_CSV \<Rightarrow>
                  (case delimiter of
                     None \<Rightarrow> Inr (text_record s)
                   | Some d \<Rightarrow> Inr (settle s format_hint LF_CSV (parse_csv_line s d headers)))
              | _ \<Rightarrow> Inr (text_record s))"

section \<open>Aggregation of values\<close>

record field_acc =
  fa_types :: "(string \<times> nat) list"
  fa_nulls :: nat
  fa_distinct :: "string list"
  fa_samples :: "pyval list"
  fa_min :: "pyval option"
  fa_max :: "pyval option"
  fa_lengths :: "nat list"

definition empty_acc :: field_acc where
  "empty_acc = \<lparr>fa_types = [], fa_nulls = 0, fa_distinct = [], fa_samples = [], fa_min = None,
     fa_max = None, fa_lengths = []\<rparr>"

text \<open>\<open>float(val)\<close> of a number or of a numeric text.\<close>

fun py_float :: "pyval \<Rightarrow> pyval result" where
  "py_float (PInt i) = (if 2 ^ 1024 - 2 ^ 970 \<le> \<bar>i\<bar> then Inl OverflowError else Inr (PFloat (fl (of_int i))))"
| "py_float (PFloat x) = Inr (PFloat x)"
| "py_float (PNonFinite f) = Inr (PNonFinite f)"
| "py_float (PStr s) = Inr (parse_float (str_strip s))"
| "py_float _ = Inl TypeError"

text \<open>\<open>a < b\<close> of floats; a string on the right is a \<open>TypeError\<close>.\<close>

fun float_lt :: "pyval \<Rightarrow> pyval \<Rightarrow> bool result" where
  "float_lt a (PStr _) = Inl TypeError"
| "float_lt (PFloat x) (PFloat y) = Inr (x < y)"
| "float_lt (PFloat x) (PNonFinite f) = Inr (f = PosInf)"
| "float_lt (PNonFinite f) (PFloat y) = Inr (f = NegInf)"
| "float_lt (PNonFinite f) (PNonFinite g) = Inr (f = NegInf \<and> g = PosInf)"
| "float_lt _ _ = Inl TypeError"

fun float_gt :: "pyval \<Rightarrow> pyval \<Rightarrow> bool result" where
  "float_gt a (PStr _) = Inl TypeError"
| "float_gt a b = float_lt b a"

definition improve :: "pyval option \<Rightarrow> pyval \<Rightarrow> (pyval \<Rightarrow> pyval \<Rightarrow> bool result) \<Rightarrow> pyval option result" where
  "improve old new better = (case old of
       None \<Rightarrow> Inr (Some new)
     | Some o' \<Rightarrow> res_bind (better new o') (\<lambda>b. Inr (if b then Some new else old)))"

definition add_bounds :: "DataType \<Rightarrow> pyval \<Rightarrow> field_acc \<Rightarrow> field_acc result" where
  "add_bounds inferred val a =
     (if inferred = DT_INTEGER \<or> inferred = DT_FLOAT then
        res_bind (py_float val) (\<lambda>num.
        res_bind (improve (fa_min a) num float_lt) (\<lambda>lo.
        res_bind (improve (fa_max a) num float_gt) (\<lambda>hi.
          Inr (a\<lparr>fa_min := lo, fa_max := hi\<rparr>))))
      else if inferred = DT_STRING then
        res_bind (improve (fa_min a) (PStr (py_str val)) (\<lambda>n o'. Inr (py_str n < py_str o'))) (\<lambda>lo.
        res_bind (improve (fa_max a) (PStr (py_str val)) (\<lambda>n o'. Inr (py_str o' < py_str n))) (\<lambda>hi.
          Inr (a\<lparr>fa_min := lo, fa_max := hi\<rparr>)))
      else Inr a)"

definition add_present :: "pyval \<Rightarrow> field_acc \<Rightarrow> field_acc" where
  "add_present val a =
     (let s_val = py_str val;
          a1 = (if length (fa_distinct a) < 500 \<and> s_val \<notin> set (fa_distinct a)
                then a\<lparr>fa_distinct := fa_distinct a @ [s_val]\<rparr> else a);
          a2 = (if length (fa_samples a1) < 5 \<and> \<not> list_ex (py_eq (PStr s_val)) (fa_samples a1)
                then a1\<lparr>fa_samples := fa_samples a1 @ [val]\<rparr> else a1)
      in a2\<lparr>fa_lengths := fa_lengths a2 @ [length s_val]\<rparr>)"

definition add_value :: "(string \<Rightarrow> pyval option) \<Rightarrow> field_acc \<Rightarrow> pyval \<Rightarrow> field_acc result" where
  "add_value json_loads a val =
     (let inferred = infer_type json_loads val;
          a1 = a\<lparr>fa_types := count_up (DataType_value inferred) (fa_types a)\<rparr>
      in if inferred = DT_NULL then Inr (a1\<lparr>fa_nulls := fa_nulls a1 + 1\<rparr>)
         else add_bounds inferred val (add_present val a1))"

section \<open>Aggregation of records\<close>

record template_acc =
  ta_count :: nat
  ta_sample :: string
  ta_vars :: nat

record profile_acc =
  pa_valid :: nat
  pa_corrupted :: nat
  pa_parsed :: "dict list"
  pa_fields :: "(string \<times> field_acc) list"
  pa_templates :: "(string \<times> template_acc) list"
  pa_formats :: "(string \<times> nat) list"

definition init_acc :: profile_acc where
  "init_acc = \<lparr>pa_valid = 0, pa_corrupted = 0, pa_parsed = [], pa_fields = [], pa_templates = [], pa_formats = []\<rparr>"

definition add_field ::
    "(string \<Rightarrow> pyval option) \<Rightarrow> (string \<times> field_acc) list \<Rightarrow> string \<times> pyval \<Rightarrow> (string \<times> field_acc) list result" where
  "add_field json_loads fs p = (case p of (k, val) \<Rightarrow>
     res_bind (add_value json_loads (dict_get fs k empty_acc) val) (\<lambda>a. Inr (AList.update k a fs)))"

definition placeholder :: re where
  "placeholder = seq [chr_is (CHR ''<''), plus (Cls is_upper), chr_is (CHR ''>'')]"

definition add_template :: "dict \<Rightarrow> string \<Rightarrow> (string \<times> template_acc) list \<Rightarrow> (string \<times> template_acc) list" where
  "add_template parsed line ts =
     (case py_or (py_or (dict_get parsed ''message'' PNone) (dict_get parsed ''name'' PNone)) (PStr line) of
        PStr text \<Rightarrow>
          if text = [] then ts
          else let pat = mask_message text
               in (case map_of ts pat of
                     Some t \<Rightarrow> AList.update pat (t\<lparr>ta_count := ta_count t + 1\<rparr>) ts
                   | None \<Rightarrow> AList.update pat \<lparr>ta_count = 1, ta_sample = text,
                       ta_vars = length (re_finditer placeholder pat)\<rparr> ts)
      | _ \<Rightarrow> ts)"

definition accept_record ::
    "(string \<Rightarrow> pyval option) \<Rightarrow> string \<Rightarrow> profile_acc \<Rightarrow> dict \<Rightarrow> LogFormat \<Rightarrow> profile_acc result" where
  "accept_record json_loads line acc parsed fmt =
     res_bind (res_foldl (add_field json_loads) (pa_fields acc) parsed) (\<lambda>fs.
       Inr (acc\<lparr>pa_valid := pa_valid acc + 1,
                pa_formats := count_up (LogFormat_value fmt) (pa_formats acc),
                pa_parsed := (if length (pa_parsed acc) < 10 then pa_parsed acc @ [parsed] else pa_parsed acc),
                pa_fields := fs,
                pa_templates := add_template parsed line (pa_templates acc)\<rparr>))"

definition add_line ::
    "(string \<Rightarrow> pyval option) \<Rightarrow> LogFormat \<Rightarrow> char option \<Rightarrow> string list option \<Rightarrow> profile_acc \<Rightarrow> string
     \<Rightarrow> profile_acc result" where
  "add_line json_loads dominant_fmt delimiter headers acc line =
     res_bind (parse_record json_loads line (Some dominant_fmt) delimiter headers) (\<lambda>(parsed, record_fmt).
       case parsed of
         Some (p # ps) \<Rightarrow> accept_record json_loads line acc (p # ps) record_fmt
       | _ \<Rightarrow>
           res_bind (parse_record json_loads line None None None) (\<lambda>(fallback, fallback_fmt).
             case fallback of
               Some r \<Rightarrow> if fallback_fmt \<noteq> LF_TEXT then accept_record json_loads line acc r fallback_fmt
                         else Inr (acc\<lparr>pa_corrupted := pa_corrupted acc + 1\<rparr>)
             | None \<Rightarrow> Inr (acc\<lparr>pa_corrupted := pa_corrupted acc + 1\<rparr>)))"

section \<open>The profile\<close>

fun first_best :: "string \<times> nat \<Rightarrow> (string \<times> nat) list \<Rightarrow> string" where
  "first_best best [] = fst best"
| "first_best best (p # ps) = first_best (if snd best < snd p then p else best) ps"

definition dominant_type :: "(string \<times> nat) list \<Rightarrow> string" where
  "dominant_type types = (case filter (\<lambda>(k, _). k \<noteq> ''null'') types of
       [] \<Rightarrow> ''null''
     | p # ps \<Rightarrow> first_best p ps)"

definition field_profile :: "nat \<Rightarrow> string \<times> field_acc \<Rightarrow> string \<times> FieldProfile" where
  "field_profile valid_records p = (case p of (name, a) \<Rightarrow>
     let dom_type = dominant_type (fa_types a);
         missing_cnt = int valid_records - int (sum_list (map snd (fa_types a)));
         total_null = int (fa_nulls a) + max 0 missing_cnt;
         distinct_cnt = length (fa_distinct a);
         lengths = fa_lengths a;
         non_null_cnt = int valid_records - total_null;
         is_enum = (2 \<le> non_null_cnt
           \<and> int distinct_cnt \<le> min 25 (max 2 \<lfloor>fl (of_int non_null_cnt * (1 / 2))\<rfloor>)
           \<and> dom_type \<in> {''string'', ''integer'', ''boolean''})
     in (name, \<lparr>fp_name = name, fp_inferred_type = dom_type, fp_type_distribution = fa_types a,
          fp_nullable = (0 < total_null), fp_null_count = total_null, fp_total_count = valid_records,
          fp_distinct_count = distinct_cnt, fp_sample_values = fa_samples a,
          fp_min_value = (case fa_min a of None \<Rightarrow> PNone | Some v \<Rightarrow> v),
          fp_max_value = (case fa_max a of None \<Rightarrow> PNone | Some v \<Rightarrow> v),
          fp_avg_length = (if lengths = [] then None
            else Some (py_round (fl (of_nat (sum_list lengths) / of_nat (length lengths))) 2)),
          fp_is_ip_candidate = (dom_type \<in> {''ipv4'', ''ipv6''}),
          fp_is_timestamp_candidate = (dom_type = ''timestamp''), fp_is_enum_candidate = is_enum,
          fp_enum_values = (if is_enum then Some (take 25 (sort (fa_distinct a))) else None),
          fp_presence_ratio = py_round (fl (of_int non_null_cnt / of_nat (max 1 valid_records))) 4\<rparr>))"

definition template_profile :: "nat \<Rightarrow> string \<times> template_acc \<Rightarrow> TemplateProfile" where
  "template_profile valid_records p = (case p of (pat, t) \<Rightarrow>
     \<lparr>tp_template_id = generate_template_id pat, tp_template_pattern = pat, tp_count = ta_count t,
      tp_sample_message = ta_sample t, tp_variable_count = ta_vars t,
      tp_frequency_ratio = py_round (fl (of_nat (ta_count t) / of_nat (max 1 valid_records))) 4\<rparr>)"

definition csv_headers ::
    "(string \<Rightarrow> pyval option) \<Rightarrow> LogFormat \<Rightarrow> char option \<Rightarrow> string list \<Rightarrow> string list option" where
  "csv_headers json_loads fmt delimiter lines = (case (fmt = LF_CSV, delimiter, lines) of
       (True, Some d, l1 # l2 # _) \<Rightarrow>
         (case (csv_row d l1, csv_row d l2) of
            (Some first_row, Some second_row) \<Rightarrow>
              if length first_row = length second_row
                 \<and> list_all (\<lambda>c. infer_type json_loads (PStr c) = DT_STRING) first_row
                 \<and> list_ex (\<lambda>c. infer_type json_loads (PStr c) \<noteq> DT_STRING) second_row
              then Some (map str_strip first_row) else None
          | _ \<Rightarrow> None)
     | _ \<Rightarrow> None)"

definition empty_profile :: SourceProfile where
  "empty_profile = \<lparr>sp_format = LF_UNKNOWN, sp_confidence = 0, sp_total_records = 0,
     sp_valid_records = 0, sp_corrupted_records = 0, sp_fields = [], sp_templates = [],
     sp_delimiter = None, sp_format_distribution = [], sp_sample_events = []\<rparr>"

definition finish_profile ::
    "LogFormat \<Rightarrow> rat \<Rightarrow> char option \<Rightarrow> (string \<times> nat) list \<Rightarrow> nat \<Rightarrow> profile_acc \<Rightarrow> SourceProfile" where
  "finish_profile dominant_fmt confidence delimiter fmt_dist total_records acc =
     \<lparr>sp_format = dominant_fmt, sp_confidence = confidence, sp_total_records = total_records,
      sp_valid_records = pa_valid acc, sp_corrupted_records = pa_corrupted acc,
      sp_fields = map (field_profile (pa_valid acc)) (sort_key fst (pa_fields acc)),
      sp_templates = map (template_profile (pa_valid acc))
        (take 50 (sort_key (\<lambda>(_, t). - int (ta_count t)) (pa_templates acc))),
      sp_delimiter = map_option (\<lambda>d. [d]) delimiter,
      sp_format_distribution = (if fmt_dist = [] then pa_formats acc else dict_update fmt_dist (pa_formats acc)),
      sp_sample_events = pa_parsed acc\<rparr>"

definition profile_lines ::
    "(string \<Rightarrow> pyval option) \<Rightarrow> nat \<Rightarrow> string list \<Rightarrow> SourceProfile result" where
  "profile_lines json_loads sample_limit lines =
     (if lines = [] then Inr empty_profile
      else
        let (dominant_fmt, confidence, delimiter, fmt_dist) = detect_batch_format json_loads (take sample_limit lines);
            headers = csv_headers json_loads dominant_fmt delimiter lines;
            start_idx = (if headers = None then 0 else 1)
        in res_bind (res_foldl (add_line json_loads dominant_fmt delimiter headers) init_acc (drop start_idx lines))
             (\<lambda>acc. Inr (finish_profile dominant_fmt confidence delimiter fmt_dist (length lines) acc)))"

text \<open>\<open>profile(logs)\<close> of a text and of a list of lines.\<close>

definition profile_text :: "(string \<Rightarrow> pyval option) \<Rightarrow> nat \<Rightarrow> string \<Rightarrow> SourceProfile result" where
  "profile_text json_loads sample_limit logs =
     profile_lines json_loads sample_limit (filter (\<lambda>l. str_strip l \<noteq> []) (splitlines logs))"

definition profile_list :: "(string \<Rightarrow> pyval option) \<Rightarrow> nat \<Rightarrow> string list \<Rightarrow> SourceProfile result" where
  "profile_list json_loads sample_limit logs =
     profile_lines json_loads sample_limit (map str_strip (filter (\<lambda>l. str_strip l \<noteq> []) logs))"

section \<open>Records are dictionaries\<close>

lemma foldl_dict_ok: "(\<And>r m. dict_ok r \<Longrightarrow> dict_ok (h r m)) \<Longrightarrow> dict_ok d \<Longrightarrow> dict_ok (foldl h d ms)"
  by (induction ms arbitrary: d) auto

lemma parse_cef_ok: "parse_cef s = Some d \<Longrightarrow> dict_ok d"
  by (auto simp: parse_cef_def Let_def dict_ok_def split: option.splits if_splits
      intro!: dict_ok_dict_update [unfolded dict_ok_def])

lemma parse_leef_ok: "parse_leef s = Inr (Some d) \<Longrightarrow> dict_ok d"
  by (auto simp: parse_leef_def Let_def dict_ok_def result_simps split: option.splits if_splits
      intro!: dict_ok_dict_update [unfolded dict_ok_def])

lemma add_sd_block_ok: "add_sd_block r b = Inr r' \<Longrightarrow> dict_ok r \<Longrightarrow> dict_ok r'"
  by (auto simp: add_sd_block_def Let_def split: list.splits intro!: foldl_dict_ok)

lemma syslog_5424_record_ok: "dict_ok (syslog_5424_record m)"
  by (simp add: syslog_5424_record_def Let_def dict_ok_def)

lemma parse_syslog_5424_ok: "parse_syslog_5424 s = Inr (Some d) \<Longrightarrow> dict_ok d"
  by (auto simp: parse_syslog_5424_def Let_def result_simps syslog_5424_record_ok
      split: option.splits if_splits prod.splits
      intro: res_foldl_invariant [where P = dict_ok] add_sd_block_ok)

lemma parse_syslog_3164_ok: "parse_syslog_3164 s = Some d \<Longrightarrow> dict_ok d"
  by (auto simp: parse_syslog_3164_def Let_def dict_ok_def split: option.splits)

lemma parse_json_ok: "parse_json j s = Some d \<Longrightarrow> dict_ok d"
  by (auto simp: parse_json_def flatten_dict_def split: option.splits pyval.splits)

lemma parse_kv_ok: "dict_ok (parse_kv s)"
  unfolding parse_kv_def by (rule foldl_dict_ok) auto

lemma parse_csv_line_ok: "parse_csv_line s d h = Some r \<Longrightarrow> dict_ok r"
  by (auto simp: parse_csv_line_def Let_def split: option.splits if_splits)

lemma settle_ok:
  "settle s h f res = (Some r, f') \<Longrightarrow> (\<And>d. res = Some d \<Longrightarrow> dict_ok d) \<Longrightarrow> dict_ok r"
  by (auto simp: settle_def text_record_def dict_ok_def split: option.splits if_splits)

lemma settle_total: "settle s None f res = (r, f') \<Longrightarrow> r \<noteq> None"
  by (auto simp: settle_def text_record_def split: option.splits)

lemma parse_record_ok: "parse_record j s h d hs = Inr (Some r, f) \<Longrightarrow> dict_ok r"
  by (auto simp: parse_record_def Let_def result_simps text_record_def dict_ok_def [of "[(''message'', _)]"]
      split: if_splits LogFormat.splits option.splits
      elim!: settle_ok
      dest: parse_cef_ok parse_leef_ok parse_syslog_5424_ok parse_syslog_3164_ok parse_json_ok
        parse_csv_line_ok intro: parse_kv_ok)

section \<open>Counting\<close>

definition acc_total :: "field_acc \<Rightarrow> nat" where
  "acc_total a = sum_list (map snd (fa_types a))"

lemma sum_count_up: "sum_list (map snd (count_up k c)) = sum_list (map snd c) + 1"
proof -
  have "sum_list (map snd (AList.update k (n + 1) c)) = sum_list (map snd c) + 1"
    if "n = (case map_of c k of None \<Rightarrow> 0 | Some n \<Rightarrow> n)" for n
    using that by (induction c) auto
  then show ?thesis by (simp add: count_up_def)
qed

lemma add_bounds_keeps:
  "add_bounds t v a = Inr a' \<Longrightarrow> fa_types a' = fa_types a \<and> fa_nulls a' = fa_nulls a"
  by (auto simp: add_bounds_def result_simps split: if_splits)

lemma add_present_keeps [simp]:
  "fa_types (add_present v a) = fa_types a" "fa_nulls (add_present v a) = fa_nulls a"
  "fa_min (add_present v a) = fa_min a" "fa_max (add_present v a) = fa_max a"
  by (simp_all add: add_present_def Let_def)

lemma add_value_counts:
  assumes "add_value j a v = Inr a'"
  shows "acc_total a' = acc_total a + 1" "fa_nulls a' \<le> fa_nulls a + 1"
    "fa_nulls a \<le> acc_total a \<Longrightarrow> fa_nulls a' \<le> acc_total a'"
  using assms
  by (auto simp: add_value_def Let_def acc_total_def sum_count_up dest!: add_bounds_keeps split: if_splits)

definition field_total :: "(string \<times> field_acc) list \<Rightarrow> string \<Rightarrow> nat" where
  "field_total fs k = acc_total (dict_get fs k empty_acc)"

definition field_nulls :: "(string \<times> field_acc) list \<Rightarrow> string \<Rightarrow> nat" where
  "field_nulls fs k = fa_nulls (dict_get fs k empty_acc)"

lemma add_field_counts:
  assumes "add_field j fs (k, v) = Inr fs'" "\<forall>k. field_nulls fs k \<le> field_total fs k"
  shows "field_total fs' k' = field_total fs k' + (if k' = k then 1 else 0)"
    "\<forall>k. field_nulls fs' k \<le> field_total fs' k"
  using assms add_value_counts
  by (auto simp: add_field_def result_simps field_total_def field_nulls_def dict_simps)

lemma add_fields_counts:
  assumes "res_foldl (add_field j) fs ps = Inr fs'" "distinct (map fst ps)"
    "\<forall>k. field_nulls fs k \<le> field_total fs k"
  shows "field_total fs' k' = field_total fs k' + (if k' \<in> fst ` set ps then 1 else 0)
    \<and> (\<forall>k. field_nulls fs' k \<le> field_total fs' k)"
  using assms
proof (induction ps arbitrary: fs)
  case (Cons p ps)
  obtain k v where p: "p = (k, v)" by (cases p)
  from Cons.prems(1) obtain fs1 where 1: "add_field j fs (k, v) = Inr fs1"
    and rest: "res_foldl (add_field j) fs1 ps = Inr fs'" by (auto simp: result_simps p)
  note c = add_field_counts [OF 1 Cons.prems(3)]
  from Cons.IH [OF rest _ c(2)] Cons.prems(2) c(1) [of k'] p show ?case by (auto simp: image_iff)
qed simp

lemma add_field_ok: "add_field j fs p = Inr fs' \<Longrightarrow> dict_ok fs \<Longrightarrow> dict_ok fs'"
  by (auto simp: add_field_def result_simps split: prod.splits)

definition acc_inv :: "profile_acc \<Rightarrow> bool" where
  "acc_inv acc \<longleftrightarrow> dict_ok (pa_fields acc)
     \<and> (\<forall>k. field_nulls (pa_fields acc) k \<le> field_total (pa_fields acc) k)
     \<and> (\<forall>k. field_total (pa_fields acc) k \<le> pa_valid acc)"

lemma acc_inv_init: "acc_inv init_acc"
  by (simp add: acc_inv_def init_acc_def field_total_def field_nulls_def dict_get_def empty_acc_def acc_total_def)

lemma accept_record_step:
  assumes "accept_record j line acc parsed f = Inr acc'" "dict_ok parsed" "acc_inv acc"
  shows "acc_inv acc' \<and> pa_valid acc' + pa_corrupted acc' = pa_valid acc + pa_corrupted acc + 1"
proof -
  obtain fs where fs: "res_foldl (add_field j) (pa_fields acc) parsed = Inr fs"
    and acc': "pa_fields acc' = fs" "pa_valid acc' = pa_valid acc + 1" "pa_corrupted acc' = pa_corrupted acc"
    using assms(1) by (auto simp: accept_record_def result_simps)
  have d: "distinct (map fst parsed)" using assms(2) by (simp add: dict_ok_def)
  have n: "\<forall>k. field_nulls (pa_fields acc) k \<le> field_total (pa_fields acc) k"
    using assms(3) by (simp add: acc_inv_def)
  have "dict_ok fs" using fs by (rule res_foldl_invariant)
      (use assms(3) add_field_ok in \<open>auto simp: acc_inv_def\<close>)
  moreover have "field_total fs k \<le> pa_valid acc + 1" for k
    using add_fields_counts [OF fs d n, of k] assms(3) by (auto simp: acc_inv_def intro: le_SucI)
  moreover have "\<forall>k. field_nulls fs k \<le> field_total fs k" using add_fields_counts [OF fs d n] by blast
  ultimately show ?thesis by (simp add: acc_inv_def acc')
qed

lemma corrupt_step:
  "acc_inv acc \<Longrightarrow> acc_inv (acc\<lparr>pa_corrupted := pa_corrupted acc + 1\<rparr>)"
  by (simp add: acc_inv_def)

lemma add_line_step:
  assumes "add_line j f d hs acc line = Inr acc'" "acc_inv acc"
  shows "acc_inv acc' \<and> pa_valid acc' + pa_corrupted acc' = pa_valid acc + pa_corrupted acc + 1"
proof -
  obtain parsed fmt where 1: "parse_record j line (Some f) d hs = Inr (parsed, fmt)"
    using assms(1) by (auto simp: add_line_def result_simps)
  show ?thesis
  proof (cases "\<exists>p ps. parsed = Some (p # ps)")
    case True
    then show ?thesis
      using assms 1 accept_record_step parse_record_ok by (fastforce simp: add_line_def)
  next
    case False
    then obtain fallback fmt' where 2: "parse_record j line None None None = Inr (fallback, fmt')"
      using assms(1) 1 by (auto simp: add_line_def result_simps split: option.splits list.splits)
    then show ?thesis
      using assms 1 False accept_record_step parse_record_ok corrupt_step
      by (auto simp: add_line_def split: option.splits list.splits if_splits)
  qed
qed

lemma add_lines_step:
  assumes "res_foldl (add_line j f d hs) acc ls = Inr acc'" "acc_inv acc"
  shows "acc_inv acc' \<and> pa_valid acc' + pa_corrupted acc' = pa_valid acc + pa_corrupted acc + length ls"
  using assms
proof (induction ls arbitrary: acc)
  case (Cons l ls)
  then obtain acc1 where "add_line j f d hs acc l = Inr acc1" "res_foldl (add_line j f d hs) acc1 ls = Inr acc'"
    by (auto simp: result_simps)
  with Cons add_line_step [OF this(1)] show ?case by fastforce
qed simp

lemma field_profile_bounds:
  assumes "fa_nulls a \<le> acc_total a" "acc_total a \<le> n" "field_profile n (k, a) = (k', fp)"
  shows "0 \<le> fp_null_count fp \<and> fp_null_count fp \<le> int (fp_total_count fp)
    \<and> fp_total_count fp = n \<and> 0 \<le> fp_presence_ratio fp \<and> fp_presence_ratio fp \<le> 1"
proof -
  let ?null = "int (fa_nulls a) + max 0 (int n - int (acc_total a))"
  have null: "fp_null_count fp = ?null" "fp_total_count fp = n"
    and ratio: "fp_presence_ratio fp = py_round (fl (of_int (int n - ?null) / of_nat (max 1 n))) 4"
    using assms(3) by (auto simp: field_profile_def Let_def acc_total_def)
  have b: "0 \<le> ?null" "?null \<le> int n" using assms(1,2) by auto
  then have "(0 :: rat) \<le> of_int (int n - ?null)" by (simp only: of_int_0_le_iff)
  moreover have "of_int (int n - ?null) \<le> (of_nat (max 1 n) :: rat)"
  proof -
    have "int n - ?null \<le> int (max 1 n)" using b by simp
    then show ?thesis by (metis of_int_le_iff of_int_of_nat_eq)
  qed
  ultimately have "0 \<le> (of_int (int n - ?null) / of_nat (max 1 n) :: rat)"
    "(of_int (int n - ?null) / of_nat (max 1 n) :: rat) \<le> 1"
    by (auto simp: divide_le_eq_1)
  then show ?thesis using b unfolding null ratio by (simp add: float_bounds)
qed

text \<open>Once a bound of a field is a string, a number no longer compares with it.\<close>

definition string_bound :: "field_acc \<Rightarrow> bool" where
  "string_bound a \<longleftrightarrow> (\<exists>s. fa_min a = Some (PStr s) \<or> fa_max a = Some (PStr s))"

lemma improve_Inr: "improve old new (\<lambda>n o'. Inr (c n o')) = Inr (case old of
     None \<Rightarrow> Some new | Some o' \<Rightarrow> if c new o' then Some new else old)"
  by (simp add: improve_def split: option.split)

lemma first_string_bound:
  assumes "fa_min a = None" "infer_type j v = DT_STRING" "add_value j a v = Inr a'"
  shows "string_bound a'"
  using assms by (auto simp: add_value_def Let_def add_bounds_def improve_Inr string_bound_def)

lemma number_on_string_bound:
  assumes "string_bound a" "infer_type j v \<in> {DT_INTEGER, DT_FLOAT}"
  shows "\<exists>e. add_value j a v = Inl e"
proof (cases "py_float v")
  case (Inl e)
  then show ?thesis using assms by (auto simp: add_value_def Let_def add_bounds_def)
next
  case (Inr num)
  let ?a = "add_present v (a\<lparr>fa_types := count_up (DataType_value (infer_type j v)) (fa_types a)\<rparr>)"
  have "(\<exists>e. improve (fa_min a) num float_lt = Inl e) \<or> (\<exists>e. improve (fa_max a) num float_gt = Inl e)"
    using assms(1) by (auto simp: string_bound_def improve_def)
  then show ?thesis using assms(2) Inr
    by (cases "improve (fa_min a) num float_lt"; cases "improve (fa_max a) num float_gt")
      (auto simp: add_value_def Let_def add_bounds_def)
qed

lemma string_bound_kept:
  assumes "string_bound a" "add_value j a v = Inr a'"
  shows "string_bound a'"
proof (cases "infer_type j v \<in> {DT_INTEGER, DT_FLOAT}")
  case True
  then show ?thesis using number_on_string_bound [OF assms(1) True] assms(2) by auto
next
  case False
  then show ?thesis using assms
    by (auto simp: add_value_def Let_def add_bounds_def improve_Inr string_bound_def split: if_splits)
qed

section \<open>Properties\<close>

text \<open>
  C16. Every line is accounted for: when profiling returns, the number of records is the number
  of non-blank lines; each is valid, corrupted or the header line of a CSV file; and for every
  field the null count lies between 0 and the number of valid records and the presence ratio
  between 0 and 1.
\<close>

theorem profile_accounting:
  assumes "profile_list json_loads limit logs = Inr p"
  shows "sp_total_records p = length (filter (\<lambda>l. str_strip l \<noteq> []) logs)
    \<and> (\<exists>h \<le> 1. sp_valid_records p + sp_corrupted_records p + h = sp_total_records p
         \<and> (h = 1 \<longrightarrow> sp_format p = LF_CSV))
    \<and> (\<forall>(k, fp)\<in>set (sp_fields p). 0 \<le> fp_null_count fp \<and> fp_null_count fp \<le> int (sp_valid_records p)
         \<and> 0 \<le> fp_presence_ratio fp \<and> fp_presence_ratio fp \<le> 1)"
proof (cases "filter (\<lambda>l. str_strip l \<noteq> []) logs = []")
  case True
  then show ?thesis using assms by (auto simp: profile_list_def profile_lines_def empty_profile_def)
next
  case False
  let ?lines = "map str_strip (filter (\<lambda>l. str_strip l \<noteq> []) logs)"
  obtain f c d fmt where b: "detect_batch_format json_loads (take limit ?lines) = (f, c, d, fmt)"
    by (metis prod_cases4)
  let ?hs = "csv_headers json_loads f d ?lines"
  let ?start = "if ?hs = None then 0 else 1 :: nat"
  obtain acc where acc: "res_foldl (add_line json_loads f d ?hs) init_acc (drop ?start ?lines) = Inr acc"
    and p: "p = finish_profile f c d fmt (length ?lines) acc"
    using assms False b by (auto simp: profile_list_def profile_lines_def result_simps Let_def)
  from add_lines_step [OF acc acc_inv_init] have inv: "acc_inv acc"
    and n: "pa_valid acc + pa_corrupted acc = length ?lines - ?start" by (auto simp: init_acc_def)
  have "?start \<le> length ?lines" using False by (cases ?lines) auto
  moreover have "?start = 1 \<longrightarrow> f = LF_CSV"
    by (auto simp: csv_headers_def split: if_splits bool.splits)
  ultimately have h: "\<exists>h \<le> 1. pa_valid acc + pa_corrupted acc + h = length ?lines \<and> (h = 1 \<longrightarrow> f = LF_CSV)"
    using n by (intro exI [of _ ?start]) auto
  have "0 \<le> fp_null_count fp \<and> fp_null_count fp \<le> int (pa_valid acc)
      \<and> 0 \<le> fp_presence_ratio fp \<and> fp_presence_ratio fp \<le> 1"
    if "(k, fp) \<in> set (sp_fields p)" for k fp
  proof -
    from that obtain k0 a where a: "(k0, a) \<in> set (pa_fields acc)"
      and fp: "field_profile (pa_valid acc) (k0, a) = (k, fp)" by (auto simp: p finish_profile_def)
    have "dict_get (pa_fields acc) k0 empty_acc = a"
      using a inv by (auto simp: acc_inv_def dict_ok_map_of dict_get_def)
    then have "fa_nulls a \<le> acc_total a" "acc_total a \<le> pa_valid acc"
      using inv unfolding acc_inv_def field_nulls_def field_total_def by metis+
    from field_profile_bounds [OF this fp] show ?thesis by simp
  qed
  then have "\<forall>(k, fp)\<in>set (sp_fields p). 0 \<le> fp_null_count fp \<and> fp_null_count fp \<le> int (pa_valid acc)
      \<and> 0 \<le> fp_presence_ratio fp \<and> fp_presence_ratio fp \<le> 1" by blast
  moreover have "sp_total_records p = length ?lines" "sp_valid_records p = pa_valid acc"
    "sp_corrupted_records p = pa_corrupted acc" "sp_format p = f" by (simp_all add: p finish_profile_def)
  ultimately show ?thesis using h by simp
qed

text \<open>
  C17. Mixed columns crash the profiler: if the first bounded value of a field is a plain string
  and a later one is a number, the aggregation of the field's values raises, whatever stands
  between them; the handler of the comparison only expects a \<open>ValueError\<close>.
\<close>

theorem mixed_column_raises:
  assumes "fa_min a = None" "infer_type j v = DT_STRING" "infer_type j w \<in> {DT_INTEGER, DT_FLOAT}"
  shows "\<exists>e. res_foldl (add_value j) a (v # vs @ [w]) = Inl e"
proof (cases "add_value j a v")
  case (Inr a1)
  show ?thesis
  proof (cases "res_foldl (add_value j) a1 vs")
    case 1: (Inr a2)
    have "string_bound a2"
      using 1 first_string_bound [OF assms(1,2) Inr] by (rule res_foldl_invariant) (rule string_bound_kept)
    then show ?thesis using number_on_string_bound [OF _ assms(3)] Inr 1 by (auto simp: res_foldl_append)
  qed (simp add: Inr res_foldl_append)
qed simp

text \<open>
  The two ways in which parsing a line can raise: structured data of a syslog line with a blank
  block in brackets, and a LEEF 2 delimiter given as a hexadecimal number outside the C integers.
\<close>

definition blank_structured_data :: "string \<Rightarrow> bool" where
  "blank_structured_data s = (case re_match SYSLOG_5424_HDR s of
       None \<Rightarrow> False
     | Some m \<Rightarrow> list_ex (\<lambda>block. list_all is_space (butlast (tl block))) (fst (sd_blocks (str_strip (group_text m 7)))))"

definition huge_delimiter :: "string \<Rightarrow> bool" where
  "huge_delimiter s = (case re_match LEEF_HEADER_REGEX s of
       None \<Rightarrow> False
     | Some m \<Rightarrow>
         let remainder = group_text m 6; raw = takeWhile (\<lambda>c. c \<noteq> CHR ''|'') remainder
         in str_startswith (group_text m 1) ''2'' \<and> CHR ''|'' \<in> set remainder
            \<and> (str_startswith raw ''x'' \<or> str_startswith raw ''0x'')
            \<and> (case parse_int16 (str_replace ''x'' [] (str_replace ''0x'' [] raw)) of
                 None \<Rightarrow> False | Some code \<Rightarrow> code < - (2 ^ 31) \<or> 2 ^ 31 \<le> code))"

lemma lstrip_str_strip: "dropWhile is_space (str_strip s) = str_strip s"
proof -
  define t where "t = dropWhile is_space s"
  have "str_strip s @ rev (takeWhile is_space (rev t)) = t"
    by (simp add: str_defs t_def [symmetric]) (metis rev_append rev_rev_ident takeWhile_dropWhile_id)
  moreover have "t \<noteq> [] \<Longrightarrow> \<not> is_space (hd t)" by (simp add: t_def hd_dropWhile)
  ultimately have "str_strip s \<noteq> [] \<Longrightarrow> \<not> is_space (hd (str_strip s))" by (metis append_is_Nil_conv hd_append2)
  then show ?thesis by (cases "str_strip s") simp_all
qed

lemma str_strip_idem [simp]: "str_strip (str_strip s) = str_strip s"
proof -
  have "str_strip (str_strip s) = rev (dropWhile is_space (rev (str_strip s)))"
    using lstrip_str_strip [of s] by (simp add: str_strip_def rstrip_by_def lstrip_by_def)
  then show ?thesis by (simp add: str_strip_def rstrip_by_def lstrip_by_def)
qed

lemma str_strip_eq_Nil: "str_strip s = [] \<longleftrightarrow> list_all is_space s"
proof -
  have "str_strip s = [] \<longleftrightarrow> list_all is_space (dropWhile is_space s)"
    by (simp add: str_strip_def rstrip_by_def lstrip_by_def list_all_iff)
  moreover have "list_all is_space (dropWhile is_space s) \<longleftrightarrow> dropWhile is_space s = []"
    by (metis hd_dropWhile hd_in_set list_all_iff list.pred_inject(1))
  moreover have "dropWhile is_space s = [] \<longleftrightarrow> list_all is_space s" by (simp add: list_all_iff)
  ultimately show ?thesis by blast
qed

lemma split_word_Nil: "split_word (str_strip s) = [] \<longleftrightarrow> list_all is_space s"
proof -
  have "takeWhile (\<lambda>c. \<not> is_space c) (str_strip s) = [] \<longleftrightarrow> str_strip s = []"
  proof (cases "str_strip s")
    case (Cons c t)
    have "dropWhile is_space (str_strip s) \<noteq> []" by (subst lstrip_str_strip) (simp add: Cons)
    from hd_dropWhile [OF this] have "\<not> is_space (hd (str_strip s))" by (subst (asm) lstrip_str_strip)
    then have "\<not> is_space c" using Cons by simp
    then show ?thesis by (simp add: Cons)
  qed simp
  moreover have "split_word (str_strip s) = [] \<longleftrightarrow> takeWhile (\<lambda>c. \<not> is_space c) (str_strip s) = []"
    unfolding split_word_def lstrip_str_strip Let_def
    by (simp only: list.distinct if_distrib [of "\<lambda>x. x = []"] if_cancel simp_thms) simp
  ultimately show ?thesis using str_strip_eq_Nil by blast
qed

lemma add_sd_block_raises: "add_sd_block r b = Inl e \<longleftrightarrow> list_all is_space (butlast (tl b)) \<and> e = IndexError"
  by (auto simp: add_sd_block_def split_word_Nil [symmetric] split: list.splits)

lemma sd_blocks_raise:
  "res_foldl add_sd_block r bs = Inl e \<longleftrightarrow> list_ex (\<lambda>b. list_all is_space (butlast (tl b))) bs \<and> e = IndexError"
proof (induction bs arbitrary: r)
  case (Cons b bs)
  show ?case
  proof (cases "add_sd_block r b")
    case (Inl e')
    then show ?thesis using add_sd_block_raises [of r b e'] by auto
  next
    case (Inr r')
    then have "\<not> list_all is_space (butlast (tl b))" using add_sd_block_raises [of r b IndexError] by auto
    with Inr Cons.IH show ?thesis by simp
  qed
qed simp

lemma parse_syslog_5424_raises:
  "parse_syslog_5424 s = Inl e \<longleftrightarrow> blank_structured_data (str_strip s) \<and> e = IndexError"
proof -
  have none: "fst (sd_blocks t) = []" if "\<not> str_startswith t ''[''" for t
    using that by (subst sd_blocks.simps) simp
  have dash: "\<not> str_startswith t ''[''" if "t = [] \<or> t = ''-'' \<or> str_startswith t ''- ''" for t
    using that by (cases t; cases "tl t") (auto simp: str_startswith_def)
  show ?thesis
  proof (cases "re_match SYSLOG_5424_HDR (str_strip s)")
    case (Some m)
    let ?rest = "str_strip (group_text m 7)"
    show ?thesis
    proof (cases "group_text m 7 = [] \<or> ?rest = ''-'' \<or> str_startswith ?rest ''- ''")
      case True
      then have "fst (sd_blocks ?rest) = []" by (intro none dash) auto
      with True Some show ?thesis by (auto simp: parse_syslog_5424_def blank_structured_data_def Let_def)
    next
      case False
      with Some show ?thesis
        by (auto simp: parse_syslog_5424_def blank_structured_data_def Let_def sd_blocks_raise case_prod_unfold result_simps)
    qed
  qed (simp add: parse_syslog_5424_def blank_structured_data_def)
qed

lemma resolve_leef_delimiter_raises:
  "resolve_leef_delimiter raw = Inl e \<longleftrightarrow> (str_startswith raw ''x'' \<or> str_startswith raw ''0x'')
     \<and> (case parse_int16 (str_replace ''x'' [] (str_replace ''0x'' [] raw)) of
          None \<Rightarrow> False | Some code \<Rightarrow> code < - (2 ^ 31) \<or> 2 ^ 31 \<le> code) \<and> e = OverflowError"
proof -
  have "(if P then (case c of None \<Rightarrow> Inr f | Some code \<Rightarrow> if A code then Inl OverflowError
        else if B code then Inr f else if C code then Inr (g code) else Inr h) else Inr f) = Inl e
      \<longleftrightarrow> P \<and> (case c of None \<Rightarrow> False | Some code \<Rightarrow> A code) \<and> e = OverflowError"
    for P C and c :: "int option" and A B :: "int \<Rightarrow> bool" and f h :: "string option" and g
    by (cases c) auto
  then show ?thesis unfolding resolve_leef_delimiter_def Let_def .
qed

lemma split1_head: "hd (str_split1 c r) = takeWhile (\<lambda>x. x \<noteq> c) r"
proof (cases "c \<in> set r")
  case False
  then have "hd (str_split1 c r) = r" by (simp add: str_split1_def)
  also have "r = takeWhile (\<lambda>x. x \<noteq> c) r"
    using False by (intro takeWhile_eq_all_conv [THEN iffD2, symmetric]) auto
  finally show ?thesis .
qed (simp add: str_split1_def)

lemma parse_leef_raises:
  "parse_leef s = Inl e \<longleftrightarrow> huge_delimiter (str_strip s) \<and> e = OverflowError"
proof (cases "re_match LEEF_HEADER_REGEX (str_strip s)")
  case (Some m)
  let ?r = "group_text m 6"
  let ?raw = "takeWhile (\<lambda>c. c \<noteq> CHR ''|'') ?r"
  show ?thesis
  proof (cases "?r \<noteq> [] \<and> str_startswith (group_text m 1) ''2'' \<and> CHR ''|'' \<in> set ?r")
    case True
    show ?thesis
    proof (cases "resolve_leef_delimiter ?raw")
      case (Inl e')
      with Some True resolve_leef_delimiter_raises [of ?raw e'] show ?thesis
        by (auto simp: parse_leef_def huge_delimiter_def split1_head Let_def)
    next
      case (Inr d)
      with Some True resolve_leef_delimiter_raises [of ?raw OverflowError] show ?thesis
        by (auto simp: parse_leef_def huge_delimiter_def split1_head Let_def)
    qed
  next
    case False
    with Some show ?thesis by (auto simp: parse_leef_def huge_delimiter_def Let_def)
  qed
qed (simp add: parse_leef_def huge_delimiter_def)

text \<open>
  C18. What parsing a line that is not blank without a hint gives, exactly. It raises IndexError for
  a syslog line with a blank block of structured data and OverflowError for a LEEF line with a huge
  hexadecimal delimiter. In every other case it yields a record, of the detected format or, where
  that format's parser rejects the line or none was detected, the fallback that holds the stripped
  line as its message; a record never repeats a key.
\<close>

theorem parse_record_total:
  assumes "str_strip line \<noteq> []"
  shows "let s = str_strip line; detected = fst (detect_format j s);
      blank = (detected = LF_SYSLOG_RFC5424 \<and> blank_structured_data s);
      huge = (detected = LF_LEEF \<and> huge_delimiter s)
    in case parse_record j line None None None of
        Inl e \<Rightarrow> blank \<and> e = IndexError \<or> huge \<and> e = OverflowError
      | Inr (r, f) \<Rightarrow> \<not> blank \<and> \<not> huge \<and> (\<exists>d. r = Some d \<and> dict_ok d
          \<and> (f = detected \<and> f \<noteq> LF_TEXT \<or> f = LF_TEXT \<and> d = [(''message'', PStr s)]))"
proof -
  define s where "s = str_strip line"
  define detected where "detected = fst (detect_format j s)"
  have strip: "str_strip s = s" by (simp add: s_def)
  have settled: "\<exists>d. settle s None g res = (Some d, f) \<and> (f = g \<or> f = LF_TEXT \<and> d = [(''message'', PStr s)])"
    if "settle s None g res = (r, f)" for g res r f
    using that by (auto simp: settle_def text_record_def split: option.splits)
  have formats: "detected \<in> {LF_CEF, LF_LEEF, LF_SYSLOG_RFC5424, LF_SYSLOG_RFC3164, LF_JSON, LF_KEY_VALUE, LF_TEXT}"
    using assms by (simp add: detected_def detect_format_def s_def Let_def)
  define good where "good = (\<lambda>out. case out of
      Inl e \<Rightarrow> detected = LF_SYSLOG_RFC5424 \<and> blank_structured_data s \<and> e = IndexError
        \<or> detected = LF_LEEF \<and> huge_delimiter s \<and> e = OverflowError
    | Inr (r, f) \<Rightarrow> \<not> (detected = LF_SYSLOG_RFC5424 \<and> blank_structured_data s) \<and> \<not> (detected = LF_LEEF \<and> huge_delimiter s)
        \<and> (\<exists>d. r = Some d \<and> (f = detected \<and> f \<noteq> LF_TEXT \<or> f = LF_TEXT \<and> d = [(''message'', PStr s)])))"
  have plain: "good (Inr (settle s None detected res))"
    if "detected \<noteq> LF_SYSLOG_RFC5424" "detected \<noteq> LF_LEEF" "detected \<noteq> LF_TEXT" for res
    using that by (auto simp: good_def settle_def text_record_def split: option.split)
  have leef: "good (res_bind (parse_leef s) (\<lambda>r. Inr (settle s None detected r)))" if "detected = LF_LEEF"
    using parse_leef_raises [of s] that strip
    by (cases "parse_leef s") (auto simp: good_def settle_def text_record_def split: option.split)
  have syslog: "good (res_bind (parse_syslog_5424 s) (\<lambda>r. Inr (settle s None detected r)))" if "detected = LF_SYSLOG_RFC5424"
    using parse_syslog_5424_raises [of s] that strip
    by (cases "parse_syslog_5424 s") (auto simp: good_def settle_def text_record_def split: option.split)
  have unstructured: "good (Inr (text_record s))" if "detected = LF_TEXT"
    using that by (simp add: good_def text_record_def)
  have "good (parse_record j line None None None)"
    unfolding parse_record_def s_def [symmetric] Let_def option.case detected_def [symmetric]
    using assms formats plain leef syslog unstructured by (auto simp: s_def [symmetric])
  moreover have "\<And>d f. parse_record j line None None None = Inr (Some d, f) \<Longrightarrow> dict_ok d"
    using parse_record_ok by blast
  ultimately show ?thesis
    unfolding good_def Let_def s_def [symmetric] detected_def [symmetric]
    by (auto split: sum.splits prod.splits)
qed

section \<open>Witnesses\<close>

definition demo_json :: "string \<Rightarrow> pyval option" where
  "demo_json s = (if s = ''{..}'' then Some (PDict [(''message'', PInt 1)]) else None)"

lemma sample_profiled:
  "(case profile_list demo_json 10 [''{..}''] of Inl e \<Rightarrow> False | Inr p \<Rightarrow> sp_valid_records p = 1)"
  by code_simp

theorem profile_accounting_witness:
  "\<exists>p. profile_list demo_json 10 [''{..}''] = Inr p \<and> sp_valid_records p = 1
     \<and> sp_total_records p = length (filter (\<lambda>l. str_strip l \<noteq> []) [''{..}''])"
proof -
  obtain p where p: "profile_list demo_json 10 [''{..}''] = Inr p" "sp_valid_records p = 1"
    using sample_profiled by (auto split: sum.splits)
  with profile_accounting [OF p(1)] show ?thesis by blast
qed

theorem mixed_column_raises_witness:
  "\<exists>e. res_foldl (add_value (\<lambda>_. None)) empty_acc [PStr ''abc'', PStr ''5''] = Inl e"
proof -
  have "infer_type (\<lambda>_. None) (PStr ''abc'') = DT_STRING" "infer_type (\<lambda>_. None) (PStr ''5'') = DT_INTEGER"
    by code_simp+
  moreover have "fa_min empty_acc = None" by (simp add: empty_acc_def)
  ultimately show ?thesis using mixed_column_raises [of empty_acc _ "PStr ''abc''" "PStr ''5''" "[]"] by simp
qed

theorem parse_record_total_witness:
  "parse_record (\<lambda>_. None) ''hello'' None None None = Inr (Some [(''message'', PStr ''hello'')], LF_TEXT)"
proof -
  have "str_strip ''hello'' = ''hello''" "fst (detect_format (\<lambda>_. None) ''hello'') = LF_TEXT" by code_simp+
  with parse_record_total [of "''hello''" "\<lambda>_. None"] show ?thesis
    by (auto simp: Let_def split: sum.splits)
qed

text \<open>Syslog lines with a blank block exist, and LEEF lines with a huge delimiter.\<close>

lemma unparsable_lines:
  "parse_record (\<lambda>_. None) ''<34>1 - - - - - []'' None None None = Inl IndexError"
  "parse_record (\<lambda>_. None) ''LEEF:2.0|v|p|1|e|x80000000|a=b'' None None None = Inl OverflowError"
  by code_simp+

end
