(* ===== verification/KnowledgeBase.thy ===== *)
theory KnowledgeBase
  imports ProfileTypes
begin

text \<open>
  The catalogue of canonical fields of \<open>ml/semantic_mapper/mapper.py\<close>,
  \<open>CanonicalKnowledgeBase\<close>: the definitions in the order of the source, the index from
  normalised names to paths that the constructor builds from them, and the lookups. The sets of
  a definition are lists without repetitions: the code only tests membership in them and takes
  maxima over them, and all aliases of a definition are registered for the same path.
\<close>

section \<open>Definitions\<close>

record CanonicalFieldDefinition =
  cf_path :: string
  cf_expected_types :: "string list"
  cf_description :: string
  cf_is_critical :: bool
  cf_event_families :: "string list"
  cf_aliases :: "string list"
  cf_suggested_transform :: "string option"

definition all_families :: "string list" where
  "all_families = [''NETWORK_CONNECTION'', ''FIREWALL_POLICY'', ''AUTHENTICATION'',
     ''DNS_ACTIVITY'', ''WEB_SESSION'', ''SECURITY_ALERT'', ''GENERIC_NETWORK_EVENT'']"

definition kb_perimeter :: "CanonicalFieldDefinition list" where
  "kb_perimeter = [
     \<lparr> cf_path = ''src.ip'',
        cf_expected_types = [''ipv4'', ''ipv6'', ''ip''],
        cf_description = ''Source IP address of network event'',
        cf_is_critical = True,
        cf_event_families = [''NETWORK_CONNECTION'', ''FIREWALL_POLICY'', ''AUTHENTICATION'',
                               ''DNS_ACTIVITY'', ''WEB_SESSION'', ''SECURITY_ALERT'',
                               ''GENERIC_NETWORK_EVENT''],
        cf_aliases = [''src'', ''src_ip'', ''source_ip'', ''srcip'', ''source_address'',
                      ''s_ip'', ''source'', ''client_ip'', ''clientip'', ''c_ip'', ''src_addr'',
                      ''sourceaddress'', ''initiator_ip'', ''sender_ip'', ''sourceipaddress''],
        cf_suggested_transform = Some ''parse_ip'' \<rparr>,
     \<lparr> cf_path = ''dst.ip'',
        cf_expected_types = [''ipv4'', ''ipv6'', ''ip''],
        cf_description = ''Destination IP address of network event'',
        cf_is_critical = True,
        cf_event_families = [''NETWORK_CONNECTION'', ''FIREWALL_POLICY'', ''AUTHENTICATION'',
                               ''DNS_ACTIVITY'', ''WEB_SESSION'', ''SECURITY_ALERT'',
                               ''GENERIC_NETWORK_EVENT''],
        cf_aliases = [''dst'', ''dst_ip'', ''destination_ip'', ''dest_ip'', ''destip'',
                      ''destination_address'', ''d_ip'', ''destination'', ''server_ip'',
                      ''serverip'', ''dst_addr'', ''destaddress'', ''target_ip'',
                      ''responder_ip'', ''destinationipaddress''],
        cf_suggested_transform = Some ''parse_ip'' \<rparr>,
     \<lparr> cf_path = ''src.port'',
        cf_expected_types = [''integer''],
        cf_description = ''Source port number'',
        cf_is_critical = True,
        cf_event_families = [''NETWORK_CONNECTION'', ''FIREWALL_POLICY'', ''WEB_SESSION'',
                               ''GENERIC_NETWORK_EVENT''],
        cf_aliases = [''spt'', ''src_port'', ''source_port'', ''srcport'', ''s_port'', ''sport'',
                      ''client_port'', ''sourceport''],
        cf_suggested_transform = Some ''to_integer'' \<rparr>,
     \<lparr> cf_path = ''dst.port'',
        cf_expected_types = [''integer''],
        cf_description = ''Destination port number'',
        cf_is_critical = True,
        cf_event_families = [''NETWORK_CONNECTION'', ''FIREWALL_POLICY'', ''DNS_ACTIVITY'',
                               ''WEB_SESSION'', ''GENERIC_NETWORK_EVENT''],
        cf_aliases = [''dpt'', ''dst_port'', ''destination_port'', ''dest_port'', ''destport'',
                      ''d_port'', ''dport'', ''server_port'', ''destinationport'',
                      ''service_port''],
        cf_suggested_transform = Some ''to_integer'' \<rparr>]"

definition kb_metadata :: "CanonicalFieldDefinition list" where
  "kb_metadata = [
     \<lparr> cf_path = ''event.action'',
        cf_expected_types = [''string''],
        cf_description = ''Action taken on the event (e.g. allowed, blocked, denied)'',
        cf_is_critical = True,
        cf_event_families = [''NETWORK_CONNECTION'', ''FIREWALL_POLICY'', ''AUTHENTICATION'',
                               ''SECURITY_ALERT'', ''GENERIC_NETWORK_EVENT''],
        cf_aliases = [''act'', ''action'', ''activity'', ''decision'', ''status_action'',
                      ''disposition'', ''rule_action'', ''filter_action'', ''event_action''],
        cf_suggested_transform = Some ''trim'' \<rparr>,
     \<lparr> cf_path = ''event.outcome'',
        cf_expected_types = [''string'', ''boolean''],
        cf_description = ''Result of event (e.g. success, failure, timeout)'',
        cf_is_critical = True,
        cf_event_families = [''AUTHENTICATION'', ''NETWORK_CONNECTION'', ''FIREWALL_POLICY'',
                               ''SECURITY_ALERT''],
        cf_aliases = [''outcome'', ''result'', ''status'', ''res'', ''success'',
                      ''session_status'', ''auth_result'', ''login_status'', ''status_code_name''],
        cf_suggested_transform = Some ''trim'' \<rparr>,
     \<lparr> cf_path = ''event.time'',
        cf_expected_types = [''timestamp'', ''integer'', ''float''],
        cf_description = ''Timestamp when event occurred'',
        cf_is_critical = True,
        cf_event_families = all_families,
        cf_aliases = [''timestamp'', ''time'', ''ts'', ''event_time'', ''datetime'',
                      ''date_time'', ''occurred_at'', ''received_at'', ''eventtime'',
                      ''generation_time'', ''log_time'', ''device_time''],
        cf_suggested_transform = Some ''parse_timestamp'' \<rparr>,
     \<lparr> cf_path = ''event.class'',
        cf_expected_types = [''string''],
        cf_description = ''Event classification taxonomy'',
        cf_is_critical = True,
        cf_event_families = all_families,
        cf_aliases = [''event_class'', ''class'', ''event_type'', ''type'', ''category'',
                      ''cat'', ''device_event_class_id'', ''event_id'', ''signature_id''],
        cf_suggested_transform = Some ''trim'' \<rparr>]"

definition kb_transport :: "CanonicalFieldDefinition list" where
  "kb_transport = [
     \<lparr> cf_path = ''network.protocol'',
        cf_expected_types = [''string''],
        cf_description = ''Network layer-4/7 protocol (e.g. tcp, udp, icmp)'',
        cf_is_critical = False,
        cf_event_families = [''NETWORK_CONNECTION'', ''FIREWALL_POLICY'',
                               ''GENERIC_NETWORK_EVENT''],
        cf_aliases = [''proto'', ''protocol'', ''transport'', ''network_proto'', ''app_proto'',
                      ''ip_protocol'', ''proto_name''],
        cf_suggested_transform = Some ''lowercase'' \<rparr>,
     \<lparr> cf_path = ''network.bytes_in'',
        cf_expected_types = [''integer''],
        cf_description = ''Bytes received by source or in session'',
        cf_is_critical = False,
        cf_event_families = [''NETWORK_CONNECTION'', ''WEB_SESSION'', ''GENERIC_NETWORK_EVENT''],
        cf_aliases = [''bytes_in'', ''in_bytes'', ''bytes_rcvd'', ''rcvd_bytes'', ''inbytes'',
                      ''bytes_received'', ''bytesin'', ''rcvdbyte'', ''rx_bytes''],
        cf_suggested_transform = Some ''to_integer'' \<rparr>,
     \<lparr> cf_path = ''network.bytes_out'',
        cf_expected_types = [''integer''],
        cf_description = ''Bytes transmitted by source or in session'',
        cf_is_critical = False,
        cf_event_families = [''NETWORK_CONNECTION'', ''WEB_SESSION'', ''GENERIC_NETWORK_EVENT''],
        cf_aliases = [''bytes_out'', ''out_bytes'', ''bytes_sent'', ''sent_bytes'', ''outbytes'',
                      ''bytes_transmitted'', ''bytesout'', ''sentbyte'', ''tx_bytes''],
        cf_suggested_transform = Some ''to_integer'' \<rparr>,
     \<lparr> cf_path = ''network.packets'',
        cf_expected_types = [''integer''],
        cf_description = ''Total packets in network exchange'',
        cf_is_critical = False,
        cf_event_families = [''NETWORK_CONNECTION'', ''FIREWALL_POLICY'',
                               ''GENERIC_NETWORK_EVENT''],
        cf_aliases = [''packets'', ''pkts'', ''packet_count'', ''total_packets'', ''pkt_count''],
        cf_suggested_transform = Some ''to_integer'' \<rparr>]"

definition kb_identity :: "CanonicalFieldDefinition list" where
  "kb_identity = [
     \<lparr> cf_path = ''user.name'',
        cf_expected_types = [''string''],
        cf_description = ''Username or user identity'',
        cf_is_critical = True,
        cf_event_families = [''AUTHENTICATION'', ''WEB_SESSION'', ''SECURITY_ALERT''],
        cf_aliases = [''user'', ''username'', ''user_name'', ''account'', ''login'', ''usr'',
                      ''actor'', ''account_name'', ''src_user'', ''source_username'', ''duser'',
                      ''suser''],
        cf_suggested_transform = Some ''trim'' \<rparr>,
     \<lparr> cf_path = ''user.id'',
        cf_expected_types = [''string'', ''integer''],
        cf_description = ''Unique identifier for user account'',
        cf_is_critical = True,
        cf_event_families = [''AUTHENTICATION'', ''WEB_SESSION''],
        cf_aliases = [''uid'', ''user_id'', ''userid'', ''account_id'', ''actor_id''],
        cf_suggested_transform = Some ''trim'' \<rparr>,
     \<lparr> cf_path = ''user.email'',
        cf_expected_types = [''email'', ''string''],
        cf_description = ''User email address'',
        cf_is_critical = False,
        cf_event_families = [''AUTHENTICATION'', ''WEB_SESSION''],
        cf_aliases = [''email'', ''user_email'', ''mail'', ''user_mail'', ''sender_email''],
        cf_suggested_transform = Some ''lowercase'' \<rparr>,
     \<lparr> cf_path = ''user.domain'',
        cf_expected_types = [''string''],
        cf_description = ''User domain or realm'',
        cf_is_critical = False,
        cf_event_families = [''AUTHENTICATION''],
        cf_aliases = [''domain'', ''user_domain'', ''realm'', ''account_domain'', ''nt_domain''],
        cf_suggested_transform = Some ''trim'' \<rparr>]"

definition kb_http :: "CanonicalFieldDefinition list" where
  "kb_http = [
     \<lparr> cf_path = ''http.method'',
        cf_expected_types = [''string''],
        cf_description = ''HTTP request verb (e.g. GET, POST)'',
        cf_is_critical = False,
        cf_event_families = [''WEB_SESSION''],
        cf_aliases = [''method'', ''http_method'', ''request_method'', ''verb''],
        cf_suggested_transform = Some ''uppercase'' \<rparr>,
     \<lparr> cf_path = ''http.status_code'',
        cf_expected_types = [''integer''],
        cf_description = ''HTTP response status code'',
        cf_is_critical = False,
        cf_event_families = [''WEB_SESSION''],
        cf_aliases = [''status_code'', ''http_status'', ''http_code'', ''response_code'',
                      ''resp_code'', ''statuscode''],
        cf_suggested_transform = Some ''to_integer'' \<rparr>,
     \<lparr> cf_path = ''http.url'',
        cf_expected_types = [''url'', ''string''],
        cf_description = ''HTTP target URL or request URI'',
        cf_is_critical = False,
        cf_event_families = [''WEB_SESSION'', ''SECURITY_ALERT''],
        cf_aliases = [''url'', ''request_url'', ''uri'', ''request_uri'', ''path'', ''http_url''],
        cf_suggested_transform = Some ''trim'' \<rparr>,
     \<lparr> cf_path = ''http.user_agent'',
        cf_expected_types = [''string''],
        cf_description = ''HTTP Client User-Agent string'',
        cf_is_critical = False,
        cf_event_families = [''WEB_SESSION''],
        cf_aliases = [''user_agent'', ''useragent'', ''agent'', ''http_user_agent'',
                      ''cs_user_agent''],
        cf_suggested_transform = Some ''trim'' \<rparr>]"

definition kb_dns :: "CanonicalFieldDefinition list" where
  "kb_dns = [
     \<lparr> cf_path = ''dns.query_name'',
        cf_expected_types = [''string''],
        cf_description = ''DNS queried hostname or domain name'',
        cf_is_critical = False,
        cf_event_families = [''DNS_ACTIVITY''],
        cf_aliases = [''query'', ''qname'', ''query_name'', ''dns_query'', ''question''],
        cf_suggested_transform = Some ''lowercase'' \<rparr>,
     \<lparr> cf_path = ''dns.query_type'',
        cf_expected_types = [''string'', ''integer''],
        cf_description = ''DNS record query type (e.g. A, AAAA, TXT)'',
        cf_is_critical = False,
        cf_event_families = [''DNS_ACTIVITY''],
        cf_aliases = [''qtype'', ''query_type'', ''record_type'', ''dns_type''],
        cf_suggested_transform = Some ''uppercase'' \<rparr>,
     \<lparr> cf_path = ''dns.response_code'',
        cf_expected_types = [''string'', ''integer''],
        cf_description = ''DNS response status / rcode (e.g. NOERROR, NXDOMAIN)'',
        cf_is_critical = False,
        cf_event_families = [''DNS_ACTIVITY''],
        cf_aliases = [''rcode'', ''response_code'', ''dns_rcode''],
        cf_suggested_transform = Some ''trim'' \<rparr>]"

definition kb_device :: "CanonicalFieldDefinition list" where
  "kb_device = [
     \<lparr> cf_path = ''device.hostname'',
        cf_expected_types = [''string''],
        cf_description = ''Device or appliance hostname'',
        cf_is_critical = False,
        cf_event_families = all_families,
        cf_aliases = [''hostname'', ''host'', ''device_name'', ''device_hostname'', ''dhost'',
                      ''shost'', ''devname'', ''node''],
        cf_suggested_transform = Some ''lowercase'' \<rparr>,
     \<lparr> cf_path = ''device.ip'',
        cf_expected_types = [''ipv4'', ''ipv6'', ''ip''],
        cf_description = ''Reporting device IP address'',
        cf_is_critical = False,
        cf_event_families = all_families,
        cf_aliases = [''device_ip'', ''dev_ip'', ''dvc_ip'', ''sensor_ip'', ''agent_ip'',
                      ''dvchost''],
        cf_suggested_transform = Some ''parse_ip'' \<rparr>]"

definition canonical_definitions :: "CanonicalFieldDefinition list" where
  "canonical_definitions = kb_perimeter @ kb_metadata @ kb_transport @ kb_identity @ kb_http
     @ kb_dns @ kb_device"

text \<open>\<open>re.sub(r"[^a-z0-9]", "", s)\<close>\<close>

definition is_alnum_lower :: "char \<Rightarrow> bool" where
  "is_alnum_lower c \<longleftrightarrow> is_digit c \<or> (let n = (of_char c :: nat) in 97 \<le> n \<and> n \<le> 122)"

definition normalize_name :: "string \<Rightarrow> string" where
  "normalize_name name = filter is_alnum_lower (str_lower (str_strip name))"

record CanonicalKnowledgeBase =
  kb_fields :: "(string \<times> CanonicalFieldDefinition) list"
  kb_alias_index :: "(string \<times> string) list"

definition register_aliases :: "CanonicalFieldDefinition \<Rightarrow> (string \<times> string) list \<Rightarrow> (string \<times> string) list" where
  "register_aliases d ix = AList.update (normalize_name (cf_path d)) (cf_path d)
     (foldl (\<lambda>ix' a. AList.update (normalize_name a) (cf_path d) ix') ix (cf_aliases d))"

definition register_definition :: "CanonicalKnowledgeBase \<Rightarrow> CanonicalFieldDefinition \<Rightarrow> CanonicalKnowledgeBase" where
  "register_definition kb d = kb\<lparr>kb_fields := AList.update (cf_path d) d (kb_fields kb),
     kb_alias_index := register_aliases d (kb_alias_index kb)\<rparr>"

definition load_definitions :: "CanonicalFieldDefinition list \<Rightarrow> CanonicalKnowledgeBase" where
  "load_definitions ds = foldl register_definition \<lparr>kb_fields = [], kb_alias_index = []\<rparr> ds"

definition canonical_kb :: CanonicalKnowledgeBase where
  "canonical_kb = load_definitions canonical_definitions"

definition get_field :: "CanonicalKnowledgeBase \<Rightarrow> string \<Rightarrow> CanonicalFieldDefinition option" where
  "get_field kb path = map_of (kb_fields kb) path"

definition get_all_fields :: "CanonicalKnowledgeBase \<Rightarrow> CanonicalFieldDefinition list" where
  "get_all_fields kb = map snd (kb_fields kb)"

definition lookup_alias :: "CanonicalKnowledgeBase \<Rightarrow> string \<Rightarrow> CanonicalFieldDefinition option" where
  "lookup_alias kb name = (case map_of (kb_alias_index kb) (normalize_name name) of
       None \<Rightarrow> None
     | Some path \<Rightarrow> if path = [] then None else get_field kb path)"

section \<open>The index\<close>

text \<open>The names under which a definition is registered.\<close>

definition known_as :: "CanonicalFieldDefinition \<Rightarrow> string set" where
  "known_as d = insert (normalize_name (cf_path d)) (normalize_name ` set (cf_aliases d))"

lemma map_of_foldl_alias:
  "map_of (foldl (\<lambda>ix' a. AList.update (normalize_name a) p ix') ix as) n =
     (if n \<in> normalize_name ` set as then Some p else map_of ix n)"
  by (induction as arbitrary: ix) (auto simp: dict_simps)

lemma map_of_register_aliases:
  "map_of (register_aliases d ix) n = (if n \<in> known_as d then Some (cf_path d) else map_of ix n)"
  by (simp add: register_aliases_def known_as_def dict_simps map_of_foldl_alias)

lemma load_definitions_snoc:
  "load_definitions (ds @ [d]) = register_definition (load_definitions ds) d"
  by (simp add: load_definitions_def)

text \<open>The last definition of a list that is known under a name, or has a path.\<close>

lemma map_of_load_alias:
  "map_of (kb_alias_index (load_definitions ds)) n =
     map_option cf_path (find (\<lambda>d. n \<in> known_as d) (rev ds))"
proof (induction ds rule: rev_induct)
  case Nil
  then show ?case by (simp add: load_definitions_def)
next
  case (snoc d ds)
  then show ?case
    by (simp add: load_definitions_snoc register_definition_def map_of_register_aliases)
qed

lemma get_field_load: "get_field (load_definitions ds) p = find (\<lambda>d. cf_path d = p) (rev ds)"
  unfolding get_field_def
proof (induction ds rule: rev_induct)
  case Nil
  then show ?case by (simp add: load_definitions_def)
next
  case (snoc d ds)
  then show ?case by (simp add: load_definitions_snoc register_definition_def dict_simps)
qed

lemma find_key_distinct:
  assumes "distinct (map f xs)" "x \<in> set xs"
  shows "find (\<lambda>y. f y = f x) xs = Some x"
  using assms by (induction xs) auto

lemma kb_fields_load:
  "distinct (map cf_path ds) \<Longrightarrow> kb_fields (load_definitions ds) = map (\<lambda>d. (cf_path d, d)) ds"
proof (induction ds rule: rev_induct)
  case Nil
  then show ?case by (simp add: load_definitions_def)
next
  case (snoc d ds)
  then have "cf_path d \<notin> fst ` set (kb_fields (load_definitions ds))" by (auto simp: image_image)
  with snoc show ?case by (simp add: load_definitions_snoc register_definition_def update_fresh)
qed

lemma get_all_fields_load:
  "distinct (map cf_path ds) \<Longrightarrow> get_all_fields (load_definitions ds) = ds"
  by (simp add: get_all_fields_def kb_fields_load o_def)

lemma canonical_paths: "distinct (map cf_path canonical_definitions)"
  "list_all (\<lambda>d. cf_path d \<noteq> []) canonical_definitions"
  by code_simp+

text \<open>
  C22. Index against search: resolving a name through the index that the constructor builds
  finds the last definition of the catalogue that has the normalised name as its path or as one
  of its aliases, and nothing when there is none; so an alias of two definitions belongs to the
  later one.
\<close>

theorem lookup_alias_last_match:
  "lookup_alias canonical_kb name =
     find (\<lambda>d. normalize_name name \<in> known_as d) (rev canonical_definitions)"
proof (cases "find (\<lambda>d. normalize_name name \<in> known_as d) (rev canonical_definitions)")
  case None
  then show ?thesis by (simp add: lookup_alias_def canonical_kb_def map_of_load_alias)
next
  case (Some d)
  then have d: "d \<in> set (rev canonical_definitions)" by (metis find_Some_iff nth_mem)
  then have "cf_path d \<noteq> []" using canonical_paths(2) by (auto simp: list_all_iff)
  moreover have "find (\<lambda>e. cf_path e = cf_path d) (rev canonical_definitions) = Some d"
    using d canonical_paths(1) by (intro find_key_distinct) (simp_all flip: rev_map)
  ultimately show ?thesis using Some
    by (simp add: lookup_alias_def canonical_kb_def map_of_load_alias get_field_load)
qed

end
