(* ===== verification/SeqMatch.thy ===== *)
theory SeqMatch
  imports PyFloat
begin

text \<open>
  The part of the standard library's \<open>difflib.SequenceMatcher(None, a, b)\<close> that the mapper
  uses, \<open>ratio()\<close>. No element is junk; characters of a \<open>b\<close> of 200 characters or more that
  make up more than one percent of it are popular and do not start a match. The longest match
  is the leftmost in \<open>a\<close>, then in \<open>b\<close>; it is extended on both sides over popular
  characters, and matching goes on to the left and to the right of it.
\<close>

definition popular :: "string \<Rightarrow> char \<Rightarrow> bool" where
  "popular b c \<longleftrightarrow> 200 \<le> length b \<and> length b div 100 + 1 < count_list b c"

text \<open>The length of the common prefix, of characters satisfying \<open>p\<close>.\<close>

fun common_prefix :: "(char \<Rightarrow> bool) \<Rightarrow> string \<Rightarrow> string \<Rightarrow> nat" where
  "common_prefix p (x # xs) (y # ys) =
     (if x = y \<and> p x then Suc (common_prefix p xs ys) else 0)"
| "common_prefix p _ _ = 0"

definition better :: "nat \<times> nat \<times> nat \<Rightarrow> nat \<times> nat \<times> nat \<Rightarrow> nat \<times> nat \<times> nat" where
  "better m m' = (if snd (snd m) < snd (snd m') then m' else m)"

text \<open>The first of the longest matches of a suffix of \<open>a\<close> with a suffix of \<open>b\<close>.\<close>

fun best_in_b :: "(char \<Rightarrow> bool) \<Rightarrow> nat \<Rightarrow> nat \<Rightarrow> string \<Rightarrow> string \<Rightarrow> nat \<times> nat \<times> nat \<Rightarrow> nat \<times> nat \<times> nat" where
  "best_in_b p i j a [] m = m"
| "best_in_b p i j a (y # ys) m =
     best_in_b p i (Suc j) a ys (better m (i, j, common_prefix p a (y # ys)))"

fun best_in_a :: "(char \<Rightarrow> bool) \<Rightarrow> nat \<Rightarrow> string \<Rightarrow> string \<Rightarrow> nat \<times> nat \<times> nat \<Rightarrow> nat \<times> nat \<times> nat" where
  "best_in_a p i [] b m = m"
| "best_in_a p i (x # xs) b m = best_in_a p (Suc i) xs b (best_in_b p i 0 (x # xs) b m)"

definition find_longest_match :: "(char \<Rightarrow> bool) \<Rightarrow> string \<Rightarrow> string \<Rightarrow> nat \<times> nat \<times> nat" where
  "find_longest_match p a b =
     (case best_in_a p 0 a b (0, 0, 0) of (i, j, k) \<Rightarrow>
        let l = common_prefix (\<lambda>_. True) (rev (take i a)) (rev (take j b));
            r = common_prefix (\<lambda>_. True) (drop (i + k) a) (drop (j + k) b)
        in (i - l, j - l, l + k + r))"

section \<open>Matches lie inside both strings\<close>

definition fits :: "string \<Rightarrow> string \<Rightarrow> nat \<times> nat \<times> nat \<Rightarrow> bool" where
  "fits a b m \<longleftrightarrow> fst m + snd (snd m) \<le> length a \<and> fst (snd m) + snd (snd m) \<le> length b"

lemma common_prefix_le: "common_prefix p a b \<le> length a" "common_prefix p a b \<le> length b"
  by (induction p a b rule: common_prefix.induct) auto

lemma common_prefix_self: "common_prefix (\<lambda>_. True) a a = length a"
  by (induction a) auto

lemma fits_better: "fits a b m \<Longrightarrow> fits a b m' \<Longrightarrow> fits a b (better m m')"
  by (simp add: better_def)

lemma best_in_b_fits:
  assumes "fits a b m" "i \<le> length a" "j \<le> length b"
  shows "fits a b (best_in_b p i j (drop i a) (drop j b) m)"
proof -
  have "ys = drop j b \<Longrightarrow> j \<le> length b \<Longrightarrow> fits a b m
      \<Longrightarrow> fits a b (best_in_b p i j (drop i a) ys m)" for ys
  proof (induction ys arbitrary: j m)
    case (Cons y ys)
    have "j < length b" using Cons.prems(1) by (cases "j < length b") auto
    moreover have "ys = drop (Suc j) b" using Cons.prems(1) by (metis drop_Suc tl_drop list.sel(3))
    moreover have "fits a b (i, j, common_prefix p (drop i a) (y # ys))"
      using common_prefix_le [of p "drop i a" "y # ys"] assms(2) Cons.prems(1) \<open>j < length b\<close>
      by (simp add: fits_def) linarith
    ultimately show ?case using Cons.prems(3)
      Cons.IH [of "Suc j" "better m (i, j, common_prefix p (drop i a) (y # ys))"]
      by (simp add: fits_better)
  qed simp
  then show ?thesis using assms by blast
qed

lemma best_in_a_fits:
  assumes "fits a b m" "i \<le> length a"
  shows "fits a b (best_in_a p i (drop i a) b m)"
proof -
  have "xs = drop i a \<Longrightarrow> i \<le> length a \<Longrightarrow> fits a b m \<Longrightarrow> fits a b (best_in_a p i xs b m)" for xs
  proof (induction xs arbitrary: i m)
    case (Cons x xs)
    have i: "i < length a" using Cons.prems(1) by (cases "i < length a") auto
    have "xs = drop (Suc i) a" using Cons.prems(1) by (metis drop_Suc tl_drop list.sel(3))
    moreover have "fits a b (best_in_b p i 0 (x # xs) b m)"
      using best_in_b_fits [of a b m i 0 p] Cons.prems by simp
    ultimately show ?case using i Cons.IH [of "Suc i" "best_in_b p i 0 (x # xs) b m"] by simp
  qed simp
  then show ?thesis using assms by blast
qed

lemma find_longest_match_fits: "fits a b (find_longest_match p a b)"
proof -
  obtain i j k where m: "best_in_a p 0 a b (0, 0, 0) = (i, j, k)"
    by (cases "best_in_a p 0 a b (0, 0, 0)")
  have "fits a b (i, j, k)" using best_in_a_fits [of a b "(0, 0, 0)" 0 p] m by (simp add: fits_def)
  moreover define l where "l = common_prefix (\<lambda>_. True) (rev (take i a)) (rev (take j b))"
  moreover have "l \<le> i" "l \<le> j"
    using common_prefix_le [of "\<lambda>_. True" "rev (take i a)" "rev (take j b)"] by (auto simp: l_def)
  moreover have "common_prefix (\<lambda>_. True) (drop (i + k) a) (drop (j + k) b) \<le> length a - (i + k)"
      "common_prefix (\<lambda>_. True) (drop (i + k) a) (drop (j + k) b) \<le> length b - (j + k)"
    using common_prefix_le [of "\<lambda>_. True" "drop (i + k) a" "drop (j + k) b"] by auto
  ultimately show ?thesis by (simp add: find_longest_match_def m fits_def Let_def flip: l_def) linarith
qed

section \<open>The ratio\<close>

text \<open>
  \<open>get_matching_blocks\<close> keeps a stack of pairs of ranges still to be matched; the sum of the
  sizes of the blocks does not depend on the order in which it is worked off.
\<close>

lemma find_longest_match_bound:
  "(i, j, k) = find_longest_match p a b \<Longrightarrow> i + k \<le> length a \<and> j + k \<le> length b"
  using find_longest_match_fits [of a b p] by (cases "find_longest_match p a b") (simp add: fits_def)

function match_total :: "(char \<Rightarrow> bool) \<Rightarrow> string \<Rightarrow> string \<Rightarrow> nat" where
  "match_total p a b =
     (case find_longest_match p a b of (i, j, k) \<Rightarrow>
        if k = 0 then 0
        else k + match_total p (take i a) (take j b) + match_total p (drop (i + k) a) (drop (j + k) b))"
  by pat_completeness auto
termination
proof (relation "measure (\<lambda>(p, a, b). length a)", goal_cases)
  case (2 p a b i m j k)
  then show ?case using find_longest_match_bound [of i j k p a b] by simp
next
  case (3 p a b i m j k)
  then show ?case using find_longest_match_bound [of i j k p a b] by simp linarith
qed simp

declare match_total.simps [simp del]

definition seq_ratio :: "string \<Rightarrow> string \<Rightarrow> rat" where
  "seq_ratio a b = (if length a + length b = 0 then 1
     else fl (fl (2 * of_nat (match_total (\<lambda>c. \<not> popular b c) a b)) / of_nat (length a + length b)))"

lemma match_total_le: "match_total p a b \<le> min (length a) (length b)"
proof (induction p a b rule: match_total.induct)
  case (1 p a b)
  obtain i j k where m: "find_longest_match p a b = (i, j, k)" by (cases "find_longest_match p a b")
  have f: "i + k \<le> length a" "j + k \<le> length b"
    using find_longest_match_fits [of a b p] by (simp_all add: fits_def m)
  show ?case
  proof (cases "k = 0")
    case False
    from "1.IH"(1) [OF m [symmetric] refl False] "1.IH"(2) [OF m [symmetric] refl False] f False
    show ?thesis by (subst match_total.simps) (simp add: m, linarith)
  qed (subst match_total.simps, simp add: m)
qed

text \<open>Below \<open>2^52\<close> matching characters the product is exact and the ratio a proper one.\<close>

lemma seq_ratio_unit:
  assumes "length a < 2 ^ 52"
  shows "0 \<le> seq_ratio a b \<and> seq_ratio a b \<le> 1"
proof -
  let ?m = "match_total (\<lambda>c. \<not> popular b c) a b"
  have m: "?m \<le> length a" "?m \<le> length b" using match_total_le [of "\<lambda>c. \<not> popular b c" a b] by auto
  have "fl (2 * of_nat ?m) = 2 * of_nat ?m"
    using fl_of_int [of "2 * int ?m"] m(1) assms by simp
  moreover have "(2 * of_nat ?m :: rat) / of_nat (length a + length b) \<le> 1"
  proof -
    have "(2 * of_nat ?m :: rat) = of_nat (2 * ?m)" by simp
    also have "\<dots> \<le> of_nat (length a + length b)" using m by (simp only: of_nat_le_iff)
    finally show ?thesis by (auto simp: divide_le_eq_1 simp flip: of_nat_add)
  qed
  ultimately show ?thesis by (simp add: seq_ratio_def ieee.unit_interval)
qed

end
