(* ===== verification/Mapper.thy ===== *)
theory Mapper
  imports KnowledgeBase SeqMatch PyStr
begin

text \<open>
  The semantic mapper, \<open>SemanticMapper\<close> of \<open>ml/semantic_mapper/mapper.py\<close>: similarity of
  names, compatibility of types, the score and the decision for one canonical field, the ranking
  over the whole catalogue, and the report on a source. The evidence strings are constructors
  that carry the values the source formats into them.
\<close>

section \<open>Definitions\<close>

datatype ReviewStatus = AUTO_ACCEPTED | HUMAN_REVIEW | ABSTAIN

datatype evidence =
    ExactCanonicalPathMatch
  | ExactAliasMatch
  | LexicalSimilarity rat
  | HardTypeConflict "string list" string
  | DatatypeCompatible string
  | DatatypeMismatch "string list" string
  | IpCandidateBonus
  | TimestampCandidateBonus
  | EnumCandidateBonus
  | EventFamilyContext string
  | AbstainPreserveExtension
  | NoMatchFound

record MappingCandidate =
  mc_raw_field :: string
  mc_canonical_path :: string
  mc_mapping_score :: rat
  mc_evidence :: "evidence list"
  mc_review_status :: ReviewStatus
  mc_is_critical :: bool
  mc_hard_type_conflict :: bool
  mc_suggested_transformation :: "string option"
  mc_preserve_in_extensions :: bool
  mc_destination_path :: string

record FieldMappingResult =
  fm_raw_field :: string
  fm_chosen_mapping :: MappingCandidate
  fm_top_candidates :: "MappingCandidate list"

record MappingSummary =
  ms_total_fields :: nat
  ms_auto_accepted_count :: nat
  ms_human_review_count :: nat
  ms_abstained_count :: nat
  ms_critical_fields_mapped :: nat

record SourceMappingReport =
  sm_source_id :: "string option"
  sm_event_family :: "string option"
  sm_mappings :: "(string \<times> FieldMappingResult) list"
  sm_summary :: MappingSummary

definition AUTO_ACCEPT_THRESHOLD :: rat where
  "AUTO_ACCEPT_THRESHOLD = fl (95 / 100)"

definition HUMAN_REVIEW_THRESHOLD :: rat where
  "HUMAN_REVIEW_THRESHOLD = fl (80 / 100)"

definition compute_lexical_similarity :: "string \<Rightarrow> string \<Rightarrow> rat" where
  "compute_lexical_similarity raw target =
     (let r = filter is_alnum_lower (str_lower raw);
          t = filter is_alnum_lower (str_lower target)
      in if r = [] \<or> t = [] then 0
         else if r = t then 1
         else if str_endswith r t \<or> str_endswith t r then fl (90 / 100)
         else py_round (seq_ratio r t) 3)"

text \<open>
  \<open>int(str(v))\<close>: integers and strings of at most 4300 digits; the representation of any other
  value is no integer literal.
\<close>

fun int_of_str :: "pyval \<Rightarrow> int option" where
  "int_of_str (PStr s) = (if 4300 < length (filter is_digit s) then None else parse_int s)"
| "int_of_str (PInt i) = (if 4300 < length (show_digits \<bar>i\<bar>) then None else Some i)"
| "int_of_str _ = None"

text \<open>\<open>all(int(str(v)) for v in vs)\<close> returns; it stops at the first value that is 0.\<close>

fun samples_convert :: "pyval list \<Rightarrow> bool" where
  "samples_convert [] = True"
| "samples_convert (v # vs) = (case int_of_str v of
       None \<Rightarrow> False
     | Some i \<Rightarrow> i = 0 \<or> samples_convert vs)"

definition expects_ip :: "string list \<Rightarrow> bool" where
  "expects_ip ts \<longleftrightarrow> ''ip'' \<in> set ts \<or> ''ipv4'' \<in> set ts \<or> ''ipv6'' \<in> set ts"

definition evaluate_type_compatibility :: "string \<Rightarrow> string list \<Rightarrow> FieldProfile option \<Rightarrow> bool \<times> bool" where
  "evaluate_type_compatibility raw_type expected fp =
     (if raw_type = ''null'' then (True, False)
      else if ''string'' \<in> set expected \<and> raw_type = ''string'' then (True, False)
      else if raw_type \<in> set expected then (True, False)
      else if expects_ip expected \<and> raw_type \<in> set [''ipv4'', ''ipv6'', ''ip''] then (True, False)
      else if ''integer'' \<in> set expected \<and> raw_type = ''integer'' then (True, False)
      else if ''float'' \<in> set expected \<and> raw_type \<in> set [''integer'', ''float''] then (True, False)
      else if ''integer'' \<in> set expected \<and> raw_type \<in> set [''string'', ''ipv4'', ''ipv6'',
          ''timestamp'', ''email'', ''url'', ''json'', ''array''] then
        (case fp of
           None \<Rightarrow> (False, True)
         | Some p \<Rightarrow> if fp_sample_values p \<noteq> [] \<and> samples_convert (fp_sample_values p)
                     then (True, False) else (False, True))
      else if expects_ip expected \<and> (raw_type \<in> set [''boolean'', ''float'', ''array'', ''json'']
          \<or> raw_type = ''string'' \<and> (case fp of None \<Rightarrow> False | Some p \<Rightarrow> \<not> fp_is_ip_candidate p))
        then (False, True)
      else if ''timestamp'' \<in> set expected
          \<and> raw_type \<in> set [''boolean'', ''array'', ''json'', ''ipv4'', ''ipv6''] then (False, True)
      else (False, False))"

text \<open>Stage 1 of the score: names.\<close>

definition is_exact_path :: "string \<Rightarrow> CanonicalFieldDefinition \<Rightarrow> bool" where
  "is_exact_path raw_clean d \<longleftrightarrow> raw_clean = str_lower (cf_path d)"

definition is_exact_alias :: "string \<Rightarrow> CanonicalFieldDefinition \<Rightarrow> bool" where
  "is_exact_alias raw_clean d \<longleftrightarrow> raw_clean \<in> set (cf_aliases d)
     \<or> normalize_name raw_clean \<in> set (map normalize_name (cf_aliases d))
     \<or> \<not> is_exact_path raw_clean d \<and> normalize_name raw_clean = normalize_name (cf_path d)"

definition best_similarity :: "string \<Rightarrow> CanonicalFieldDefinition \<Rightarrow> rat" where
  "best_similarity raw_clean d =
     (let leaf_sim = compute_lexical_similarity raw_clean (last (str_split (CHR ''.'') (cf_path d)));
          alias_sims = map (compute_lexical_similarity raw_clean) (cf_aliases d);
          best_alias_sim = (if alias_sims = [] then 0 else fold max (tl alias_sims) (hd alias_sims))
      in max leaf_sim best_alias_sim)"

definition name_score :: "string \<Rightarrow> CanonicalFieldDefinition \<Rightarrow> rat \<times> evidence" where
  "name_score raw_clean d =
     (if is_exact_path raw_clean d then (1, ExactCanonicalPathMatch)
      else if is_exact_alias raw_clean d then (fl (98 / 100), ExactAliasMatch)
      else let s = best_similarity raw_clean d;
               b = (if fl (75 / 100) \<le> s then fl (s * fl (88 / 100))
                    else if fl (50 / 100) \<le> s then fl (s * fl (60 / 100))
                    else fl (s * fl (40 / 100)))
           in (b, LexicalSimilarity b))"

text \<open>\<open>min(1.0, x + b)\<close>\<close>

definition capped :: "rat \<Rightarrow> rat \<Rightarrow> rat" where
  "capped x b = min 1 (fl (x + b))"

text \<open>Stage 2: datatypes.\<close>

definition type_score :: "rat \<Rightarrow> string \<Rightarrow> CanonicalFieldDefinition \<Rightarrow> bool \<times> bool \<Rightarrow> rat \<times> evidence" where
  "type_score b raw_type d verdict = (case verdict of (is_compat, is_hard_conflict) \<Rightarrow>
     if is_hard_conflict then
       (min (fl (b - fl (35 / 100))) (fl (65 / 100)), HardTypeConflict (sort (cf_expected_types d)) raw_type)
     else if is_compat then
       (if raw_type \<in> set [''ipv4'', ''ipv6'', ''timestamp'', ''email'', ''url'']
          then capped b (fl (2 / 100)) else b, DatatypeCompatible raw_type)
     else (fl (b - fl (15 / 100)), DatatypeMismatch (cf_expected_types d) raw_type))"

text \<open>Stages 3 and 4: the shape of the values and the event family, each a guarded bonus.\<close>

definition bonuses :: "FieldProfile \<Rightarrow> CanonicalFieldDefinition \<Rightarrow> string option \<Rightarrow> (bool \<times> rat \<times> evidence) list" where
  "bonuses fp d event_family =
     [(fp_is_ip_candidate fp \<and> (''ipv4'' \<in> set (cf_expected_types d) \<or> ''ip'' \<in> set (cf_expected_types d)),
         fl (3 / 100), IpCandidateBonus),
      (fp_is_timestamp_candidate fp \<and> ''timestamp'' \<in> set (cf_expected_types d),
         fl (3 / 100), TimestampCandidateBonus),
      (fp_is_enum_candidate fp \<and> cf_path d \<in> set [''event.action'', ''event.outcome'', ''network.protocol''],
         fl (3 / 100), EnumCandidateBonus),
      (case event_family of None \<Rightarrow> False | Some f \<Rightarrow> f \<noteq> [] \<and> f \<in> set (cf_event_families d),
         fl (2 / 100), EventFamilyContext (case event_family of None \<Rightarrow> [] | Some f \<Rightarrow> f))]"

definition add_bonus :: "rat \<times> evidence list \<Rightarrow> bool \<times> rat \<times> evidence \<Rightarrow> rat \<times> evidence list" where
  "add_bonus st g = (case (st, g) of ((s, ev), (applies, b, e)) \<Rightarrow>
     if applies then (capped s b, ev @ [e]) else (s, ev))"

definition review_decision :: "bool \<Rightarrow> rat \<Rightarrow> ReviewStatus" where
  "review_decision is_hard_conflict final_score =
     (if is_hard_conflict
        then (if final_score < HUMAN_REVIEW_THRESHOLD then ABSTAIN else HUMAN_REVIEW)
      else if AUTO_ACCEPT_THRESHOLD \<le> final_score then AUTO_ACCEPTED
      else if HUMAN_REVIEW_THRESHOLD \<le> final_score then HUMAN_REVIEW
      else ABSTAIN)"

definition extension_path :: "string \<Rightarrow> string" where
  "extension_path raw_field = ''extensions.source.'' @ raw_field"

definition score_candidate :: "string \<Rightarrow> FieldProfile \<Rightarrow> CanonicalFieldDefinition \<Rightarrow> string option \<Rightarrow> MappingCandidate" where
  "score_candidate raw_field fp d event_family =
     (let raw_clean = str_lower (str_strip raw_field);
          (b, e1) = name_score raw_clean d;
          raw_type = fp_inferred_type fp;
          verdict = evaluate_type_compatibility raw_type (cf_expected_types d) (Some fp);
          (t, e2) = type_score b raw_type d verdict;
          (s, ev) = foldl add_bonus (t, [e1, e2]) (bonuses fp d event_family);
          final_score = max 0 (min 1 (py_round s 4));
          status = review_decision (snd verdict) final_score;
          preserve_ext = (status = ABSTAIN)
      in \<lparr>mc_raw_field = raw_field, mc_canonical_path = cf_path d, mc_mapping_score = final_score,
          mc_evidence = ev, mc_review_status = status, mc_is_critical = cf_is_critical d,
          mc_hard_type_conflict = snd verdict,
          mc_suggested_transformation = cf_suggested_transform d,
          mc_preserve_in_extensions = preserve_ext,
          mc_destination_path = (if preserve_ext then extension_path raw_field else cf_path d)\<rparr>)"

text \<open>\<open>xs[:n]\<close>\<close>

definition slice_to :: "'a list \<Rightarrow> int \<Rightarrow> 'a list" where
  "slice_to xs n = (if 0 \<le> n then take (nat n) xs else take (nat (int (length xs) + n)) xs)"

text \<open>The sort is stable, also when it is descending.\<close>

definition ranked :: "MappingCandidate list \<Rightarrow> MappingCandidate list" where
  "ranked cs = sort_key (\<lambda>c. - mc_mapping_score c) cs"

definition settle_best :: "string \<Rightarrow> MappingCandidate \<Rightarrow> MappingCandidate" where
  "settle_best raw_field c =
     (if mc_mapping_score c < HUMAN_REVIEW_THRESHOLD
      then c\<lparr>mc_review_status := ABSTAIN, mc_preserve_in_extensions := True,
             mc_destination_path := extension_path raw_field,
             mc_evidence := (if AbstainPreserveExtension \<in> set (mc_evidence c) then mc_evidence c
                             else mc_evidence c @ [AbstainPreserveExtension])\<rparr>
      else c)"

definition fallback_candidate :: "string \<Rightarrow> MappingCandidate" where
  "fallback_candidate raw_field =
     \<lparr>mc_raw_field = raw_field, mc_canonical_path = extension_path raw_field, mc_mapping_score = 0,
      mc_evidence = [NoMatchFound, AbstainPreserveExtension], mc_review_status = ABSTAIN,
      mc_is_critical = False, mc_hard_type_conflict = False, mc_suggested_transformation = None,
      mc_preserve_in_extensions = True, mc_destination_path = extension_path raw_field\<rparr>"

text \<open>The best candidate is updated in place, so it is updated in the list of the top ones too.\<close>

definition map_field :: "CanonicalKnowledgeBase \<Rightarrow> FieldProfile \<Rightarrow> string option \<Rightarrow> int \<Rightarrow> FieldMappingResult" where
  "map_field kb fp event_family top_n =
     (let raw_field = fp_name fp;
          candidates = map (\<lambda>d. score_candidate raw_field fp d event_family) (get_all_fields kb)
      in case slice_to (ranked candidates) top_n of
           best # rest \<Rightarrow>
             \<lparr>fm_raw_field = raw_field, fm_chosen_mapping = settle_best raw_field best,
              fm_top_candidates = settle_best raw_field best # rest\<rparr>
         | [] \<Rightarrow>
             \<lparr>fm_raw_field = raw_field, fm_chosen_mapping = fallback_candidate raw_field,
              fm_top_candidates = []\<rparr>)"

record tally =
  tl_results :: "(string \<times> FieldMappingResult) list"
  tl_auto :: nat
  tl_review :: nat
  tl_abstained :: nat
  tl_critical :: nat

definition count_field :: "tally \<Rightarrow> string \<times> FieldMappingResult \<Rightarrow> tally" where
  "count_field t entry = (case entry of (field_name, res) \<Rightarrow>
     let chosen = fm_chosen_mapping res; st = mc_review_status chosen
     in \<lparr>tl_results = AList.update field_name res (tl_results t),
         tl_auto = (if st = AUTO_ACCEPTED then tl_auto t + 1 else tl_auto t),
         tl_review = (if st = HUMAN_REVIEW then tl_review t + 1 else tl_review t),
         tl_abstained = (if st = ABSTAIN then tl_abstained t + 1 else tl_abstained t),
         tl_critical = (if mc_is_critical chosen \<and> st \<noteq> ABSTAIN then tl_critical t + 1 else tl_critical t)\<rparr>)"

definition map_source :: "CanonicalKnowledgeBase \<Rightarrow> SourceProfile \<Rightarrow> string option \<Rightarrow> string option \<Rightarrow> int \<Rightarrow> SourceMappingReport" where
  "map_source kb src source_id event_family top_n =
     (let t = foldl (\<lambda>t (field_name, fp). count_field t (field_name, map_field kb fp event_family top_n))
                \<lparr>tl_results = [], tl_auto = 0, tl_review = 0, tl_abstained = 0, tl_critical = 0\<rparr>
                (sp_fields src)
      in \<lparr>sm_source_id = source_id, sm_event_family = event_family, sm_mappings = tl_results t,
          sm_summary = \<lparr>ms_total_fields = length (tl_results t), ms_auto_accepted_count = tl_auto t,
             ms_human_review_count = tl_review t, ms_abstained_count = tl_abstained t,
             ms_critical_fields_mapped = tl_critical t\<rparr>\<rparr>)"

definition map_fields :: "CanonicalKnowledgeBase \<Rightarrow> (string \<times> FieldProfile) list \<Rightarrow> string option \<Rightarrow> string option \<Rightarrow> int \<Rightarrow> SourceMappingReport" where
  "map_fields kb field_profiles source_id event_family top_n =
     (let dummy_source = \<lparr>sp_format = LF_UNKNOWN, sp_confidence = 1, sp_total_records = 1,
            sp_valid_records = 1, sp_corrupted_records = 0, sp_fields = field_profiles,
            sp_templates = [], sp_delimiter = None, sp_format_distribution = [],
            sp_sample_events = []\<rparr>
      in map_source kb dummy_source source_id event_family top_n)"

section \<open>The score of a candidate\<close>

definition type_verdict :: "FieldProfile \<Rightarrow> CanonicalFieldDefinition \<Rightarrow> bool \<times> bool" where
  "type_verdict fp d = evaluate_type_compatibility (fp_inferred_type fp) (cf_expected_types d) (Some fp)"

definition typed_score :: "string \<Rightarrow> FieldProfile \<Rightarrow> CanonicalFieldDefinition \<Rightarrow> rat \<times> evidence" where
  "typed_score raw_field fp d = type_score (fst (name_score (str_lower (str_strip raw_field)) d))
     (fp_inferred_type fp) d (type_verdict fp d)"

definition bonus_score :: "string \<Rightarrow> FieldProfile \<Rightarrow> CanonicalFieldDefinition \<Rightarrow> string option \<Rightarrow> rat \<times> evidence list" where
  "bonus_score raw_field fp d fam =
     foldl add_bonus (fst (typed_score raw_field fp d),
         [snd (name_score (str_lower (str_strip raw_field)) d), snd (typed_score raw_field fp d)])
       (bonuses fp d fam)"

lemmas candidate_defs = type_verdict_def typed_score_def bonus_score_def

lemma score_candidate_fields:
  "mc_mapping_score (score_candidate raw fp d fam) = max 0 (min 1 (py_round (fst (bonus_score raw fp d fam)) 4))"
  "mc_hard_type_conflict (score_candidate raw fp d fam) = snd (type_verdict fp d)"
  "mc_review_status (score_candidate raw fp d fam) =
     review_decision (snd (type_verdict fp d)) (mc_mapping_score (score_candidate raw fp d fam))"
  "mc_preserve_in_extensions (score_candidate raw fp d fam)
     \<longleftrightarrow> mc_review_status (score_candidate raw fp d fam) = ABSTAIN"
  "mc_destination_path (score_candidate raw fp d fam) =
     (if mc_review_status (score_candidate raw fp d fam) = ABSTAIN then extension_path raw else cf_path d)"
  "mc_canonical_path (score_candidate raw fp d fam) = cf_path d"
  "mc_raw_field (score_candidate raw fp d fam) = raw"
  "mc_is_critical (score_candidate raw fp d fam) = cf_is_critical d"
  by (simp_all add: score_candidate_def Let_def split_beta candidate_defs)

lemma score_unit: "0 \<le> mc_mapping_score (score_candidate raw fp d fam)"
  "mc_mapping_score (score_candidate raw fp d fam) \<le> 1"
  by (simp_all add: score_candidate_fields)

lemma thresholds: "HUMAN_REVIEW_THRESHOLD < AUTO_ACCEPT_THRESHOLD" "AUTO_ACCEPT_THRESHOLD < 1"
  "0 < HUMAN_REVIEW_THRESHOLD"
  by code_simp+

text \<open>A bonus keeps a lower bound and moves an upper bound by at most its size.\<close>

lemma capped_lower: "fl c \<le> x \<Longrightarrow> 0 \<le> b \<Longrightarrow> c \<le> 1 \<Longrightarrow> fl c \<le> capped x b"
  using fl_mono [of "fl c" "x + b"] ieee.le_one [of c] by (simp add: capped_def fl_idem)

lemma add_bonus_lower:
  "fl c \<le> fst st \<Longrightarrow> 0 \<le> fst (snd g) \<Longrightarrow> c \<le> 1 \<Longrightarrow> fl c \<le> fst (add_bonus st g)"
  by (cases st; cases g) (auto simp: add_bonus_def intro: capped_lower)

lemma foldl_bonus_lower:
  "fl c \<le> fst st \<Longrightarrow> list_all (\<lambda>g. 0 \<le> fst (snd g)) gs \<Longrightarrow> c \<le> 1 \<Longrightarrow> fl c \<le> fst (foldl add_bonus st gs)"
  by (induction gs arbitrary: st) (simp_all add: add_bonus_lower)

lemma add_bonus_upper:
  assumes "fst st \<le> fl u" "0 \<le> fst (snd g)"
  shows "fst (add_bonus st g) \<le> fl (fl u + fst (snd g))"
proof -
  have "fl u \<le> fl (fl u + fst (snd g))" using fl_mono [of "fl u" "fl u + fst (snd g)"] assms(2)
    by (simp add: fl_idem)
  moreover have "fl (fst st + fst (snd g)) \<le> fl (fl u + fst (snd g))"
    using assms(1) by (intro fl_mono) simp
  ultimately show ?thesis using assms(1)
    by (cases st; cases g) (auto simp: add_bonus_def capped_def min_def)
qed

lemma bonuses_nonneg: "list_all (\<lambda>g. 0 \<le> fst (snd g)) (bonuses fp d fam)"
  by (simp add: bonuses_def ieee.nonneg)

lemma foldl_bonus_upper:
  "fst st \<le> fl u \<Longrightarrow> list_all (\<lambda>g. 0 \<le> fst (snd g)) gs
   \<Longrightarrow> fst (foldl add_bonus st gs) \<le> foldl (\<lambda>v b. fl (v + b)) (fl u) (map (\<lambda>g. fst (snd g)) gs)"
proof (induction gs arbitrary: st u)
  case (Cons g gs)
  then have "fst (add_bonus st g) \<le> fl (fl u + fst (snd g))" by (simp add: add_bonus_upper)
  with Cons.prems Cons.IH [of "add_bonus st g" "fl u + fst (snd g)"] show ?case by simp
qed simp

section \<open>Decisions\<close>

lemma hard_conflict_score:
  assumes "snd (type_verdict fp d)"
  shows "mc_mapping_score (score_candidate raw fp d fam) \<le> fl (76 / 100)"
proof -
  have "fst (typed_score raw fp d) \<le> fl (65 / 100)"
    using assms by (simp add: typed_score_def type_score_def split_beta)
  then have "fst (bonus_score raw fp d fam)
      \<le> foldl (\<lambda>v b. fl (v + b)) (fl (65 / 100)) (map (\<lambda>g. fst (snd g)) (bonuses fp d fam))"
    unfolding bonus_score_def by (intro foldl_bonus_upper bonuses_nonneg) simp
  also have "\<dots> = foldl (\<lambda>v b. fl (v + b)) (fl (65 / 100)) [fl (3 / 100), fl (3 / 100), fl (3 / 100), fl (2 / 100)]"
    by (simp add: bonuses_def)
  finally have "py_round (fst (bonus_score raw fp d fam)) 4 \<le> py_round \<dots> 4" by (rule py_round_mono)
  also have "\<dots> = fl (76 / 100)" by code_simp
  finally have "py_round (fst (bonus_score raw fp d fam)) 4 \<le> fl (76 / 100)" .
  then show ?thesis by (simp add: score_candidate_fields ieee.nonneg)
qed

lemma exact_name_score:
  assumes "is_exact_path (str_lower (str_strip raw)) d \<or> is_exact_alias (str_lower (str_strip raw)) d"
    and "type_verdict fp d = (True, False)"
  shows "fl (98 / 100) \<le> mc_mapping_score (score_candidate raw fp d fam)"
proof -
  have "fl (98 / 100) \<le> fst (name_score (str_lower (str_strip raw)) d)"
    using assms(1) ieee.le_one [of "98 / 100"] by (auto simp: name_score_def)
  then have "fl (98 / 100) \<le> fst (typed_score raw fp d)"
    using assms(2) by (simp add: typed_score_def type_score_def capped_lower ieee.nonneg)
  then have "fl (98 / 100) \<le> fst (bonus_score raw fp d fam)"
    unfolding bonus_score_def by (intro foldl_bonus_lower bonuses_nonneg) simp_all
  then have "py_round (fl (98 / 100)) 4 \<le> py_round (fst (bonus_score raw fp d fam)) 4"
    by (rule py_round_mono)
  also have "py_round (fl (98 / 100)) 4 = fl (98 / 100)" by code_simp
  finally show ?thesis using ieee.le_one [of "98 / 100"] by (simp add: score_candidate_fields max_def min_def)
qed

lemma score_thresholds: "fl (76 / 100) < HUMAN_REVIEW_THRESHOLD" "AUTO_ACCEPT_THRESHOLD \<le> fl (98 / 100)"
  by code_simp+

section \<open>Ranking\<close>

lemma set_ranked: "set (ranked cs) = set cs"
  by (simp add: ranked_def)

lemma hd_ranked_max:
  assumes "ranked cs = best # rest" "c \<in> set cs"
  shows "mc_mapping_score c \<le> mc_mapping_score best"
proof -
  have "sorted (map (\<lambda>c. - mc_mapping_score c) (ranked cs))" by (simp add: ranked_def)
  then have "\<forall>x\<in>set (ranked cs). - mc_mapping_score best \<le> - mc_mapping_score x" using assms(1) by auto
  then show ?thesis using assms(2) by (auto simp: set_ranked)
qed

lemma settle_best_fields:
  "mc_mapping_score (settle_best raw c) = mc_mapping_score c"
  "mc_canonical_path (settle_best raw c) = mc_canonical_path c"
  "mc_hard_type_conflict (settle_best raw c) = mc_hard_type_conflict c"
  "mc_is_critical (settle_best raw c) = mc_is_critical c"
  by (simp_all add: settle_best_def)

text \<open>Settling changes nothing but the evidence of a scored candidate.\<close>

lemma settle_best_scored:
  assumes "c = score_candidate raw fp d fam"
  shows "mc_review_status (settle_best raw c) = mc_review_status c"
    and "mc_preserve_in_extensions (settle_best raw c) = mc_preserve_in_extensions c"
    and "mc_destination_path (settle_best raw c) = mc_destination_path c"
  using thresholds assms
  by (auto simp: settle_best_def score_candidate_fields review_decision_def)

lemma map_field_cases:
  assumes "get_all_fields kb \<noteq> []" "1 \<le> top_n"
  obtains d where "d \<in> set (get_all_fields kb)"
    and "fm_chosen_mapping (map_field kb fp fam top_n) = settle_best (fp_name fp) (score_candidate (fp_name fp) fp d fam)"
    and "\<And>d'. d' \<in> set (get_all_fields kb) \<Longrightarrow>
      mc_mapping_score (score_candidate (fp_name fp) fp d' fam) \<le> mc_mapping_score (score_candidate (fp_name fp) fp d fam)"
proof -
  let ?cs = "map (\<lambda>d. score_candidate (fp_name fp) fp d fam) (get_all_fields kb)"
  obtain best rest where r: "ranked ?cs = best # rest"
    using assms(1) set_ranked [of ?cs] by (cases "ranked ?cs") auto
  have sl: "slice_to (ranked ?cs) top_n = best # take (nat top_n - 1) rest"
    using assms(2) by (cases "nat top_n") (auto simp: slice_to_def r)
  have "best \<in> set (ranked ?cs)" by (simp add: r)
  then have "best \<in> set ?cs" by (simp only: set_ranked)
  then obtain d where d: "d \<in> set (get_all_fields kb)" "best = score_candidate (fp_name fp) fp d fam" by auto
  moreover have "mc_mapping_score (score_candidate (fp_name fp) fp d' fam) \<le> mc_mapping_score best"
    if "d' \<in> set (get_all_fields kb)" for d'
    using hd_ranked_max [OF r] that by auto
  ultimately show ?thesis using sl that by (auto simp: map_field_def Let_def)
qed

lemma canonical_fields: "get_all_fields canonical_kb = canonical_definitions"
  by (simp add: canonical_kb_def get_all_fields_load canonical_paths)

lemma canonical_nonempty: "canonical_definitions \<noteq> []"
  by (simp add: canonical_definitions_def kb_perimeter_def)

lemma scored_decision:
  fixes fp d fam
  defines "c \<equiv> score_candidate (fp_name fp) fp d fam"
  shows "mc_review_status c = (if AUTO_ACCEPT_THRESHOLD \<le> mc_mapping_score c then AUTO_ACCEPTED
      else if HUMAN_REVIEW_THRESHOLD \<le> mc_mapping_score c then HUMAN_REVIEW else ABSTAIN)"
  using hard_conflict_score [of fp d "fp_name fp" fam] score_thresholds thresholds
  by (auto simp: c_def score_candidate_fields(3) review_decision_def)

text \<open>
  C20. A field whose observed type contradicts a canonical field is never mapped to it: whatever
  its name and the bonuses, the score stays at or below 0.76, the candidate abstains, and the
  field keeps its place among the source extensions.
\<close>

theorem hard_conflict_never_mapped:
  assumes "mc_hard_type_conflict (score_candidate raw fp d fam)"
  shows "mc_mapping_score (score_candidate raw fp d fam) \<le> fl (76 / 100)
    \<and> mc_review_status (score_candidate raw fp d fam) = ABSTAIN
    \<and> mc_preserve_in_extensions (score_candidate raw fp d fam)
    \<and> mc_destination_path (score_candidate raw fp d fam) = ''extensions.source.'' @ raw"
  using assms hard_conflict_score [of fp d raw fam] score_thresholds(1)
  by (auto simp: score_candidate_fields(2,3,4,5) review_decision_def extension_path_def)

text \<open>
  C21. The mapping chosen for a field is one of the canonical fields and none scores higher; it is
  accepted from 0.95 on, left to review from 0.80 on, and otherwise the field goes to the source
  extensions.
\<close>

theorem map_field_best:
  assumes "1 \<le> top_n"
    and "c = fm_chosen_mapping (map_field canonical_kb fp fam top_n)"
  shows "mc_canonical_path c \<in> cf_path ` set canonical_definitions
    \<and> (\<forall>d\<in>set canonical_definitions.
         mc_mapping_score (score_candidate (fp_name fp) fp d fam) \<le> mc_mapping_score c)
    \<and> mc_review_status c =
        (if fl (95 / 100) \<le> mc_mapping_score c then AUTO_ACCEPTED
         else if fl (80 / 100) \<le> mc_mapping_score c then HUMAN_REVIEW else ABSTAIN)
    \<and> mc_destination_path c =
        (if mc_review_status c = ABSTAIN then ''extensions.source.'' @ fp_name fp else mc_canonical_path c)"
proof -
  obtain d where d: "d \<in> set canonical_definitions"
    and c: "c = settle_best (fp_name fp) (score_candidate (fp_name fp) fp d fam)"
    and best: "\<And>d'. d' \<in> set canonical_definitions \<Longrightarrow>
      mc_mapping_score (score_candidate (fp_name fp) fp d' fam) \<le> mc_mapping_score (score_candidate (fp_name fp) fp d fam)"
    using map_field_cases [of canonical_kb top_n fp fam] assms
    unfolding canonical_fields by (metis canonical_nonempty)
  note eqs = settle_best_fields settle_best_scored [OF refl]
  show ?thesis
    using d best scored_decision [of fp d fam]
    by (auto simp: c eqs score_candidate_fields(5,6) extension_path_def
        AUTO_ACCEPT_THRESHOLD_def HUMAN_REVIEW_THRESHOLD_def)
qed

text \<open>
  A field named like a canonical field or one of its aliases, with values of a compatible
  type, is accepted automatically, with a score of at least 0.98.
\<close>

theorem exact_name_auto_accepted:
  assumes "d \<in> set canonical_definitions" "1 \<le> top_n"
    and "is_exact_path (str_lower (str_strip (fp_name fp))) d \<or> is_exact_alias (str_lower (str_strip (fp_name fp))) d"
    and "evaluate_type_compatibility (fp_inferred_type fp) (cf_expected_types d) (Some fp) = (True, False)"
  shows "mc_review_status (fm_chosen_mapping (map_field canonical_kb fp fam top_n)) = AUTO_ACCEPTED
    \<and> fl (98 / 100) \<le> mc_mapping_score (fm_chosen_mapping (map_field canonical_kb fp fam top_n))"
proof -
  obtain d' where c: "fm_chosen_mapping (map_field canonical_kb fp fam top_n)
      = settle_best (fp_name fp) (score_candidate (fp_name fp) fp d' fam)"
    and best: "mc_mapping_score (score_candidate (fp_name fp) fp d fam) \<le> mc_mapping_score (score_candidate (fp_name fp) fp d' fam)"
    using map_field_cases [of canonical_kb top_n fp fam] assms(1,2)
    unfolding canonical_fields by (metis canonical_nonempty)
  have "fl (98 / 100) \<le> mc_mapping_score (score_candidate (fp_name fp) fp d fam)"
    using assms(3,4) by (intro exact_name_score) (simp_all add: type_verdict_def)
  with best have "fl (98 / 100) \<le> mc_mapping_score (score_candidate (fp_name fp) fp d' fam)" by simp
  then show ?thesis
    using scored_decision [of fp d' fam] score_thresholds(2)
    by (simp add: c settle_best_fields settle_best_scored [OF refl])
qed

section \<open>Similarity of names\<close>

lemma similarity_bounds:
  assumes "length raw < 2 ^ 52"
  shows "0 \<le> compute_lexical_similarity raw target" "compute_lexical_similarity raw target \<le> 1"
proof -
  let ?r = "filter is_alnum_lower (str_lower raw)" and ?t = "filter is_alnum_lower (str_lower target)"
  have "length ?r < 2 ^ 52"
    using assms le_less_trans [OF length_filter_le] by (simp add: str_lower_def)
  then have "0 \<le> seq_ratio ?r ?t \<and> seq_ratio ?r ?t \<le> 1" by (rule seq_ratio_unit)
  then have "0 \<le> py_round (seq_ratio ?r ?t) 3 \<and> py_round (seq_ratio ?r ?t) 3 \<le> 1"
    by (simp add: round3.unit_interval)
  moreover have "0 \<le> fl (90 / 100) \<and> fl (90 / 100) \<le> 1" by (rule ieee.unit_interval) simp_all
  ultimately show "0 \<le> compute_lexical_similarity raw target" "compute_lexical_similarity raw target \<le> 1"
    by (auto simp: compute_lexical_similarity_def Let_def)
qed

lemma fold_max_le: "x \<le> u \<Longrightarrow> \<forall>y\<in>set ys. y \<le> u \<Longrightarrow> fold max ys x \<le> (u :: rat)"
  by (induction ys arbitrary: x) auto

text \<open>A name equal to the last component of a path has the similarity 1 to the definition.\<close>

lemma best_similarity_leaf:
  assumes "compute_lexical_similarity raw (last (str_split (CHR ''.'') (cf_path d))) = 1" "length raw < 2 ^ 52"
  shows "best_similarity raw d = 1"
proof -
  let ?sims = "map (compute_lexical_similarity raw) (cf_aliases d)"
  have le: "\<forall>y\<in>set ?sims. y \<le> 1" using similarity_bounds(2) [OF assms(2)] by simp
  have "(if ?sims = [] then 0 else fold max (tl ?sims) (hd ?sims)) \<le> 1"
  proof (cases ?sims)
    case (Cons y ys)
    then show ?thesis using le by (simp only: Cons) (simp add: fold_max_le)
  qed simp
  then show ?thesis by (simp only: best_similarity_def Let_def assms(1) max_def) simp
qed

section \<open>Ambiguous names\<close>

text \<open>What the catalogue says about the definitions that expect addresses.\<close>

lemma ip_definitions:
  "list_all (\<lambda>d. cf_expected_types d = [''ipv4'', ''ipv6'', ''ip''] \<and> cf_event_families d = all_families
       \<and> cf_path d \<notin> set [''event.action'', ''event.outcome'', ''network.protocol''])
     (filter (\<lambda>d. ''ip'' \<in> set (cf_expected_types d)) canonical_definitions)"
  "list_all (\<lambda>d. \<not> is_exact_path ''ip'' d \<and> \<not> is_exact_alias ''ip'' d
       \<and> compute_lexical_similarity ''ip'' (last (str_split (CHR ''.'') (cf_path d))) = 1)
     (filter (\<lambda>d. ''ip'' \<in> set (cf_expected_types d)) canonical_definitions)"
  by code_simp+

lemma ip_name_score:
  assumes "d \<in> set canonical_definitions" "''ip'' \<in> set (cf_expected_types d)"
  shows "name_score ''ip'' d = (fl (88 / 100), LexicalSimilarity (fl (88 / 100)))"
proof -
  have "\<not> is_exact_path ''ip'' d" "\<not> is_exact_alias ''ip'' d"
      "compute_lexical_similarity ''ip'' (last (str_split (CHR ''.'') (cf_path d))) = 1"
    using ip_definitions(2) assms unfolding list_all_iff set_filter by blast+
  moreover have "fl (75 / 100) \<le> 1" by (rule ieee.le_one) simp
  ultimately show ?thesis using best_similarity_leaf [of "''ip''" d] by (simp add: name_score_def Let_def fl_idem)
qed

lemma ip_score_value:
  "max 0 (min 1 (py_round (capped (capped (capped (fl (88 / 100)) (fl (2 / 100))) (fl (3 / 100))) (fl (2 / 100))) 4))
     = fl (95 / 100)"
  by code_simp

text \<open>
  A column called \<open>ip\<close> that holds IPv4 addresses, in the context of any event family,
  scores exactly 0.95 for every canonical address: it is accepted automatically for the source,
  the destination and the device alike, although nothing but the last component of the name
  matches.
\<close>

theorem bare_ip_accepted_everywhere:
  assumes "d \<in> set canonical_definitions" "''ip'' \<in> set (cf_expected_types d)"
    and "fp_inferred_type fp = ''ipv4''" "fp_is_ip_candidate fp" "fam \<in> set all_families"
  shows "mc_mapping_score (score_candidate ''ip'' fp d (Some fam)) = fl (95 / 100)
    \<and> mc_review_status (score_candidate ''ip'' fp d (Some fam)) = AUTO_ACCEPTED"
proof -
  have d: "cf_expected_types d = [''ipv4'', ''ipv6'', ''ip'']" "cf_event_families d = all_families"
      "cf_path d \<notin> set [''event.action'', ''event.outcome'', ''network.protocol'']"
    using ip_definitions(1) assms(1,2) unfolding list_all_iff set_filter by blast+
  have clean: "str_lower (str_strip ''ip'') = ''ip''" by code_simp
  have v: "type_verdict fp d = (True, False)"
    by (simp add: type_verdict_def evaluate_type_compatibility_def assms(3) d(1))
  have "fst (typed_score ''ip'' fp d) = capped (fl (88 / 100)) (fl (2 / 100))"
    by (simp add: typed_score_def clean ip_name_score [OF assms(1,2)] type_score_def v assms(3))
  moreover have "fam \<noteq> []" using assms(5) by (auto simp: all_families_def)
  ultimately have "fst (bonus_score ''ip'' fp d (Some fam))
      = capped (capped (capped (fl (88 / 100)) (fl (2 / 100))) (fl (3 / 100))) (fl (2 / 100))"
    using d(3) assms(4,5) by (simp add: bonus_score_def bonuses_def add_bonus_def d(1,2))
  then have "mc_mapping_score (score_candidate ''ip'' fp d (Some fam)) = fl (95 / 100)"
    by (simp only: score_candidate_fields ip_score_value)
  then show ?thesis by (simp add: score_candidate_fields(3) v review_decision_def AUTO_ACCEPT_THRESHOLD_def)
qed

section \<open>Sources\<close>

definition status_count :: "ReviewStatus \<Rightarrow> (string \<times> FieldMappingResult) list \<Rightarrow> nat" where
  "status_count st rs = length (filter (\<lambda>(k, r). mc_review_status (fm_chosen_mapping r) = st) rs)"

definition critical_count :: "(string \<times> FieldMappingResult) list \<Rightarrow> nat" where
  "critical_count rs = length (filter (\<lambda>(k, r). mc_is_critical (fm_chosen_mapping r)
     \<and> mc_review_status (fm_chosen_mapping r) \<noteq> ABSTAIN) rs)"

definition tally_of :: "(string \<times> FieldMappingResult) list \<Rightarrow> tally" where
  "tally_of rs = \<lparr>tl_results = rs, tl_auto = status_count AUTO_ACCEPTED rs,
     tl_review = status_count HUMAN_REVIEW rs, tl_abstained = status_count ABSTAIN rs,
     tl_critical = critical_count rs\<rparr>"

lemma count_field_fresh:
  "k \<notin> fst ` set rs \<Longrightarrow> count_field (tally_of rs) (k, r) = tally_of (rs @ [(k, r)])"
  by (simp add: count_field_def tally_of_def status_count_def critical_count_def Let_def update_fresh)

lemma tally_fields:
  "distinct (map fst rs @ map fst fs) \<Longrightarrow>
   foldl (\<lambda>t (k, fp). count_field t (k, f fp)) (tally_of rs) fs = tally_of (rs @ map (\<lambda>(k, fp). (k, f fp)) fs)"
proof (induction fs arbitrary: rs)
  case (Cons p fs)
  obtain k fp where p: "p = (k, fp)" by (cases p)
  have "k \<notin> fst ` set rs" using Cons.prems p by auto
  then show ?case using Cons.IH [of "rs @ [(k, f fp)]"] Cons.prems by (simp add: p count_field_fresh)
qed simp

lemma status_partition:
  "status_count AUTO_ACCEPTED rs + status_count HUMAN_REVIEW rs + status_count ABSTAIN rs = length rs"
proof (induction rs)
  case (Cons p rs)
  then show ?case
    by (cases "mc_review_status (fm_chosen_mapping (snd p))") (simp_all add: status_count_def split_beta)
qed (simp add: status_count_def)

lemma critical_le: "critical_count rs \<le> status_count AUTO_ACCEPTED rs + status_count HUMAN_REVIEW rs"
proof (induction rs)
  case (Cons p rs)
  then show ?case
    by (cases "mc_review_status (fm_chosen_mapping (snd p))")
      (simp_all add: status_count_def critical_count_def split_beta)
qed (simp add: critical_count_def)

text \<open>
  The report on a source holds for every field the mapping of that field, in order, and its
  summary is exact: the three decisions partition the fields, and the critical fields counted as
  mapped are among the accepted and the reviewed ones.
\<close>

theorem map_source_accounting:
  assumes "dict_ok (sp_fields src)"
    and "r = map_source kb src source_id fam top_n"
  shows "sm_mappings r = map (\<lambda>(k, fp). (k, map_field kb fp fam top_n)) (sp_fields src)
    \<and> ms_total_fields (sm_summary r) = length (sp_fields src)
    \<and> ms_auto_accepted_count (sm_summary r) + ms_human_review_count (sm_summary r)
        + ms_abstained_count (sm_summary r) = ms_total_fields (sm_summary r)
    \<and> ms_critical_fields_mapped (sm_summary r)
        \<le> ms_auto_accepted_count (sm_summary r) + ms_human_review_count (sm_summary r)"
proof -
  let ?rs = "map (\<lambda>(k, fp). (k, map_field kb fp fam top_n)) (sp_fields src)"
  have start: "\<lparr>tl_results = [], tl_auto = 0, tl_review = 0, tl_abstained = 0, tl_critical = 0\<rparr> = tally_of []"
    by (simp add: tally_of_def status_count_def critical_count_def)
  have "foldl (\<lambda>t (k, fp). count_field t (k, map_field kb fp fam top_n)) (tally_of []) (sp_fields src) = tally_of ?rs"
    using tally_fields [of "[]" "sp_fields src"] assms(1) by (simp add: dict_ok_def)
  then show ?thesis
    using status_partition [of ?rs] critical_le [of ?rs]
    unfolding assms(2) map_source_def start by (simp add: tally_of_def Let_def)
qed

text \<open>
  The similarity of two names lies between 0 and 1, is 1 for names that agree up to case and
  separators, and is 0 when one of them has no letter and no digit.
\<close>

theorem lexical_similarity_unit:
  assumes "length raw < 2 ^ 52"
  shows "0 \<le> compute_lexical_similarity raw target \<and> compute_lexical_similarity raw target \<le> 1
    \<and> (filter is_alnum_lower (str_lower raw) = filter is_alnum_lower (str_lower target)
        \<and> filter is_alnum_lower (str_lower raw) \<noteq> [] \<longrightarrow> compute_lexical_similarity raw target = 1)
    \<and> (filter is_alnum_lower (str_lower raw) = [] \<or> filter is_alnum_lower (str_lower target) = []
        \<longrightarrow> compute_lexical_similarity raw target = 0)"
  using similarity_bounds [OF assms, of target]
  by (intro conjI impI) (auto simp: compute_lexical_similarity_def Let_def)

section \<open>Instances\<close>

definition profile_of :: "string \<Rightarrow> string \<Rightarrow> FieldProfile" where
  "profile_of name ty = \<lparr>fp_name = name, fp_inferred_type = ty, fp_type_distribution = [(ty, 2)],
     fp_nullable = False, fp_null_count = 0, fp_total_count = 2, fp_distinct_count = 1,
     fp_sample_values = [PStr ''x''], fp_min_value = PNone, fp_max_value = PNone, fp_avg_length = None,
     fp_is_ip_candidate = (ty = ''ipv4''), fp_is_timestamp_candidate = False,
     fp_is_enum_candidate = False, fp_enum_values = None, fp_presence_ratio = 1\<rparr>"

definition src_port_definition :: CanonicalFieldDefinition where
  "src_port_definition = canonical_definitions ! 2"

lemma src_port_instance:
  "mc_hard_type_conflict (score_candidate ''src_port'' (profile_of ''src_port'' ''ipv4'') src_port_definition None)"
  "src_port_definition \<in> set canonical_definitions"
  "is_exact_alias (str_lower (str_strip (fp_name (profile_of ''Src-Port'' ''integer'')))) src_port_definition"
  "evaluate_type_compatibility ''integer'' (cf_expected_types src_port_definition) (Some (profile_of ''Src-Port'' ''integer'')) = (True, False)"
  by code_simp+

theorem hard_conflict_never_mapped_witness:
  "mc_hard_type_conflict (score_candidate ''src_port'' (profile_of ''src_port'' ''ipv4'') src_port_definition None)
   \<and> mc_review_status (score_candidate ''src_port'' (profile_of ''src_port'' ''ipv4'') src_port_definition None) = ABSTAIN"
  using hard_conflict_never_mapped [OF src_port_instance(1)] src_port_instance(1) by blast

theorem map_field_best_witness:
  "mc_canonical_path (fm_chosen_mapping (map_field canonical_kb (profile_of ''Src-Port'' ''integer'') None 3))
     \<in> cf_path ` set canonical_definitions"
  using map_field_best [of 3, OF _ refl] by simp

theorem exact_name_auto_accepted_witness:
  "mc_review_status (fm_chosen_mapping (map_field canonical_kb (profile_of ''Src-Port'' ''integer'') None 3)) = AUTO_ACCEPTED"
  using exact_name_auto_accepted [OF src_port_instance(2), of 3 "profile_of ''Src-Port'' ''integer''" None]
    src_port_instance(3,4) by (simp add: profile_of_def)

theorem bare_ip_accepted_everywhere_witness:
  "mc_review_status (score_candidate ''ip'' (profile_of ''ip'' ''ipv4'') (canonical_definitions ! 1) (Some ''WEB_SESSION''))
     = AUTO_ACCEPTED \<and> cf_path (canonical_definitions ! 1) = ''dst.ip''"
proof -
  have "canonical_definitions ! 1 \<in> set canonical_definitions" by code_simp
  moreover have "''ip'' \<in> set (cf_expected_types (canonical_definitions ! 1))" by code_simp
  moreover have "''WEB_SESSION'' \<in> set all_families" by code_simp
  moreover have "cf_path (canonical_definitions ! 1) = ''dst.ip''" by code_simp
  ultimately show ?thesis
    using bare_ip_accepted_everywhere [of "canonical_definitions ! 1" "profile_of ''ip'' ''ipv4''" "''WEB_SESSION''"]
    by (simp add: profile_of_def)
qed

definition two_fields :: SourceProfile where
  "two_fields = \<lparr>sp_format = LF_JSON, sp_confidence = 1, sp_total_records = 2, sp_valid_records = 2,
     sp_corrupted_records = 0, sp_fields = [(''Src-Port'', profile_of ''Src-Port'' ''integer''),
       (''ip'', profile_of ''ip'' ''ipv4'')], sp_templates = [], sp_delimiter = None,
     sp_format_distribution = [], sp_sample_events = []\<rparr>"

theorem map_source_accounting_witness:
  "dict_ok (sp_fields two_fields)
   \<and> ms_total_fields (sm_summary (map_source canonical_kb two_fields None None 3)) = 2"
proof -
  have "dict_ok (sp_fields two_fields)" by (simp add: two_fields_def dict_ok_def)
  with map_source_accounting [OF this refl, of canonical_kb None None 3] show ?thesis
    by (simp add: two_fields_def)
qed

theorem lexical_similarity_unit_witness:
  "0 \<le> compute_lexical_similarity ''srcaddr'' ''dstaddr'' \<and> compute_lexical_similarity ''srcaddr'' ''dstaddr'' \<le> 1"
  using lexical_similarity_unit [of "''srcaddr''" "''dstaddr''"] by simp

end
