(* ===== verification/SpecDsl.thy ===== *)
theory SpecDsl
  imports PyStr Profiler
begin

text \<open>
  What the shadow runner, the validator and the self-healing workflow share in reading a parser
  specification, a JSON document whose parts are only known to be some value: values as keys, the
  enumeration of a field definition, the parser's identity and the format hint.
\<close>

text \<open>A value used as the key of a dictionary.\<close>

fun dict_key :: "pyval \<Rightarrow> string result" where
  "dict_key (PStr s) = Inr s"
| "dict_key (PList _) = Inl TypeError"
| "dict_key (PDict _) = Inl TypeError"
| "dict_key _ = Inl OutsideModel"

text \<open>\<open>dict(v)\<close>\<close>

fun py_dict :: "pyval \<Rightarrow> dict result" where
  "py_dict (PDict d) = Inr d"
| "py_dict (PList []) = Inr []"
| "py_dict (PList _) = Inl OutsideModel"
| "py_dict (PStr []) = Inr []"
| "py_dict (PStr _) = Inl (ValueError ''dictionary update sequence element #0 has length 1; 2 is required'')"
| "py_dict _ = Inl TypeError"

text \<open>\<open>enum_map = f_def.get("enum", {})\<close>, applied to a value that is a string.\<close>

definition apply_enum :: "pyval \<Rightarrow> pyval \<Rightarrow> pyval result" where
  "apply_enum f_def val = res_bind (py_get f_def ''enum'' (PDict [])) (\<lambda>enum_map.
     case val of
       PStr s \<Rightarrow> res_bind (py_in s enum_map) (\<lambda>b. if b then py_index enum_map s else Inr val)
     | _ \<Rightarrow> Inr val)"

text \<open>The target of a field and its value, for a raw key that the specification defines.\<close>

definition apply_field :: "pyval \<Rightarrow> string \<Rightarrow> pyval \<Rightarrow> (string \<times> pyval) result" where
  "apply_field fields_spec raw_k raw_v =
     res_bind (py_index fields_spec raw_k) (\<lambda>f_def.
     res_bind (py_get f_def ''map_to'' (PStr raw_k)) (\<lambda>canon_k.
     res_bind (apply_enum f_def raw_v) (\<lambda>val.
     res_bind (dict_key canon_k) (\<lambda>k. Inr (k, val)))))"

definition parser_identity :: "dict \<Rightarrow> string \<Rightarrow> string \<Rightarrow> (pyval \<times> pyval) result" where
  "parser_identity spec default_id default_version =
     (let info = dict_get spec ''parser'' (PDict [])
      in res_bind (py_get info ''id'' (PStr default_id)) (\<lambda>i.
         res_bind (py_get info ''version'' (PStr default_version)) (\<lambda>v. Inr (i, v))))"

definition format_hint :: "string \<Rightarrow> LogFormat option" where
  "format_hint fmt_str =
     (if str_contains ''cef'' fmt_str then Some LF_CEF
      else if str_contains ''leef'' fmt_str then Some LF_LEEF
      else if str_contains ''syslog'' fmt_str then Some LF_SYSLOG_RFC5424
      else if str_contains ''json'' fmt_str then Some LF_JSON
      else if str_contains ''csv'' fmt_str then Some LF_CSV
      else if str_contains ''kv'' fmt_str \<or> str_contains ''key_value'' fmt_str then Some LF_KEY_VALUE
      else None)"

end
