(* ===== verification/Runner.thy ===== *)
theory Runner
  imports Comparator SpecDsl
begin

text \<open>
  The shadow runner, \<open>ml/shadow/runner.py\<close>: both parsers are run on every raw event, the
  active output goes to the downstream bus, the candidate output is tagged and kept in the
  shadow sink, and the comparator judges the two streams. The bus is part of the state, which is
  returned also when an event makes a parser raise. \<open>time.perf_counter()\<close> is a parameter: its
  reading number \<open>n\<close>; \<open>datetime.now\<close> gives the times of start and end.
\<close>

section \<open>Parsing an event\<close>

text \<open>A structured event: known keys are mapped, the others keep their place.\<close>

definition map_entry :: "pyval \<Rightarrow> dict \<Rightarrow> string \<times> pyval \<Rightarrow> dict result" where
  "map_entry fields_spec mapped entry = (case entry of (k, v) \<Rightarrow>
     if k = ''unknown_fields'' then Inr mapped
     else res_bind (py_in k fields_spec) (\<lambda>known.
       if known then res_bind (apply_field fields_spec k v) (\<lambda>(canon_k, val). Inr (AList.update canon_k val mapped))
       else Inr (AList.update k v mapped)))"

definition with_unknowns :: "dict \<Rightarrow> dict \<Rightarrow> dict" where
  "with_unknowns event unknowns =
     (if unknowns = [] then event else AList.update ''unknown_fields'' (PDict unknowns) event)"

definition parse_structured :: "dict \<Rightarrow> dict \<Rightarrow> dict result" where
  "parse_structured spec raw =
     (let fields_spec = dict_get spec ''fields'' (PDict [])
      in res_bind (py_dict (dict_get raw ''unknown_fields'' (PDict []))) (\<lambda>unknowns.
         res_bind (res_foldl (map_entry fields_spec) [] raw) (\<lambda>mapped.
         Inr (with_unknowns mapped unknowns))))"

text \<open>A line of text: known fields are mapped, the others are unknown fields.\<close>

definition split_entry :: "pyval \<Rightarrow> dict \<times> dict \<Rightarrow> string \<times> pyval \<Rightarrow> (dict \<times> dict) result" where
  "split_entry fields_spec st entry = (case (st, entry) of ((event, unknowns), (raw_k, raw_v)) \<Rightarrow>
     res_bind (py_in raw_k fields_spec) (\<lambda>known.
       if known then res_bind (apply_field fields_spec raw_k raw_v) (\<lambda>(canon_k, val).
         Inr (AList.update canon_k val event, unknowns))
       else Inr (event, AList.update raw_k raw_v unknowns)))"

definition extract_fields :: "(string \<Rightarrow> pyval option) \<Rightarrow> dict \<Rightarrow> string \<Rightarrow> dict result" where
  "extract_fields json_loads spec raw_str =
     res_bind (py_get (dict_get spec ''match'' (PDict [])) ''format'' (PStr [])) (\<lambda>fmt.
     res_bind (parse_record json_loads raw_str (format_hint (str_lower (py_str fmt))) None None) (\<lambda>(res, _).
       Inr (case res of None \<Rightarrow> [] | Some r \<Rightarrow> r)))"

definition parse_text_event :: "(string \<Rightarrow> pyval option) \<Rightarrow> dict \<Rightarrow> string \<Rightarrow> dict result" where
  "parse_text_event json_loads spec raw_str =
     res_bind (extract_fields json_loads spec raw_str) (\<lambda>extracted.
     res_bind (res_foldl (split_entry (dict_get spec ''fields'' (PDict []))) ([], []) extracted)
       (\<lambda>(event, unknowns). Inr (with_unknowns event unknowns)))"

definition parse_event :: "(string \<Rightarrow> pyval option) \<Rightarrow> dict \<Rightarrow> pyval \<Rightarrow> dict result" where
  "parse_event json_loads spec raw_input = (case raw_input of
       PDict d \<Rightarrow> parse_structured spec d
     | _ \<Rightarrow> parse_text_event json_loads spec (py_str raw_input))"

section \<open>Dual execution\<close>

record dual_state =
  ds_bus :: "pyval list option"
  ds_active :: "dict list"
  ds_candidate :: "dict list"
  ds_active_lat :: "rat list"
  ds_candidate_lat :: "rat list"

text \<open>\<open>max(0.001, (t1 - t0) * 1000.0)\<close>\<close>

definition latency_ms :: "rat \<Rightarrow> rat \<Rightarrow> rat" where
  "latency_ms t0 t1 = max (fl (1 / 1000)) (fl (fl (t1 - t0) * 1000))"

definition tag_shadow :: "pyval \<times> pyval \<Rightarrow> dict \<Rightarrow> dict" where
  "tag_shadow ident event = AList.update ''_shadow''
     (PDict [(''candidate_parser_id'', fst ident), (''candidate_parser_version'', snd ident),
             (''is_shadow'', PBool True)]) event"

definition publish :: "bool \<Rightarrow> dict \<Rightarrow> pyval list option \<Rightarrow> pyval list option" where
  "publish enabled event bus = (case bus of None \<Rightarrow> None
     | Some b \<Rightarrow> Some (if enabled then b @ [PDict event] else b))"

definition dual_event ::
    "(dict \<Rightarrow> pyval \<Rightarrow> dict result) \<Rightarrow> (nat \<Rightarrow> rat) \<Rightarrow> bool \<Rightarrow> dict \<Rightarrow> dict \<Rightarrow> pyval \<times> pyval
     \<Rightarrow> nat \<Rightarrow> pyval \<Rightarrow> dual_state \<Rightarrow> dual_state \<times> exn option" where
  "dual_event parse perf enabled active_spec candidate_spec ident i raw st =
     (case parse active_spec raw of
        Inl e \<Rightarrow> (st, Some e)
      | Inr act \<Rightarrow>
          let st1 = st\<lparr>ds_active_lat := ds_active_lat st @ [latency_ms (perf (4 * i)) (perf (4 * i + 1))],
                       ds_active := ds_active st @ [act],
                       ds_bus := publish enabled act (ds_bus st)\<rparr>
          in case parse candidate_spec raw of
               Inl e \<Rightarrow> (st1, Some e)
             | Inr cand \<Rightarrow>
                 (st1\<lparr>ds_candidate_lat := ds_candidate_lat st1
                         @ [latency_ms (perf (4 * i + 2)) (perf (4 * i + 3))],
                      ds_candidate := ds_candidate st1 @ [tag_shadow ident cand]\<rparr>, None))"

fun dual_loop ::
    "(dict \<Rightarrow> pyval \<Rightarrow> dict result) \<Rightarrow> (nat \<Rightarrow> rat) \<Rightarrow> bool \<Rightarrow> dict \<Rightarrow> dict \<Rightarrow> pyval \<times> pyval
     \<Rightarrow> nat \<Rightarrow> pyval list \<Rightarrow> dual_state \<Rightarrow> dual_state \<times> exn option" where
  "dual_loop parse perf enabled active_spec candidate_spec ident i [] st = (st, None)"
| "dual_loop parse perf enabled active_spec candidate_spec ident i (raw # raws) st =
     (case dual_event parse perf enabled active_spec candidate_spec ident i raw st of
        (st', Some e) \<Rightarrow> (st', Some e)
      | (st', None) \<Rightarrow> dual_loop parse perf enabled active_spec candidate_spec ident (i + 1) raws st')"

text \<open>
  The scope guard: \<open>isinstance(ev, dict) and ev.get("_shadow", {}).get("is_shadow") is True\<close>
  for the events in order, up to the first hit.
\<close>

definition shadow_tagged :: "pyval \<Rightarrow> bool result" where
  "shadow_tagged ev = (case ev of
       PDict d \<Rightarrow> res_bind (py_get (dict_get d ''_shadow'' (PDict [])) ''is_shadow'' PNone)
                    (\<lambda>v. Inr (v = PBool True))
     | _ \<Rightarrow> Inr False)"

fun isolation_check :: "pyval list \<Rightarrow> bool result" where
  "isolation_check [] = Inr True"
| "isolation_check (ev # evs) = res_bind (shadow_tagged ev) (\<lambda>b. if b then Inr False else isolation_check evs)"

definition bus_isolated :: "pyval list option \<Rightarrow> nat \<Rightarrow> bool result" where
  "bus_isolated bus initial_size = (case bus of
       None \<Rightarrow> Inr True | Some b \<Rightarrow> isolation_check (drop initial_size b))"

definition execute_dual ::
    "(string \<Rightarrow> pyval option) \<Rightarrow> string list \<Rightarrow> (nat \<Rightarrow> rat) \<Rightarrow> datetime \<Rightarrow> datetime \<Rightarrow> pyval list \<Rightarrow> dict \<Rightarrow> dict
     \<Rightarrow> string \<Rightarrow> pyval list option \<Rightarrow> bool \<Rightarrow> pyval list option \<times> ShadowComparisonReport result" where
  "execute_dual json_loads crit_order perf start_time end_time raw_events active_spec candidate_spec
     source_id downstream_bus publish_active =
     (case res_bind (parser_identity active_spec (source_id @ ''.active'') ''1.0.0'') (\<lambda>a.
           res_bind (parser_identity candidate_spec (source_id @ ''.candidate'') ''1.1.0'') (\<lambda>c. Inr (a, c))) of
        Inl e \<Rightarrow> (downstream_bus, Inl e)
      | Inr (a, c) \<Rightarrow>
          (case dual_loop (parse_event json_loads) perf publish_active active_spec candidate_spec c 0 raw_events
               \<lparr>ds_bus = downstream_bus, ds_active = [], ds_candidate = [], ds_active_lat = [],
                ds_candidate_lat = []\<rparr> of
             (st, Some e) \<Rightarrow> (ds_bus st, Inl e)
           | (st, None) \<Rightarrow>
               (ds_bus st,
                res_bind (bus_isolated (ds_bus st) (case downstream_bus of None \<Rightarrow> 0 | Some b \<Rightarrow> length b))
                  (\<lambda>isolated. Inr (compare_streams crit_order end_time source_id (fst a) (snd a) (fst c) (snd c)
                     (ds_active st) (ds_candidate st) (Some (ds_active_lat st)) (Some (ds_candidate_lat st))
                     isolated (Some start_time) (Some end_time) (Some end_time))))))"

definition execute_parsed_streams ::
    "string list \<Rightarrow> datetime \<Rightarrow> string \<Rightarrow> dict \<Rightarrow> dict \<Rightarrow> dict list \<Rightarrow> dict list \<Rightarrow> rat list option
     \<Rightarrow> rat list option \<Rightarrow> pyval list option \<Rightarrow> bool \<Rightarrow> ShadowComparisonReport result" where
  "execute_parsed_streams crit_order clock source_id active_spec candidate_spec active_events candidate_events
     active_lat candidate_lat downstream_bus isolation_verified =
     res_bind (parser_identity active_spec (source_id @ ''.active'') ''1.0.0'') (\<lambda>a.
     res_bind (parser_identity candidate_spec (source_id @ ''.candidate'') ''1.1.0'') (\<lambda>c.
     res_bind (bus_isolated downstream_bus 0) (\<lambda>isolated.
       Inr (compare_streams crit_order clock source_id (fst a) (snd a) (fst c) (snd c) active_events
              candidate_events active_lat candidate_lat (isolated \<and> isolation_verified) None None None))))"

section \<open>The loop\<close>

definition published :: "bool \<Rightarrow> dict list \<Rightarrow> pyval list option \<Rightarrow> pyval list option" where
  "published enabled evs bus = map_option (\<lambda>b. b @ (if enabled then map PDict evs else [])) bus"

lemma published_Nil [simp]: "published enabled [] bus = bus"
  by (simp add: published_def option.map_ident)

lemma published_Cons: "published enabled (ev # evs) bus = published enabled evs (publish enabled ev bus)"
  by (cases bus) (simp_all add: published_def publish_def)

lemma dual_loop_outcome:
  assumes "dual_loop parse perf enabled a c ident i raws st = (st', err)"
  shows "\<exists>n evs. res_map (parse a) (take n raws) = Inr evs
    \<and> ds_active st' = ds_active st @ evs \<and> ds_bus st' = published enabled evs (ds_bus st)
    \<and> (err = None \<longrightarrow> n = length raws \<and>
        (\<exists>cs. res_map (parse c) raws = Inr cs \<and> ds_candidate st' = ds_candidate st @ map (tag_shadow ident) cs))"
  using assms
proof (induction raws arbitrary: i st)
  case Nil
  then show ?case by auto
next
  case (Cons raw raws)
  show ?case
  proof (cases "parse a raw")
    case (Inl e)
    then have "st' = st" "err = Some e" using Cons.prems by (simp_all add: dual_event_def)
    then show ?thesis by (intro exI [of _ 0] exI [of _ "[]"]) simp
  next
    case act: (Inr act)
    let ?st1 = "st\<lparr>ds_active_lat := ds_active_lat st @ [latency_ms (perf (4 * i)) (perf (4 * i + 1))],
        ds_active := ds_active st @ [act], ds_bus := publish enabled act (ds_bus st)\<rparr>"
    show ?thesis
    proof (cases "parse c raw")
      case (Inl e)
      then have "st' = ?st1" "err = Some e" using Cons.prems act by (simp_all add: dual_event_def Let_def)
      then show ?thesis using act by (intro exI [of _ 1] exI [of _ "[act]"]) (simp add: published_Cons)
    next
      case (Inr cand)
      let ?st2 = "?st1\<lparr>ds_candidate_lat := ds_candidate_lat ?st1
            @ [latency_ms (perf (4 * i + 2)) (perf (4 * i + 3))],
          ds_candidate := ds_candidate ?st1 @ [tag_shadow ident cand]\<rparr>"
      have "dual_loop parse perf enabled a c ident (i + 1) raws ?st2 = (st', err)"
        using Cons.prems act Inr by (simp add: dual_event_def Let_def)
      from Cons.IH [OF this, simplified] obtain n evs where *: "res_map (parse a) (take n raws) = Inr evs"
        "ds_active st' = ds_active st @ act # evs"
        "ds_bus st' = published enabled evs (publish enabled act (ds_bus st))"
        "err = None \<longrightarrow> n = length raws \<and> (\<exists>cs. res_map (parse c) raws = Inr cs
           \<and> ds_candidate st' = ds_candidate st @ tag_shadow ident cand # map (tag_shadow ident) cs)"
        by blast
      have "err = None \<longrightarrow> Suc n = length (raw # raws) \<and> (\<exists>cs. res_map (parse c) (raw # raws) = Inr cs
           \<and> ds_candidate st' = ds_candidate st @ map (tag_shadow ident) cs)"
        using *(4) Inr by fastforce
      then show ?thesis using *(1,2,3) act
        by (intro exI [of _ "Suc n"] exI [of _ "act # evs"]) (simp add: published_Cons)
    qed
  qed
qed

text \<open>What a report that comes back was computed from.\<close>

lemma execute_dual_report:
  assumes "execute_dual json_loads crit_order perf t0 t1 raws a c sid bus enabled = (bus', Inr r)"
  shows "\<exists>evs cs ident isol al cl aid av. res_map (parse_event json_loads a) raws = Inr evs
    \<and> res_map (parse_event json_loads c) raws = Inr cs
    \<and> bus' = published enabled evs bus
    \<and> bus_isolated bus' (case bus of None \<Rightarrow> 0 | Some b \<Rightarrow> length b) = Inr isol
    \<and> r = compare_streams crit_order t1 sid aid av (fst ident) (snd ident) evs (map (tag_shadow ident) cs)
            (Some al) (Some cl) isol (Some t0) (Some t1) (Some t1)"
proof -
  obtain aid av ident where ids: "res_bind (parser_identity a (sid @ ''.active'') ''1.0.0'') (\<lambda>a.
      res_bind (parser_identity c (sid @ ''.candidate'') ''1.1.0'') (\<lambda>c. Inr (a, c))) = Inr ((aid, av), ident)"
    using assms by (fastforce simp: execute_dual_def split: sum.splits)
  define st0 where "st0 = \<lparr>ds_bus = bus, ds_active = [], ds_candidate = [], ds_active_lat = [],
    ds_candidate_lat = []\<rparr>"
  obtain st err where l: "dual_loop (parse_event json_loads) perf enabled a c ident 0 raws st0 = (st, err)"
    by (cases "dual_loop (parse_event json_loads) perf enabled a c ident 0 raws st0")
  have "err = None" using assms l by (cases err) (simp_all add: execute_dual_def ids flip: st0_def)
  with dual_loop_outcome [OF l] obtain evs cs where *: "res_map (parse_event json_loads a) raws = Inr evs"
    "res_map (parse_event json_loads c) raws = Inr cs" "ds_active st = evs"
    "ds_candidate st = map (tag_shadow ident) cs" "ds_bus st = published enabled evs bus"
    by (auto simp: st0_def)
  with assms l \<open>err = None\<close> show ?thesis
    by (fastforce simp: execute_dual_def ids result_simps simp flip: st0_def)
qed

section \<open>Keys of parsed events\<close>

definition field_target :: "dict \<Rightarrow> string \<Rightarrow> string option" where
  "field_target fs k = (case map_of fs k of
       Some (PDict f) \<Rightarrow> (case dict_get f ''map_to'' (PStr k) of PStr t \<Rightarrow> Some t | _ \<Rightarrow> None)
     | _ \<Rightarrow> None)"

lemma dict_key_Inr: "dict_key v = Inr k \<longleftrightarrow> v = PStr k"
  by (cases v) auto

lemma apply_field_Inr:
  "apply_field (PDict fs) k v = Inr (t, val) \<Longrightarrow> field_target fs k = Some t"
  by (auto simp: apply_field_def field_target_def result_simps dict_key_Inr split: option.splits
      elim!: py_get.elims dest!: sym [of "PStr t"])

lemma split_entry_pair:
  "split_entry (PDict fs) (ev, un) (k, v) =
     (if map_of fs k = None then Inr (ev, AList.update k v un)
      else res_bind (apply_field (PDict fs) k v) (\<lambda>(t, val). Inr (AList.update t val ev, un)))"
  by (simp add: split_entry_def)

lemma split_entry_fold:
  assumes "res_foldl (split_entry (PDict fs)) (ev, un) ex = Inr (ev', un')"
  shows "map_of un' = map_of un ++ map_of (rev (filter (\<lambda>(k, v). map_of fs k = None) ex))
    \<and> dom (map_of ev') = dom (map_of ev) \<union> {t. \<exists>k\<in>fst ` set ex. field_target fs k = Some t}
    \<and> (\<forall>k\<in>fst ` set ex. map_of fs k \<noteq> None \<longrightarrow> field_target fs k \<noteq> None)"
  using assms
proof (induction ex arbitrary: ev un)
  case Nil
  then show ?case by simp
next
  case (Cons p ex)
  obtain k v where p: "p = (k, v)" by (cases p)
  show ?case
  proof (cases "map_of fs k")
    case None
    then have "res_foldl (split_entry (PDict fs)) (ev, AList.update k v un) ex = Inr (ev', un')"
      using Cons.prems by (simp add: p split_entry_pair)
    moreover have "field_target fs k = None" using None by (simp add: field_target_def)
    ultimately show ?thesis using Cons.IH [of ev "AList.update k v un"] None
      by (simp add: p dict_simps) (auto simp: fun_eq_iff map_add_def split: option.splits)
  next
    case (Some f)
    then obtain t val where f: "apply_field (PDict fs) k v = Inr (t, val)"
      and "res_foldl (split_entry (PDict fs)) (AList.update t val ev, un) ex = Inr (ev', un')"
      using Cons.prems by (auto simp: p split_entry_pair result_simps)
    from Cons.IH [OF this(2)] apply_field_Inr [OF f] Some show ?thesis
      by (auto simp: p dict_simps split: if_splits)
  qed
qed

lemma parse_text_event_Inr:
  assumes "parse_text_event j spec raw = Inr ev" "dict_get spec ''fields'' (PDict []) = PDict fs"
    and "extract_fields j spec raw = Inr ex"
  obtains e u where "res_foldl (split_entry (PDict fs)) ([], []) ex = Inr (e, u)" "ev = with_unknowns e u"
  using assms by (auto simp: parse_text_event_def result_simps split: prod.splits)

lemma extract_fields_ok: "extract_fields j spec raw = Inr ex \<Longrightarrow> dict_ok ex"
  by (auto simp: extract_fields_def result_simps split: option.splits prod.splits dest: parse_record_ok)

lemma text_event_no_tag:
  assumes "parse_text_event j spec raw = Inr ev" "dict_get spec ''fields'' (PDict []) = PDict fs"
    and "\<forall>k. field_target fs k \<noteq> Some ''_shadow''"
  shows "map_of ev ''_shadow'' = None"
proof -
  obtain ex where "extract_fields j spec raw = Inr ex" using assms(1) by (auto simp: parse_text_event_def result_simps)
  then obtain e u where f: "res_foldl (split_entry (PDict fs)) ([], []) ex = Inr (e, u)" "ev = with_unknowns e u"
    using parse_text_event_Inr [OF assms(1,2)] by blast
  have "''_shadow'' \<notin> dom (map_of e)" using split_entry_fold [OF f(1)] assms(3) by auto
  then show ?thesis by (auto simp: f(2) with_unknowns_def dict_simps domIff)
qed

lemma isolation_check_untagged:
  "list_all (\<lambda>ev. map_of ev ''_shadow'' = None) evs \<Longrightarrow> isolation_check (map PDict evs) = Inr True"
  by (induction evs) (simp_all add: shadow_tagged_def dict_get_def)

section \<open>Properties\<close>

text \<open>
  C3. No production side effects: whatever the two specifications and the events, and also when
  a parser raises in the middle of a run, the downstream bus afterwards holds what it held before
  followed by outputs of the active parser only, for an initial part of the events and, when a
  report is returned, for all of them; without publication it is unchanged.
\<close>

theorem candidate_never_published:
  "\<exists>n evs. res_map (parse_event json_loads active_spec) (take n raws) = Inr evs
    \<and> fst (execute_dual json_loads crit_order perf t0 t1 raws active_spec candidate_spec sid bus enabled)
        = map_option (\<lambda>b. b @ (if enabled then map PDict evs else [])) bus
    \<and> (\<forall>r. snd (execute_dual json_loads crit_order perf t0 t1 raws active_spec candidate_spec sid bus enabled) = Inr r
         \<longrightarrow> n = length raws)"
proof -
  let ?x = "execute_dual json_loads crit_order perf t0 t1 raws active_spec candidate_spec sid bus enabled"
  define ids where "ids = res_bind (parser_identity active_spec (sid @ ''.active'') ''1.0.0'') (\<lambda>a.
      res_bind (parser_identity candidate_spec (sid @ ''.candidate'') ''1.1.0'') (\<lambda>c. Inr (a, c)))"
  show ?thesis
  proof (cases ids)
    case (Inl e)
    then have "?x = (bus, Inl e)" by (simp add: execute_dual_def ids_def)
    then show ?thesis by (intro exI [of _ 0] exI [of _ "[]"]) (simp add: option.map_ident)
  next
    case (Inr ac)
    define st0 where "st0 = \<lparr>ds_bus = bus, ds_active = [], ds_candidate = [], ds_active_lat = [],
      ds_candidate_lat = []\<rparr>"
    obtain st err where l: "dual_loop (parse_event json_loads) perf enabled active_spec candidate_spec
        (snd ac) 0 raws st0 = (st, err)"
      by (metis surj_pair)
    have x: "fst ?x = ds_bus st" "snd ?x = Inr r \<Longrightarrow> err = None" for r
      using Inr l by (cases ac; cases err; simp add: execute_dual_def flip: ids_def st0_def)+
    from dual_loop_outcome [OF l] obtain n evs where
      "res_map (parse_event json_loads active_spec) (take n raws) = Inr evs"
      "ds_bus st = published enabled evs bus" "err = None \<longrightarrow> n = length raws"
      unfolding st0_def by auto
    then show ?thesis using x unfolding published_def by (intro exI [of _ n] exI [of _ evs]) simp
  qed
qed

text \<open>
  The scope guard on lines of text: when no field of the active specification is mapped to
  the shadow tag itself, the events it puts on the bus carry no tag, so every report says that
  isolation was verified.
\<close>

theorem text_runs_isolated:
  assumes "execute_dual json_loads crit_order perf t0 t1 (map PStr lines) active_spec candidate_spec sid bus enabled
      = (bus', Inr r)"
    and "dict_get active_spec ''fields'' (PDict []) = PDict fs" "\<forall>k. field_target fs k \<noteq> Some ''_shadow''"
  shows "sc_downstream_isolation_verified r"
proof -
  obtain evs isol where evs: "res_map (parse_event json_loads active_spec) (map PStr lines) = Inr evs"
    and bus: "bus' = published enabled evs bus"
    and isol: "bus_isolated bus' (case bus of None \<Rightarrow> 0 | Some b \<Rightarrow> length b) = Inr isol"
    and r: "sc_downstream_isolation_verified r = isol"
    using execute_dual_report [OF assms(1)] by (force simp: compare_streams_fields)
  have "list_all2 (\<lambda>x y. parse_event json_loads active_spec x = Inr y) (map PStr lines) evs"
    using evs by (simp add: res_map_Inr_iff)
  then have "list_all (\<lambda>ev. map_of ev ''_shadow'' = None) evs"
    using text_event_no_tag [OF _ assms(2,3)]
    by (fastforce simp: list_all_length list_all2_conv_all_nth parse_event_def)
  then have "isolation_check (map PDict evs) = Inr True" by (rule isolation_check_untagged)
  then show ?thesis using isol r bus
    by (cases bus) (auto simp: bus_isolated_def published_def split: if_splits)
qed

text \<open>
  Parsing a line keeps every extracted field: a field that the specification does not define
  is found with its value among the unknown fields of the event, and for a field that it defines
  the event has the key it is mapped to.
\<close>

theorem text_parse_retains:
  assumes "parse_text_event json_loads spec raw = Inr ev"
    and "dict_get spec ''fields'' (PDict []) = PDict fs"
    and "extract_fields json_loads spec raw = Inr ex" and "(k, v) \<in> set ex"
  shows "(map_of fs k = None \<longrightarrow> (\<exists>u. map_of ev ''unknown_fields'' = Some (PDict u) \<and> map_of u k = Some v))
    \<and> (map_of fs k \<noteq> None \<longrightarrow> (\<exists>t. field_target fs k = Some t \<and> map_of ev t \<noteq> None))"
proof -
  obtain e u where f: "res_foldl (split_entry (PDict fs)) ([], []) ex = Inr (e, u)" "ev = with_unknowns e u"
    using parse_text_event_Inr [OF assms(1,2,3)] .
  note fold = split_entry_fold [OF f(1)]
  have ok: "dict_ok (filter (\<lambda>(k, v). map_of fs k = None) ex)"
    using extract_fields_ok [OF assms(3)] by (simp add: dict_ok_def distinct_map_filter)
  show ?thesis
  proof (intro conjI impI)
    assume "map_of fs k = None"
    with assms(4) have "(k, v) \<in> set (filter (\<lambda>(k, v). map_of fs k = None) ex)" by simp
    then have u: "map_of u k = Some v" using fold dict_ok_rev_map_of [OF ok] dict_ok_map_of [OF ok] by simp
    then have "u \<noteq> []" by auto
    then have "map_of ev ''unknown_fields'' = Some (PDict u)" by (simp add: f(2) with_unknowns_def map_of_update)
    with u show "\<exists>u. map_of ev ''unknown_fields'' = Some (PDict u) \<and> map_of u k = Some v" by blast
  next
    assume known: "map_of fs k \<noteq> None"
    have k: "k \<in> fst ` set ex" using assms(4) by force
    then obtain t where t: "field_target fs k = Some t" using fold known by blast
    then have "t \<in> dom (map_of e)" using fold k by blast
    then have "map_of ev t \<noteq> None" by (auto simp: f(2) with_unknowns_def map_of_update)
    with t show "\<exists>t. field_target fs k = Some t \<and> map_of ev t \<noteq> None" by blast
  qed
qed

section \<open>Witnesses\<close>

definition log_spec :: dict where
  "log_spec = [(''parser'', PDict [(''id'', PStr ''fw''), (''version'', PStr ''2.0.0'')]),
     (''match'', PDict [(''format'', PStr ''json'')]),
     (''fields'', PDict [(''act'', PDict [(''map_to'', PStr ''event.action'')]),
                         (''src'', PDict [(''map_to'', PStr ''src.ip'')])])]"

definition log_lines :: "string list" where
  "log_lines = [''{1}'']"

definition log_json :: "string \<Rightarrow> pyval option" where
  "log_json s = (if s = ''{1}'' then Some (PDict [(''act'', PStr ''deny''), (''src'', PStr ''1.2''), (''x'', PInt 7)])
     else None)"

definition log_fields :: dict where
  "log_fields = [(''act'', PDict [(''map_to'', PStr ''event.action'')]),
     (''src'', PDict [(''map_to'', PStr ''src.ip'')])]"

lemma log_spec_fields: "dict_get log_spec ''fields'' (PDict []) = PDict log_fields"
  by (simp add: dict_get_def log_spec_def log_fields_def)

lemma log_targets: "field_target log_fields k \<noteq> Some ''_shadow''"
  by (simp add: field_target_def log_fields_def dict_get_def)

lemma log_parsed:
  "parse_text_event log_json log_spec (hd log_lines) = Inr [(''event.action'', PStr ''deny''), (''src.ip'', PStr ''1.2''),
     (''unknown_fields'', PDict [(''x'', PInt 7)])]"
  "extract_fields log_json log_spec (hd log_lines) = Inr [(''act'', PStr ''deny''), (''src'', PStr ''1.2''), (''x'', PInt 7)]"
  by code_simp+

theorem text_parse_retains_witness:
  "\<exists>u. map_of [(''event.action'', PStr ''deny''), (''src.ip'', PStr ''1.2''),
       (''unknown_fields'', PDict [(''x'', PInt 7)])] ''unknown_fields'' = Some (PDict u)
     \<and> map_of u ''x'' = Some (PInt 7)"
  using text_parse_retains [OF log_parsed(1) log_spec_fields log_parsed(2), of "''x''" "PInt 7"]
  by (simp add: log_fields_def)

definition log_run :: "pyval list option \<times> ShadowComparisonReport result" where
  "log_run = execute_dual log_json CRITICAL_SECURITY_FIELDS (\<lambda>n. of_nat n / 1024)
     \<lparr>dt_wall = 0, dt_offset = Some 0\<rparr> \<lparr>dt_wall = 5, dt_offset = Some 0\<rparr> (map PStr log_lines)
     log_spec log_spec ''s'' (Some []) True"

lemma log_run_reports:
  "(case snd log_run of Inl e \<Rightarrow> False | Inr r \<Rightarrow> sc_shadow_state r = SH_PASSED)"
  by code_simp

theorem text_runs_isolated_witness:
  "\<exists>r. snd log_run = Inr r \<and> sc_shadow_state r = SH_PASSED \<and> sc_downstream_isolation_verified r"
proof -
  obtain r where r: "snd log_run = Inr r" "sc_shadow_state r = SH_PASSED"
    using log_run_reports by (auto split: sum.splits)
  then have "log_run = (fst log_run, Inr r)" by (metis prod.collapse)
  with text_runs_isolated [OF _ log_spec_fields] log_targets r show ?thesis
    unfolding log_run_def by blast
qed

theorem candidate_never_published_witness:
  "\<exists>n evs. fst log_run = Some (map PDict evs)
     \<and> res_map (parse_event log_json log_spec) (take n (map PStr log_lines)) = Inr evs"
  using candidate_never_published [of log_json log_spec "map PStr log_lines" CRITICAL_SECURITY_FIELDS
      "\<lambda>n. of_nat n / 1024" "\<lparr>dt_wall = 0, dt_offset = Some 0\<rparr>" "\<lparr>dt_wall = 5, dt_offset = Some 0\<rparr>" log_spec
      "''s''" "Some []" True]
  unfolding log_run_def by auto

end
