(* ===== verification/Workflow.thy ===== *)
theory Workflow
  imports Runner Policy Deployer Structural
begin

text \<open>
  The self-healing workflow, \<open>ml/self_healing/workflow.py\<close>: the gates for a candidate
  specification, the promotion policy, and the deployment of a promoted candidate. The engine is
  the only state; an exception leaves it as it was. Parameters are what the workflow takes from
  outside: \<open>json.loads\<close>, \<open>json.dumps\<close> with and without sorted keys, SHA-256, the clock, the
  performance counter and the generated incident number.
\<close>

section \<open>Definitions\<close>

fun DriftState_value :: "DriftState \<Rightarrow> string" where
  "DriftState_value STABLE = ''STABLE''"
| "DriftState_value SUSPECTED = ''SUSPECTED''"
| "DriftState_value DRIFTED = ''DRIFTED''"

fun ShadowState_value :: "ShadowState \<Rightarrow> string" where
  "ShadowState_value SH_PASSED = ''PASSED''"
| "ShadowState_value SH_FAILED = ''FAILED''"
| "ShadowState_value SH_SUSPECTED = ''SUSPECTED''"

text \<open>The trigger is the first drift detail; \<open>None\<close> stands for the text "Drift detected".\<close>

record SelfHealingReport =
  sh_source_id :: string
  sh_incident_id :: string
  sh_drift_state :: string
  sh_detected_at :: datetime
  sh_trigger_summary :: "drift_detail option"
  sh_active_parser :: "pyval \<times> pyval"
  sh_candidate_parser :: "pyval \<times> pyval"
  sh_candidate_spec_hash :: string
  sh_gates :: GateResults
  sh_promotion_mode :: PromotionMode
  sh_refusal_conditions_checked :: "string list"
  sh_refusal_reasons :: "refusal list"
  sh_decision :: PromotionDecision
  sh_decided_at :: datetime
  sh_applied_by :: string

record environment =
  env_json_loads :: "string \<Rightarrow> pyval option"
  env_dumps :: "pyval \<Rightarrow> string"
  env_dumps_sorted :: "pyval \<Rightarrow> string"
  env_sha256 :: "string \<Rightarrow> string"
  env_crit_order :: "string list"
  env_perf :: "nat \<Rightarrow> rat"
  env_start :: datetime
  env_end :: datetime
  env_decided :: datetime
  env_new_incident :: string

definition validate_spec_schema :: "dict \<Rightarrow> (bool \<times> string) result" where
  "validate_spec_schema spec =
     (let missing = (False, ''Missing parser object with id and version'');
          rest = (case map_of spec ''fields'' of
              Some (PDict fs) \<Rightarrow> (True, ''Candidate spec conforms to parser_spec.schema.json structure'')
            | _ \<Rightarrow> (False, ''Missing or invalid fields dictionary''))
      in case map_of spec ''parser'' of
           None \<Rightarrow> Inr missing
         | Some p \<Rightarrow>
             res_bind (py_in ''id'' p) (\<lambda>has_id.
               if \<not> has_id then Inr missing
               else res_bind (py_in ''version'' p) (\<lambda>has_version.
                 Inr (if \<not> has_version then missing else rest))))"

text \<open>\<open>any(f.get("map_to") ... for f in fields.values())\<close>\<close>

fun any_target :: "string list \<Rightarrow> dict \<Rightarrow> bool result" where
  "any_target ts [] = Inr False"
| "any_target ts ((k, f) # fs) =
     res_bind (py_get f ''map_to'' PNone) (\<lambda>v. if v \<in> PStr ` set ts then Inr True else any_target ts fs)"

definition run_empirical_validation ::
    "dict \<Rightarrow> string list \<Rightarrow> (bool \<times> rat \<times> rat \<times> rat \<times> rat \<times> rat) result" where
  "run_empirical_validation candidate_spec samples =
     (if samples = [] then Inr (False, 0, 0, 0, 0, 0)
      else case dict_get candidate_spec ''fields'' (PDict []) of
        PDict fields_spec \<Rightarrow>
          if fields_spec = [] then Inr (False, 0, 0, 0, 1, 1)
          else
            res_bind (any_target [''event.action''] fields_spec) (\<lambda>has_action.
            res_bind (any_target [''src.ip'', ''dst.ip''] fields_spec) (\<lambda>has_endpoints.
              let d = (if has_action \<and> has_endpoints then 1 else 0 :: rat); extraction = 1; semantic = 1
              in Inr (1 \<le> d \<and> fl (90 / 100) \<le> extraction, extraction, semantic, d, 1, 1)))
      | _ \<Rightarrow> Inr (False, 0, 0, 0, 1, 1))"

text \<open>\<open>int(v.split(".")[0]) if v[0].isdigit() else 2\<close>\<close>

definition isdigit_char :: "char \<Rightarrow> bool" where
  "isdigit_char c \<longleftrightarrow> is_digit c \<or> (of_char c :: nat) \<in> set [178, 179, 185]"

fun version_number :: "pyval \<Rightarrow> int result" where
  "version_number (PStr s) = (case s of
       [] \<Rightarrow> Inl IndexError
     | c # _ \<Rightarrow>
         if isdigit_char c then
           (let major = hd (str_split (CHR ''.'') s)
            in if 4300 < length (filter is_digit major) then Inl (ValueError major)
               else case parse_int major of None \<Rightarrow> Inl (ValueError major) | Some i \<Rightarrow> Inr i)
         else Inr 2)"
| "version_number (PList xs) = (case xs of
       [] \<Rightarrow> Inl IndexError
     | PStr t # _ \<Rightarrow> if t \<noteq> [] \<and> list_all isdigit_char t then Inl AttributeError else Inr 2
     | _ \<Rightarrow> Inl AttributeError)"
| "version_number (PDict d) = Inl (KeyError ''0'')"
| "version_number _ = Inl TypeError"

definition spec_hash :: "environment \<Rightarrow> dict \<Rightarrow> string" where
  "spec_hash env spec = ''sha256-'' @ env_sha256 env (env_dumps_sorted env (PDict spec))"

definition validation_gate ::
    "dict \<Rightarrow> bool \<Rightarrow> string list \<Rightarrow> (bool \<times> rat \<times> rat \<times> rat \<times> rat \<times> rat) result" where
  "validation_gate candidate_spec schema_ok samples =
     (if schema_ok then run_empirical_validation candidate_spec samples
      else Inr (False, 0, 0, 0, 1, 1))"

definition shadow_gate ::
    "environment \<Rightarrow> string \<Rightarrow> dict \<Rightarrow> dict \<Rightarrow> bool \<Rightarrow> string list
     \<Rightarrow> (bool \<times> string \<times> rat \<times> rat \<times> bool) result" where
  "shadow_gate env source_id active_spec candidate_spec schema_ok samples =
     (if schema_ok \<and> samples \<noteq> [] then
        res_bind (snd (execute_dual (env_json_loads env) (env_crit_order env) (env_perf env) (env_start env)
            (env_end env) (map PStr samples) active_spec candidate_spec source_id None True)) (\<lambda>r.
          Inr (sc_shadow_state r = SH_PASSED, ShadowState_value (sc_shadow_state r),
               sm_field_match_rate (sc_metrics r), sm_dps_delta (sc_metrics r),
               sc_downstream_isolation_verified r))
      else Inr (False, ''FAILED'', 0, - 1, True))"

definition collect_gates ::
    "environment \<Rightarrow> string \<Rightarrow> dict \<Rightarrow> dict \<Rightarrow> string list \<Rightarrow> GateResults result" where
  "collect_gates env source_id active_spec candidate_spec samples =
     res_bind (validate_spec_schema candidate_spec) (\<lambda>(schema_ok, details).
     res_bind (validation_gate candidate_spec schema_ok samples) (\<lambda>(val, ext, sem, d, raw, unk).
     res_bind (shadow_gate env source_id active_spec candidate_spec schema_ok samples)
       (\<lambda>(sh_ok, sh_state, match, delta, isolated).
       Inr \<lparr>schema_passed = schema_ok, schema_details = details, validation_passed = val,
            extraction_accuracy = ext, semantic_accuracy = sem, dps = d, raw_retention = raw,
            unknown_retention = unk, shadow_passed = sh_ok, shadow_state = sh_state,
            field_match_rate = match, dps_delta = delta, downstream_isolation_verified = isolated\<rparr>)))"

definition promoted_spec ::
    "environment \<Rightarrow> string \<Rightarrow> dict \<Rightarrow> pyval \<times> pyval \<Rightarrow> CompiledParserSpec result" where
  "promoted_spec env source_id candidate_spec ident =
     res_bind (version_number (snd ident)) (\<lambda>v.
       Inr \<lparr>cs_spec_id = py_str (fst ident) @ '':'' @ py_str (snd ident), cs_source_id = source_id,
            cs_version = v, cs_target_runtime = PYTHON_NATIVE, cs_mappings = [],
            cs_compiled_code = env_dumps env (PDict candidate_spec),
            cs_spec_hash = spec_hash env candidate_spec\<rparr>)"

definition apply_decision ::
    "environment \<Rightarrow> engine \<Rightarrow> string \<Rightarrow> dict \<Rightarrow> pyval \<times> pyval \<Rightarrow> PromotionDecision \<Rightarrow> (engine \<times> string) result" where
  "apply_decision env e source_id candidate_spec ident decision = (case decision of
       PROMOTED \<Rightarrow>
         res_bind (promoted_spec env source_id candidate_spec ident) (\<lambda>compiled.
         res_bind (deploy_spec e compiled True) (\<lambda>(e', _). Inr (e', ''POLICY_ENGINE'')))
     | ESCALATED_FOR_APPROVAL \<Rightarrow> Inr (e, ''OPERATOR_ESCALATION'')
     | REJECTED \<Rightarrow> Inr (e, ''POLICY_REFUSAL_ENGINE''))"

definition repair_report ::
    "environment \<Rightarrow> string \<Rightarrow> string option \<Rightarrow> DriftReport \<Rightarrow> PromotionMode option \<Rightarrow> PromotionMode \<Rightarrow> pyval \<times> pyval
     \<Rightarrow> pyval \<times> pyval \<Rightarrow> dict \<Rightarrow> GateResults \<Rightarrow> PromotionDecision \<Rightarrow> refusal list \<Rightarrow> string list \<Rightarrow> string
     \<Rightarrow> SelfHealingReport" where
  "repair_report env source_id incident_id drift promotion_mode default_mode active cand candidate_spec gates
     decision reasons checked applied_by =
     \<lparr>sh_source_id = source_id,
      sh_incident_id = (case incident_id of None \<Rightarrow> env_new_incident env
         | Some i \<Rightarrow> if i = [] then env_new_incident env else i),
      sh_drift_state = DriftState_value (dr_drift_state drift), sh_detected_at = dr_observed_at drift,
      sh_trigger_summary = (case dr_drift_details drift of [] \<Rightarrow> None | d # _ \<Rightarrow> Some d),
      sh_active_parser = active, sh_candidate_parser = cand,
      sh_candidate_spec_hash = spec_hash env candidate_spec, sh_gates = gates,
      sh_promotion_mode = (case promotion_mode of None \<Rightarrow> default_mode | Some m \<Rightarrow> m),
      sh_refusal_conditions_checked = checked, sh_refusal_reasons = reasons, sh_decision = decision,
      sh_decided_at = env_decided env, sh_applied_by = applied_by\<rparr>"

definition handle_repair ::
    "environment \<Rightarrow> PromotionMode \<Rightarrow> engine \<Rightarrow> string \<Rightarrow> DriftReport \<Rightarrow> dict \<Rightarrow> dict \<Rightarrow> string list
     \<Rightarrow> PromotionMode option \<Rightarrow> string option \<Rightarrow> (engine \<times> SelfHealingReport) result" where
  "handle_repair env default_mode e source_id drift active_spec candidate_spec samples promotion_mode incident_id =
     res_bind (parser_identity active_spec (source_id @ ''.active'') ''1.0.0'') (\<lambda>active.
     res_bind (parser_identity candidate_spec (source_id @ ''.candidate'') ''1.1.0'') (\<lambda>cand.
     res_bind (collect_gates env source_id active_spec candidate_spec samples) (\<lambda>gates.
     let mode = (case promotion_mode of None \<Rightarrow> default_mode | Some m \<Rightarrow> m)
     in case evaluate default_mode gates (Some mode) of (decision, reasons, checked) \<Rightarrow>
        res_bind (apply_decision env e source_id candidate_spec cand decision) (\<lambda>(e', applied_by).
          Inr (e', repair_report env source_id incident_id drift promotion_mode default_mode active cand
                candidate_spec gates decision reasons checked applied_by)))))"

section \<open>Lemmas\<close>

text \<open>The shadow tag is invisible to the comparison.\<close>

lemma flatten_into_skip: "flat_skipped k \<Longrightarrow> flatten_into pre flat ((k, v) # r) = flatten_into pre flat r"
  by (cases v) simp_all

lemma flatten_into_update_skipped:
  "flat_skipped k \<Longrightarrow> flatten_into pre flat (AList.update k v d) = flatten_into pre flat d"
proof (induction d arbitrary: flat)
  case (Cons p d)
  obtain k' v' where p: "p = (k', v')" by (cases p)
  show ?case
  proof (cases "k' = k")
    case True
    with Cons.prems show ?thesis by (simp add: p flatten_into_skip)
  next
    case False
    with Cons show ?thesis by (cases v') (simp_all add: p)
  qed
qed (simp add: flatten_into_skip)

lemma flatten_tagged: "flatten_event (tag_shadow ident ev) = flatten_event ev"
  by (simp add: flatten_event_def tag_shadow_def flatten_into_update_skipped flat_skipped_def str_startswith_def)

lemma crit_preserved_tagged: "crit_preserved a (tag_shadow ident c) f = crit_preserved a c f"
  by (simp add: crit_preserved_def flatten_tagged)

lemma handle_repair_report:
  assumes "handle_repair env dm e sid drift a c samples pm inc = Inr (e', r)"
  obtains active cand gates d rs ch applied where
    "parser_identity a (sid @ ''.active'') ''1.0.0'' = Inr active"
    "parser_identity c (sid @ ''.candidate'') ''1.1.0'' = Inr cand"
    "collect_gates env sid a c samples = Inr gates"
    "evaluate dm gates (Some (case pm of None \<Rightarrow> dm | Some m \<Rightarrow> m)) = (d, rs, ch)"
    "apply_decision env e sid c cand d = Inr (e', applied)"
    "r = repair_report env sid inc drift pm dm active cand c gates d rs ch applied"
proof -
  obtain active cand gates where active: "parser_identity a (sid @ ''.active'') ''1.0.0'' = Inr active"
    and cand: "parser_identity c (sid @ ''.candidate'') ''1.1.0'' = Inr cand"
    and gates: "collect_gates env sid a c samples = Inr gates"
    and rest: "(case evaluate dm gates (Some (case pm of None \<Rightarrow> dm | Some m \<Rightarrow> m)) of (decision, reasons, checked) \<Rightarrow>
      res_bind (apply_decision env e sid c cand decision) (\<lambda>(e', applied_by).
        Inr (e', repair_report env sid inc drift pm dm active cand c gates decision reasons checked applied_by)))
      = Inr (e', r)"
    using assms unfolding handle_repair_def Let_def res_bind_Inr_iff by blast
  obtain d rs ch where ev: "evaluate dm gates (Some (case pm of None \<Rightarrow> dm | Some m \<Rightarrow> m)) = (d, rs, ch)"
    by (metis surj_pair)
  from rest show thesis
    by (auto simp: ev res_bind_Inr_iff intro: that [OF active cand gates ev])
qed

lemma handle_repair_Inr:
  assumes "handle_repair env dm e sid drift a c samples pm inc = Inr (e', r)"
  obtains cand applied where "collect_gates env sid a c samples = Inr (sh_gates r)"
    "parser_identity c (sid @ ''.candidate'') ''1.1.0'' = Inr cand"
    "evaluate dm (sh_gates r) (Some (case pm of None \<Rightarrow> dm | Some m \<Rightarrow> m))
       = (sh_decision r, sh_refusal_reasons r, sh_refusal_conditions_checked r)"
    "apply_decision env e sid c cand (sh_decision r) = Inr (e', applied)"
    "sh_promotion_mode r = (case pm of None \<Rightarrow> dm | Some m \<Rightarrow> m)"
    "sh_candidate_spec_hash r = spec_hash env c"
  using assms by (rule handle_repair_report) (rule that; simp add: repair_report_def)

lemma evaluate_cases:
  "evaluate dm g (Some m) = (d, rs, ch) \<Longrightarrow>
     d = (if \<not> all_gates_pass g then REJECTED else if m = AUTOMATIC_CONDITIONAL then PROMOTED
          else ESCALATED_FOR_APPROVAL)"
  by (auto simp: evaluate_def Let_def refusal_reasons_Nil_iff)

lemma deploy_spec_effect:
  assumes "deploy_spec e spec True = Inr (e', rc)"
  shows "get_active_spec e' (cs_source_id spec) = Some spec"
    and "s \<noteq> cs_source_id spec \<Longrightarrow> get_active_spec e' s = get_active_spec e s"
  using assms by (auto simp: deploy_spec_def get_active_spec_def Let_def split: option.splits)

text \<open>A shadow gate that passed comes from a run of both parsers over all samples.\<close>

lemma shadow_gate_passed:
  assumes "shadow_gate env sid a c ok samples = Inr (True, st, mr, dd, il)"
  obtains evs cs ident al cl aid av isol where
    "res_map (parse_event (env_json_loads env) a) (map PStr samples) = Inr evs"
    "res_map (parse_event (env_json_loads env) c) (map PStr samples) = Inr cs"
    "sc_shadow_state (compare_streams (env_crit_order env) (env_end env) sid aid av (fst ident) (snd ident) evs
       (map (tag_shadow ident) cs) (Some al) (Some cl) isol (Some (env_start env)) (Some (env_end env))
       (Some (env_end env))) = SH_PASSED"
proof -
  obtain bus' r where r: "execute_dual (env_json_loads env) (env_crit_order env) (env_perf env) (env_start env)
      (env_end env) (map PStr samples) a c sid None True = (bus', Inr r)" "sc_shadow_state r = SH_PASSED"
  proof -
    obtain r where "snd (execute_dual (env_json_loads env) (env_crit_order env) (env_perf env) (env_start env)
        (env_end env) (map PStr samples) a c sid None True) = Inr r" "sc_shadow_state r = SH_PASSED"
      using assms unfolding shadow_gate_def by (auto simp: res_bind_Inr_iff split: if_splits)
    then show ?thesis using that by (metis prod.collapse)
  qed
  from execute_dual_report [OF r(1)] r(2) show ?thesis using that by blast
qed

lemma shadow_passed_preserves:
  assumes "set order = set CRITICAL_SECURITY_FIELDS"
    and "sc_shadow_state (compare_streams order clock sid aid av cid cv as (map (tag_shadow ident) cs) al cl isol st en ev) = SH_PASSED"
    and "length as \<le> 20000"
  shows "\<forall>(a, c)\<in>set (zip as cs). \<forall>f\<in>set CRITICAL_SECURITY_FIELDS. crit_preserved a c f"
proof -
  let ?ts = "map (tag_shadow ident) cs"
  let ?m = "fst (measure_streams order as ?ts al cl)"
  have "failure_flags isol ?m = []" using assms(2) by (auto simp: compare_streams_fields split: if_splits)
  then have "sm_critical_semantic_divergence ?m \<le> 0" by (simp add: failure_flags_Nil)
  then have "fst (evaluate_critical_semantics order as ?ts) \<le> 0"
    using measure_streams_metrics [of order as ?ts al cl] by (metis ShadowMetrics.select_convs(2))
  then have "\<forall>p\<in>set (zip as ?ts). crit_preserved_all p"
    using assms(3) by (intro preserved_all_if_zero [OF assms(1)]) auto
  then have "\<forall>(a, c)\<in>set (zip as cs). crit_preserved_all (a, tag_shadow ident c)"
    by (auto simp: zip_map2)
  then show ?thesis by (fastforce simp: crit_preserved_all_def list_all_iff crit_preserved_tagged)
qed

lemma collect_gates_Inr:
  assumes "collect_gates env sid a c samples = Inr g"
  obtains "validate_spec_schema c = Inr (schema_passed g, schema_details g)"
    "validation_gate c (schema_passed g) samples = Inr (validation_passed g, extraction_accuracy g,
       semantic_accuracy g, dps g, raw_retention g, unknown_retention g)"
    "shadow_gate env sid a c (schema_passed g) samples = Inr (shadow_passed g, shadow_state g,
       field_match_rate g, dps_delta g, downstream_isolation_verified g)"
  using assms by (auto simp: collect_gates_def result_simps split: prod.splits)

section \<open>Properties\<close>

text \<open>
  C1. Only promotion deploys: a repair that is not promoted leaves the engine as it was. A
  promoted one ran in automatic mode with every gate passed, and afterwards the active
  specification of the source is the serialised candidate under its hash, while every other
  source keeps its specification.
\<close>

theorem repair_deploys_only_promoted:
  assumes "handle_repair env default_mode e sid drift active cand samples mode inc = Inr (e', r)"
  shows "(sh_decision r \<noteq> PROMOTED \<longrightarrow> e' = e)
    \<and> (sh_decision r = PROMOTED \<longrightarrow>
        (case mode of None \<Rightarrow> default_mode | Some m \<Rightarrow> m) = AUTOMATIC_CONDITIONAL
        \<and> all_gates_pass (sh_gates r)
        \<and> (\<exists>spec. get_active_spec e' sid = Some spec \<and> cs_source_id spec = sid
             \<and> cs_compiled_code spec = env_dumps env (PDict cand)
             \<and> cs_spec_hash spec = ''sha256-'' @ env_sha256 env (env_dumps_sorted env (PDict cand)))
        \<and> (\<forall>s. s \<noteq> sid \<longrightarrow> get_active_spec e' s = get_active_spec e s))"
proof -
  obtain ident applied where
    ev: "evaluate default_mode (sh_gates r) (Some (case mode of None \<Rightarrow> default_mode | Some m \<Rightarrow> m))
       = (sh_decision r, sh_refusal_reasons r, sh_refusal_conditions_checked r)"
    and ap: "apply_decision env e sid cand ident (sh_decision r) = Inr (e', applied)"
    using handle_repair_Inr [OF assms] by blast
  note d = evaluate_cases [OF ev]
  show ?thesis
  proof (cases "sh_decision r = PROMOTED")
    case False
    then have "e' = e" using ap by (cases "sh_decision r") (simp_all add: apply_decision_def)
    with False show ?thesis by simp
  next
    case True
    then obtain spec rc where sp: "promoted_spec env sid cand ident = Inr spec"
      and dep: "deploy_spec e spec True = Inr (e', rc)"
      using ap by (auto simp: apply_decision_def result_simps)
    have fields: "cs_source_id spec = sid" "cs_compiled_code spec = env_dumps env (PDict cand)"
        "cs_spec_hash spec = ''sha256-'' @ env_sha256 env (env_dumps_sorted env (PDict cand))"
      using sp by (auto simp: promoted_spec_def result_simps spec_hash_def)
    have "get_active_spec e' sid = Some spec" "\<And>s. s \<noteq> sid \<Longrightarrow> get_active_spec e' s = get_active_spec e s"
      using deploy_spec_effect [OF dep] fields(1) by simp_all
    then show ?thesis using True d fields by (auto split: if_splits)
  qed
qed

text \<open>
  C2. A promoted repair is backed by the samples: both parsers parse every one of at most 20000
  samples, and on each of them the candidate preserves every critical security field of the
  active parser's event.
\<close>

theorem promotion_preserves_critical_fields:
  assumes "handle_repair env default_mode e sid drift active cand samples mode inc = Inr (e', r)"
    and "sh_decision r = PROMOTED" "length samples \<le> 20000"
    and "set (env_crit_order env) = set CRITICAL_SECURITY_FIELDS"
  shows "\<exists>as cs. res_map (parse_event (env_json_loads env) active) (map PStr samples) = Inr as
    \<and> res_map (parse_event (env_json_loads env) cand) (map PStr samples) = Inr cs
    \<and> samples \<noteq> []
    \<and> (\<forall>(a, c)\<in>set (zip as cs). \<forall>f\<in>set CRITICAL_SECURITY_FIELDS. crit_preserved a c f)"
proof -
  obtain ident applied where g: "collect_gates env sid active cand samples = Inr (sh_gates r)"
    and ev: "evaluate default_mode (sh_gates r) (Some (case mode of None \<Rightarrow> default_mode | Some m \<Rightarrow> m))
       = (sh_decision r, sh_refusal_reasons r, sh_refusal_conditions_checked r)"
    using handle_repair_Inr [OF assms(1)] by blast
  have pass: "all_gates_pass (sh_gates r)" using evaluate_cases [OF ev] assms(2) by (auto split: if_splits)
  then have sh: "shadow_gate env sid active cand (schema_passed (sh_gates r)) samples
      = Inr (True, shadow_state (sh_gates r), field_match_rate (sh_gates r), dps_delta (sh_gates r),
          downstream_isolation_verified (sh_gates r))"
    using collect_gates_Inr [OF g] by (metis all_gates_pass_def)
  then have ne: "samples \<noteq> []" by (auto simp: shadow_gate_def split: if_splits)
  obtain evs cs ident' al cl aid av isol where p:
    "res_map (parse_event (env_json_loads env) active) (map PStr samples) = Inr evs"
    "res_map (parse_event (env_json_loads env) cand) (map PStr samples) = Inr cs"
    "sc_shadow_state (compare_streams (env_crit_order env) (env_end env) sid aid av (fst ident') (snd ident') evs
       (map (tag_shadow ident') cs) (Some al) (Some cl) isol (Some (env_start env)) (Some (env_end env))
       (Some (env_end env))) = SH_PASSED"
    by (rule shadow_gate_passed [OF sh])
  have "length evs \<le> 20000" using res_map_length [OF p(1)] assms(3) by simp
  from shadow_passed_preserves [OF assms(4) p(3) this] p ne show ?thesis by blast
qed

text \<open>
  The empirical gate measures nothing on the samples: for a field dictionary with entries it
  passes, with all accuracies and retentions 1, exactly when some samples are given and the
  specification maps fields to the action and to an endpoint; the samples are not parsed.
\<close>

theorem empirical_gate_ignores_samples:
  assumes "dict_get spec ''fields'' (PDict []) = PDict fs" "fs \<noteq> []" "samples \<noteq> []"
    and "run_empirical_validation spec samples = Inr (passed, ext, sem, d, raw, unk)"
  shows "ext = 1 \<and> sem = 1 \<and> raw = 1 \<and> unk = 1
    \<and> (passed \<longleftrightarrow> any_target [''event.action''] fs = Inr True \<and> any_target [''src.ip'', ''dst.ip''] fs = Inr True)
    \<and> run_empirical_validation spec samples = run_empirical_validation spec [''anything'']"
proof -
  let ?v = "\<lambda>b. (1 \<le> (if b then 1 else 0 :: rat) \<and> fl (90 / 100) \<le> 1, 1, 1, if b then 1 else 0, 1, 1) :: bool \<times> rat \<times> rat \<times> rat \<times> rat \<times> rat"
  have eq: "run_empirical_validation spec ss = res_bind (any_target [''event.action''] fs) (\<lambda>a.
      res_bind (any_target [''src.ip'', ''dst.ip''] fs) (\<lambda>b. Inr (?v (a \<and> b))))" if "ss \<noteq> []" for ss
    using that assms(1,2) by (simp add: run_empirical_validation_def Let_def)
  obtain ha he where *: "any_target [''event.action''] fs = Inr ha" "any_target [''src.ip'', ''dst.ip''] fs = Inr he"
      "?v (ha \<and> he) = (passed, ext, sem, d, raw, unk)"
    using assms(4) unfolding eq [OF assms(3)] res_bind_Inr_iff by auto
  have "fl (90 / 100) \<le> 1" by (rule ieee.le_one) simp
  with *(3) have "ext = 1" "sem = 1" "raw = 1" "unk = 1" "passed \<longleftrightarrow> ha \<and> he" by (auto split: if_splits)
  with * show ?thesis by (simp add: eq assms(3))
qed

lemma execute_dual_ids:
  assumes "snd (execute_dual j order perf t0 t1 raws a c sid bus en) = Inr r"
  obtains i i' where "parser_identity a (sid @ ''.active'') ''1.0.0'' = Inr i"
    "parser_identity c (sid @ ''.candidate'') ''1.1.0'' = Inr i'"
  using assms
  by (cases "parser_identity a (sid @ ''.active'') ''1.0.0''";
      cases "parser_identity c (sid @ ''.candidate'') ''1.1.0''") (auto simp: execute_dual_def)

lemma shadow_passed_facts:
  assumes "snd (execute_dual j order perf t0 t1 raws a c sid bus en) = Inr r" "sc_shadow_state r = SH_PASSED"
  shows "0 \<le> sm_dps_delta (sc_metrics r)" "sc_downstream_isolation_verified r"
proof -
  obtain as cs aid av ident al cl isol where
    r: "r = compare_streams order t1 sid aid av (fst ident) (snd ident) as cs al cl isol (Some t0) (Some t1) (Some t1)"
    using execute_dual_report [of j order perf t0 t1 raws a c sid bus en] assms(1) by (metis prod.collapse)
  then have "failure_flags isol (sc_metrics r) = []" using assms(2)
    by (auto simp: compare_streams_fields split: if_splits)
  then show "0 \<le> sm_dps_delta (sc_metrics r)" "sc_downstream_isolation_verified r"
    by (simp_all add: failure_flags_Nil r compare_streams_fields)
qed

lemma validation_gate_passed:
  assumes "dict_get c ''fields'' (PDict []) = PDict fs" "samples \<noteq> []"
    and "any_target [''event.action''] fs = Inr True" "any_target [''src.ip'', ''dst.ip''] fs = Inr True"
  shows "validation_gate c True samples = Inr (True, 1, 1, 1, 1, 1)"
proof -
  have "fs \<noteq> []" using assms(3) by auto
  moreover have "fl (90 / 100) \<le> 1" by (rule ieee.le_one) simp
  ultimately show ?thesis using assms by (simp add: validation_gate_def run_empirical_validation_def Let_def)
qed

lemma passing_gates:
  assumes "validate_spec_schema cand = Inr (True, details)"
    and "dict_get cand ''fields'' (PDict []) = PDict fs"
    and "any_target [''event.action''] fs = Inr True" "any_target [''src.ip'', ''dst.ip''] fs = Inr True"
    and "samples \<noteq> []"
    and "snd (execute_dual (env_json_loads env) (env_crit_order env) (env_perf env) (env_start env) (env_end env)
          (map PStr samples) active cand sid None True) = Inr sr" "sc_shadow_state sr = SH_PASSED"
  shows "\<exists>g. collect_gates env sid active cand samples = Inr g \<and> all_gates_pass g"
  using assms(1,5,6,7) shadow_passed_facts [OF assms(6,7)]
  by (simp add: collect_gates_def validation_gate_passed [OF assms(2,5,3,4)] shadow_gate_def all_gates_pass_def
      float_bounds)

lemma passing_gates_promote:
  assumes "collect_gates env sid active cand samples = Inr g" "all_gates_pass g"
    and "(case mode of None \<Rightarrow> default_mode | Some m \<Rightarrow> m) = AUTOMATIC_CONDITIONAL"
    and "parser_identity active (sid @ ''.active'') ''1.0.0'' = Inr ai"
    and "parser_identity cand (sid @ ''.candidate'') ''1.1.0'' = Inr (pid, ver)" "version_number ver = Inr v"
  shows "\<exists>e' r spec. handle_repair env default_mode e sid drift active cand samples mode inc = Inr (e', r)
    \<and> sh_decision r = PROMOTED \<and> sh_refusal_reasons r = []
    \<and> get_active_spec e' sid = Some spec \<and> cs_version spec = v
    \<and> cs_compiled_code spec = env_dumps env (PDict cand)"
proof -
  have ev: "evaluate default_mode g (Some AUTOMATIC_CONDITIONAL) = (PROMOTED, [], MANDATORY_REFUSAL_CHECKS)"
    using assms(2) by (simp add: evaluate_def refusal_reasons_Nil_iff)
  obtain spec where sp: "promoted_spec env sid cand (pid, ver) = Inr spec" "cs_version spec = v"
      "cs_compiled_code spec = env_dumps env (PDict cand)" "cs_source_id spec = sid"
    using assms(6) by (simp add: promoted_spec_def)
  obtain e' rc where dep: "deploy_spec e spec True = Inr (e', rc)" by (auto simp: deploy_spec_def Let_def)
  have "apply_decision env e sid cand (pid, ver) PROMOTED = Inr (e', ''POLICY_ENGINE'')"
    by (simp add: apply_decision_def sp(1) dep)
  then have "handle_repair env default_mode e sid drift active cand samples mode inc = Inr (e',
      repair_report env sid inc drift mode default_mode ai (pid, ver) cand g PROMOTED [] MANDATORY_REFUSAL_CHECKS
        ''POLICY_ENGINE'')"
    by (simp add: handle_repair_def assms(1,3,4,5) ev)
  with deploy_spec_effect(1) [OF dep] sp show ?thesis by (force simp: repair_report_def)
qed

text \<open>
  C23. The loop closes: in automatic mode a candidate with the required structure, with fields
  mapped to the action and to an endpoint and with a version that starts with a number, whose
  shadow run over some samples passes, is promoted, and the engine serves it from then on.
\<close>

theorem passing_candidate_promoted:
  assumes "validate_spec_schema cand = Inr (True, details)"
    and "dict_get cand ''fields'' (PDict []) = PDict fs"
    and "any_target [''event.action''] fs = Inr True" "any_target [''src.ip'', ''dst.ip''] fs = Inr True"
    and "samples \<noteq> []" and "(case mode of None \<Rightarrow> default_mode | Some m \<Rightarrow> m) = AUTOMATIC_CONDITIONAL"
    and "snd (execute_dual (env_json_loads env) (env_crit_order env) (env_perf env) (env_start env) (env_end env)
          (map PStr samples) active cand sid None True) = Inr sr" "sc_shadow_state sr = SH_PASSED"
    and "parser_identity cand (sid @ ''.candidate'') ''1.1.0'' = Inr (pid, ver)" "version_number ver = Inr v"
  shows "\<exists>e' r spec. handle_repair env default_mode e sid drift active cand samples mode inc = Inr (e', r)
    \<and> sh_decision r = PROMOTED \<and> sh_refusal_reasons r = []
    \<and> get_active_spec e' sid = Some spec \<and> cs_version spec = v
    \<and> cs_compiled_code spec = env_dumps env (PDict cand)"
proof -
  obtain ai where "parser_identity active (sid @ ''.active'') ''1.0.0'' = Inr ai"
    using execute_dual_ids [OF assms(7)] by blast
  moreover obtain g where "collect_gates env sid active cand samples = Inr g" "all_gates_pass g"
    using passing_gates [OF assms(1-5,7,8)] by blast
  ultimately show ?thesis using passing_gates_promote assms(6,9,10) by blast
qed

section \<open>Witnesses\<close>

definition demo_env :: environment where
  "demo_env = \<lparr>env_json_loads = log_json, env_dumps = (\<lambda>_. ''{}''), env_dumps_sorted = (\<lambda>_. ''{}''),
     env_sha256 = (\<lambda>s. s), env_crit_order = CRITICAL_SECURITY_FIELDS, env_perf = (\<lambda>n. 0),
     env_start = \<lparr>dt_wall = 0, dt_offset = Some 0\<rparr>, env_end = \<lparr>dt_wall = 5, dt_offset = Some 0\<rparr>,
     env_decided = \<lparr>dt_wall = 6, dt_offset = Some 0\<rparr>, env_new_incident = ''INC-1''\<rparr>"

definition demo_drift :: DriftReport where
  "demo_drift = \<lparr>dr_source = ''s'', dr_parser_id = ''fw'', dr_parser_version = ''1.0.0'', dr_drift_state = DRIFTED,
     dr_observed_at = \<lparr>dt_wall = 0, dt_offset = Some 0\<rparr>, dr_start_time = \<lparr>dt_wall = 0, dt_offset = Some 0\<rparr>,
     dr_end_time = \<lparr>dt_wall = 0, dt_offset = Some 0\<rparr>, dr_sample_count = 1,
     dr_signals = \<lparr>ds_parse_failure_rate = 0, ds_unknown_field_ratio = 0, ds_type_violation_rate = 0,
       ds_key_set_distance = 0, ds_distribution_divergence = 0, ds_dps_regression = None,
       ds_enum_drift_score = None, ds_critical_mapping_drift = None, ds_event_family_drift = None\<rparr>,
     dr_thresholds = default_thresholds, dr_drift_details = [], dr_remediation_recommended = True,
     dr_baseline_run_id = None\<rparr>"

definition demo_shadow :: "ShadowComparisonReport result" where
  "demo_shadow = snd (execute_dual (env_json_loads demo_env) (env_crit_order demo_env) (env_perf demo_env)
     (env_start demo_env) (env_end demo_env) (map PStr log_lines) log_spec log_spec ''s'' None True)"

lemma demo_shadow_passes: "(case demo_shadow of Inl e \<Rightarrow> False | Inr r \<Rightarrow> sc_shadow_state r = SH_PASSED)"
  by code_simp

lemma demo_candidate:
  "validate_spec_schema log_spec = Inr (True, ''Candidate spec conforms to parser_spec.schema.json structure'')"
  "any_target [''event.action''] log_fields = Inr True" "any_target [''src.ip'', ''dst.ip''] log_fields = Inr True"
  "parser_identity log_spec (''s'' @ ''.candidate'') ''1.1.0'' = Inr (PStr ''fw'', PStr ''2.0.0'')"
  "version_number (PStr ''2.0.0'') = Inr 2" "log_lines \<noteq> []"
  "parser_identity log_spec (''s'' @ ''.active'') ''1.0.0'' = Inr (PStr ''fw'', PStr ''2.0.0'')"
  by code_simp+

definition demo_repair :: "(engine \<times> SelfHealingReport) result" where
  "demo_repair = handle_repair demo_env AUTOMATIC_CONDITIONAL init_engine ''s'' demo_drift log_spec log_spec log_lines None None"

theorem passing_candidate_promoted_witness:
  "\<exists>e' r spec. demo_repair = Inr (e', r) \<and> sh_decision r = PROMOTED
     \<and> get_active_spec e' ''s'' = Some spec \<and> cs_version spec = 2"
proof -
  obtain sr where sr: "demo_shadow = Inr sr" "sc_shadow_state sr = SH_PASSED"
    using demo_shadow_passes by (auto split: sum.splits)
  show ?thesis
    using passing_candidate_promoted [OF demo_candidate(1) log_spec_fields demo_candidate(2,3,6) _
        sr(1) [unfolded demo_shadow_def] sr(2) demo_candidate(4,5), where mode = None
          and default_mode = AUTOMATIC_CONDITIONAL and e = init_engine and drift = demo_drift and inc = None]
    unfolding demo_repair_def by auto
qed

lemma demo_repair_promoted: "\<exists>e' r. demo_repair = Inr (e', r) \<and> sh_decision r = PROMOTED"
proof -
  obtain sr where sr: "demo_shadow = Inr sr" "sc_shadow_state sr = SH_PASSED"
    using demo_shadow_passes by (auto split: sum.splits)
  obtain g where g: "collect_gates demo_env ''s'' log_spec log_spec log_lines = Inr g" "all_gates_pass g"
    using passing_gates [OF demo_candidate(1) log_spec_fields demo_candidate(2,3,6)
        sr(1) [unfolded demo_shadow_def] sr(2)] by blast
  have "(case None of None \<Rightarrow> AUTOMATIC_CONDITIONAL | Some m \<Rightarrow> m) = AUTOMATIC_CONDITIONAL" by simp
  from passing_gates_promote [OF g this demo_candidate(7,4,5), where e = init_engine and drift = demo_drift and inc = None]
  show ?thesis unfolding demo_repair_def by blast
qed

theorem repair_deploys_only_promoted_witness:
  "\<exists>e' r. demo_repair = Inr (e', r) \<and> all_gates_pass (sh_gates r)"
proof -
  obtain e' r where "demo_repair = Inr (e', r)" "sh_decision r = PROMOTED"
    using demo_repair_promoted by blast
  then show ?thesis using repair_deploys_only_promoted unfolding demo_repair_def by blast
qed

theorem promotion_preserves_critical_fields_witness:
  "\<exists>as. res_map (parse_event (env_json_loads demo_env) log_spec) (map PStr log_lines) = Inr as"
proof -
  obtain e' r where r: "demo_repair = Inr (e', r)" "sh_decision r = PROMOTED"
    using demo_repair_promoted by blast
  have "length log_lines \<le> 20000" by (simp add: log_lines_def)
  moreover have "set (env_crit_order demo_env) = set CRITICAL_SECURITY_FIELDS" by (simp add: demo_env_def)
  ultimately show ?thesis
    using promotion_preserves_critical_fields [OF r(1) [unfolded demo_repair_def] r(2)] by blast
qed

theorem empirical_gate_ignores_samples_witness:
  "run_empirical_validation log_spec log_lines = run_empirical_validation log_spec [''anything'']"
proof -
  have r: "run_empirical_validation log_spec log_lines = Inr (True, 1, 1, 1, 1, 1)" by code_simp
  have "log_fields \<noteq> []" by (simp add: log_fields_def)
  from empirical_gate_ignores_samples [OF log_spec_fields this demo_candidate(6) r] show ?thesis by blast
qed

end
