(* ===== verification/PyConv.thy ===== *)
theory PyConv
  imports PyStr PyTime TypeInfer
begin

text \<open>
  Conversions of values as the validator uses them: \<open>int(v)\<close>, \<open>float(v)\<close>, and
  \<open>datetime.strptime\<close> for the five timestamp formats of the source, in the C locale, followed by
  the conversion to UTC and \<open>strftime\<close>. The text of a number may carry white space around it,
  underscores between digits, and the names of the infinities and of NaN.
\<close>

section \<open>Numbers\<close>

definition int_of_text :: "string \<Rightarrow> int result" where
  "int_of_text s = (if 4300 < length (filter is_digit s) then Inl (ValueError s)
     else case parse_int s of None \<Rightarrow> Inl (ValueError s) | Some i \<Rightarrow> Inr i)"

fun py_int :: "pyval \<Rightarrow> int result" where
  "py_int (PStr s) = int_of_text s"
| "py_int (PInt i) = Inr i"
| "py_int (PBool b) = Inr (if b then 1 else 0)"
| "py_int (PFloat x) = Inr (if 0 \<le> x then \<lfloor>x\<rfloor> else \<lceil>x\<rceil>)"
| "py_int (PNonFinite f) = (if f = NaN then Inl (ValueError ''cannot convert float NaN to integer'') else Inl OverflowError)"
| "py_int _ = Inl TypeError"

text \<open>Digits with single underscores between them.\<close>

definition digit_run :: re where
  "digit_run = Seq (plus digit) (many (Seq (chr_is (CHR ''_'')) (plus digit)))"

definition float_syntax :: re where
  "float_syntax = seq [Opt True (Cls (in_str ''+-'')),
     Alt (seq [digit_run, Opt True (Seq (chr_is (CHR ''.'')) (Opt True digit_run))])
         (seq [chr_is (CHR ''.''), digit_run]),
     Opt True (seq [Cls (in_str ''eE''), Opt True (Cls (in_str ''+-'')), digit_run])]"

definition float_of_text :: "string \<Rightarrow> pyval result" where
  "float_of_text text =
     (let s = str_strip text; l = str_lower s;
          body = (if str_startswith l ''-'' \<or> str_startswith l ''+'' then tl l else l)
      in if body = ''inf'' \<or> body = ''infinity'' then
           Inr (PNonFinite (if str_startswith l ''-'' then NegInf else PosInf))
         else if body = ''nan'' then Inr (PNonFinite NaN)
         else if re_fullmatch float_syntax s then Inr (parse_float (filter (\<lambda>c. c \<noteq> CHR ''_'') s))
         else Inl (ValueError text))"

fun py_float_any :: "pyval \<Rightarrow> pyval result" where
  "py_float_any (PStr s) = float_of_text s"
| "py_float_any (PInt i) = (if 2 ^ 1024 - 2 ^ 970 \<le> \<bar>i\<bar> then Inl OverflowError else Inr (PFloat (fl (of_int i))))"
| "py_float_any (PBool b) = Inr (PFloat (if b then 1 else 0))"
| "py_float_any (PFloat x) = Inr (PFloat x)"
| "py_float_any (PNonFinite f) = Inr (PNonFinite f)"
| "py_float_any _ = Inl TypeError"

section \<open>Timestamps\<close>

definition range_digit :: "nat \<Rightarrow> nat \<Rightarrow> re" where
  "range_digit a b = Cls (\<lambda>c. is_digit c \<and> a \<le> digit_val c \<and> digit_val c \<le> b)"

definition two :: "char \<Rightarrow> nat \<Rightarrow> nat \<Rightarrow> re" where
  "two c a b = Seq (chr_is c) (range_digit a b)"

text \<open>The directives \<open>%Y %m %d %H %M %S %b %z\<close> with their groups 1 to 8; literals ignore case.\<close>

definition d_Y :: re where "d_Y = Cap 1 (rep 4 digit)"

definition d_m :: re where
  "d_m = Cap 2 (alts [two (CHR ''1'') 0 2, two (CHR ''0'') 1 9, range_digit 1 9])"

definition d_d :: re where
  "d_d = Cap 3 (alts [two (CHR ''3'') 0 1, Seq (range_digit 1 2) digit, two (CHR ''0'') 1 9, range_digit 1 9,
     two (CHR '' '') 1 9])"

definition d_H :: re where
  "d_H = Cap 4 (alts [two (CHR ''2'') 0 3, Seq (range_digit 0 1) digit, digit])"

definition d_M :: re where
  "d_M = Cap 5 (alts [Seq (range_digit 0 5) digit, digit])"

definition d_S :: re where
  "d_S = Cap 6 (alts [two (CHR ''6'') 0 1, Seq (range_digit 0 5) digit, digit])"

definition month_abbreviations :: "string list" where
  "month_abbreviations = [''jan'', ''feb'', ''mar'', ''apr'', ''may'', ''jun'', ''jul'', ''aug'', ''sep'', ''oct'',
     ''nov'', ''dec'']"

definition d_b :: re where
  "d_b = Cap 7 (alts (map lit_ci month_abbreviations))"

definition d_z :: re where
  "d_z = Cap 8 (Alt (seq [Cls (in_str ''+-''), digit, digit, Opt True (chr_is (CHR '':'')), range_digit 0 5, digit,
       Opt True (seq [Opt True (chr_is (CHR '':'')), range_digit 0 5, digit,
         Opt True (Seq (chr_is (CHR ''.'')) (between 1 6 digit))])])
     (chr_is (CHR ''Z'')))"

definition d_HMS :: "re list" where
  "d_HMS = [d_H, chr_is (CHR '':''), d_M, chr_is (CHR '':''), d_S]"

definition TS_FORMATS :: "re list" where
  "TS_FORMATS = [
     seq ([d_Y, chr_is (CHR ''-''), d_m, chr_is (CHR ''-''), d_d, chr_ci (CHR ''T'')] @ d_HMS @ [chr_ci (CHR ''Z'')]),
     seq ([d_Y, chr_is (CHR ''-''), d_m, chr_is (CHR ''-''), d_d, chr_ci (CHR ''T'')] @ d_HMS),
     seq ([d_Y, chr_is (CHR ''-''), d_m, chr_is (CHR ''-''), d_d, plus space] @ d_HMS),
     seq ([d_d, chr_is (CHR ''/''), d_b, chr_is (CHR ''/''), d_Y, chr_is (CHR '':'')] @ d_HMS @ [plus space, d_z]),
     seq ([d_b, plus space, d_d, plus space] @ d_HMS)]"

text \<open>\<open>int\<close> of a group of digits, which may start with a blank.\<close>

definition group_int :: "rstate \<Rightarrow> nat \<Rightarrow> int \<Rightarrow> int" where
  "group_int m n dflt = (case group_of m n of None \<Rightarrow> dflt
     | Some s \<Rightarrow> case parse_int s of None \<Rightarrow> dflt | Some i \<Rightarrow> i)"

definition month_of :: "rstate \<Rightarrow> int" where
  "month_of m = (case group_of m 7 of
       Some b \<Rightarrow> int (length (takeWhile (\<lambda>x. x \<noteq> str_lower b) month_abbreviations)) + 1
     | None \<Rightarrow> group_int m 2 1)"

text \<open>The offset of \<open>%z\<close> in microseconds; inconsistent colons and offsets of a day or more raise.\<close>

definition drop_at :: "nat \<Rightarrow> 'a list \<Rightarrow> 'a list" where
  "drop_at n xs = take n xs @ drop (Suc n) xs"

definition char_at :: "string \<Rightarrow> nat \<Rightarrow> char option" where
  "char_at s n = (if n < length s then Some (s ! n) else None)"

definition zone_offset :: "string \<Rightarrow> int result" where
  "zone_offset text =
     (if text = ''Z'' then Inr 0
      else
        let colon = (char_at text 3 = Some (CHR '':''));
            z = (if colon then drop_at 3 text else text);
            bad = colon \<and> 5 < length z \<and> char_at z 5 \<noteq> Some (CHR '':'');
            z' = (if colon \<and> 5 < length z then drop_at 5 z else z);
            seconds = take 2 (drop 5 z')
        in if bad then Inl (ValueError text)
           else case (parse_int (take 2 (drop 1 z')), parse_int (take 2 (drop 3 z')),
                      if seconds = [] then Some 0 else parse_int seconds) of
             (Some h, Some mi, Some sec) \<Rightarrow>
               let frac = drop 8 z';
                   micro = (case parse_int (frac @ replicate (6 - length frac) (CHR ''0'')) of None \<Rightarrow> 0 | Some i \<Rightarrow> i);
                   off = (h * 3600 + mi * 60 + sec) * 1000000 + micro
               in if off < 86400000000 then Inr (if str_startswith text ''-'' then - off else off)
                  else Inl (ValueError text)
           | _ \<Rightarrow> Inl (ValueError text))"

definition date_valid :: "int \<Rightarrow> int \<Rightarrow> int \<Rightarrow> bool" where
  "date_valid y m d \<longleftrightarrow> 1 \<le> y \<and> y \<le> 9999 \<and> 1 \<le> m \<and> m \<le> 12 \<and> 1 \<le> d \<and> d \<le> month_lengths y ! nat (m - 1)"

definition days_of_date :: "int \<Rightarrow> int \<Rightarrow> int \<Rightarrow> int" where
  "days_of_date y m d = days_before_year y + sum_list (take (nat (m - 1)) (month_lengths y)) + (d - 1)"

definition strptime :: "re \<Rightarrow> string \<Rightarrow> datetime result" where
  "strptime fmt text = (case re_match fmt text of
       None \<Rightarrow> Inl (ValueError text)
     | Some m \<Rightarrow>
         if fst (snd m) \<noteq> [] then Inl (ValueError text)
         else res_bind (case group_of m 8 of None \<Rightarrow> Inr None | Some z \<Rightarrow> res_bind (zone_offset z) (\<lambda>o'. Inr (Some o')))
           (\<lambda>offset.
             let y = group_int m 1 1900; mo = month_of m; d = group_int m 3 1; s = group_int m 6 0
             in if date_valid y mo d \<and> s \<le> 59
                then Inr \<lparr>dt_wall = (days_of_date y mo d * 86400 + group_int m 4 0 * 3600 + group_int m 5 0 * 60 + s)
                            * 1000000, dt_offset = offset\<rparr>
                else Inl (ValueError text)))"

text \<open>\<open>strftime("%Y-%m-%dT%H:%M:%SZ")\<close>; \<open>%Y\<close> is not padded.\<close>

definition strftime_z :: "datetime \<Rightarrow> string" where
  "strftime_z t =
     (let us = dt_wall t; day = us div 86400000000; sec = us mod 86400000000 div 1000000;
          y = year_of_day day;
          (m, d) = month_day 1 (month_lengths y) (day - days_before_year y)
      in show_int y @ ''-'' @ pad_int 2 m @ ''-'' @ pad_int 2 d @ ''T'' @ pad_int 2 (sec div 3600) @ '':''
         @ pad_int 2 (sec div 60 mod 60) @ '':'' @ pad_int 2 (sec mod 60) @ ''Z'')"

text \<open>
  The first format that the text has, converted to UTC; a \<open>ValueError\<close> goes on with the next
  format, an overflow of the conversion is not caught.
\<close>

fun normalize_timestamp :: "re list \<Rightarrow> string \<Rightarrow> string option result" where
  "normalize_timestamp [] text = Inr None"
| "normalize_timestamp (fmt # fmts) text = (case strptime fmt text of
       Inl _ \<Rightarrow> normalize_timestamp fmts text
     | Inr t \<Rightarrow>
         let t' = (if dt_offset t = None then t\<lparr>dt_offset := Some 0\<rparr> else t)
         in res_bind (astimezone_utc (\<lambda>_. 0) t') (\<lambda>u. Inr (Some (strftime_z u))))"

end
