(* ===== verification/Validator.thy ===== *)
theory Validator
  imports SpecDsl PyConv Passport
begin

text \<open>
  The validation engine, \<open>ml/validation/validator.py\<close>: extraction of the fields of an event by
  the body parser of a specification, enumerations, transformations and casts, the five
  measurements against the golden values, the certification gate, and the evidence handed to the
  passport builder. The completion time and the generated run number are parameters. Reading the
  golden files from disk is not modelled.
\<close>

section \<open>Extraction\<close>

text \<open>\<open>CSVParser.parse_line\<close> with a delimiter and headers that are only known to be some values.\<close>

definition csv_extract :: "string \<Rightarrow> pyval \<Rightarrow> pyval \<Rightarrow> dict option result" where
  "csv_extract raw delim headers = (case delim of
       PStr [c] \<Rightarrow>
         if \<not> truthy headers then Inr (parse_csv_line raw c None)
         else (case headers of
             PStr s \<Rightarrow> Inr (parse_csv_line raw c (Some (map (\<lambda>x. [x]) s)))
           | PList hs \<Rightarrow>
               if list_all is_PStr hs then Inr (parse_csv_line raw c (Some (map py_str hs))) else Inl OutsideModel
           | PDict d \<Rightarrow> Inr (case csv_row c (str_strip raw) of
               None \<Rightarrow> None
             | Some row \<Rightarrow> if length row = length d then None else parse_csv_line raw c None)
           | _ \<Rightarrow> Inr None)
     | _ \<Rightarrow> Inr None)"

definition or_empty :: "dict option \<Rightarrow> dict" where
  "or_empty r = (case r of None \<Rightarrow> [] | Some d \<Rightarrow> d)"

definition extract_key_value :: "string \<Rightarrow> string \<Rightarrow> dict result" where
  "extract_key_value format_str raw =
     (if str_contains ''syslog'' format_str \<and> str_startswith (str_strip raw) ''<'' then
        res_bind (parse_syslog_5424 raw) (\<lambda>r5424.
          let data = (case r5424 of Some d \<Rightarrow> Some d | None \<Rightarrow> parse_syslog_3164 raw)
          in Inr (case data of
               None \<Rightarrow> []
             | Some d \<Rightarrow>
                 let body = dict_get d ''message'' (PStr [])
                 in if truthy body then dict_update (dict_update [] d) (parse_kv (py_str body))
                    else dict_update [] d))
      else Inr (dict_update [] (parse_kv raw)))"

definition extract_raw ::
    "(string \<Rightarrow> pyval option) \<Rightarrow> string \<Rightarrow> string \<Rightarrow> dict \<Rightarrow> string \<Rightarrow> dict result" where
  "extract_raw json_loads format_str bp_type body_parser raw =
     (if bp_type = ''key_value'' then extract_key_value format_str raw
      else if bp_type = ''csv'' then
        res_bind (csv_extract raw (dict_get body_parser ''delimiter'' (PStr '','')) (dict_get body_parser ''headers'' PNone))
          (\<lambda>r. Inr (dict_update [] (or_empty r)))
      else if bp_type = ''json'' then Inr (dict_update [] (or_empty (parse_json json_loads raw)))
      else if bp_type = ''cef'' then Inr (dict_update [] (or_empty (parse_cef raw)))
      else if bp_type = ''leef'' then res_bind (parse_leef raw) (\<lambda>r. Inr (dict_update [] (or_empty r)))
      else res_bind (parse_record json_loads raw (format_hint format_str) None None)
             (\<lambda>(r, _). Inr (dict_update [] (or_empty r))))"

text \<open>\<open>v.lower()\<close>\<close>

fun lower_value :: "pyval \<Rightarrow> string result" where
  "lower_value (PStr s) = Inr (str_lower s)"
| "lower_value _ = Inl AttributeError"

section \<open>Transformation\<close>

definition transform :: "string \<Rightarrow> pyval \<Rightarrow> string" where
  "transform s t = (if t = PStr ''trim'' then str_strip s else if t = PStr ''lowercase'' then str_lower s
     else if t = PStr ''uppercase'' then str_upper s else s)"

definition apply_transforms :: "pyval \<Rightarrow> pyval \<Rightarrow> pyval result" where
  "apply_transforms transforms val = (case val of
       PStr s \<Rightarrow> res_bind (py_iter transforms) (\<lambda>ts. Inr (PStr (foldl transform s ts)))
     | _ \<Rightarrow> Inr val)"

text \<open>A cast that keeps the value when the conversion raises a \<open>ValueError\<close> or a \<open>TypeError\<close>.\<close>

definition cast_or_keep :: "pyval \<Rightarrow> pyval result \<Rightarrow> pyval result" where
  "cast_or_keep val r = (case r of
       Inr v \<Rightarrow> Inr v
     | Inl e \<Rightarrow> (case e of ValueError _ \<Rightarrow> Inr val | TypeError \<Rightarrow> Inr val | _ \<Rightarrow> Inl e))"

definition cast_value :: "pyval \<Rightarrow> pyval \<Rightarrow> pyval \<Rightarrow> pyval result" where
  "cast_value t_type transforms val =
     (if t_type = PStr ''integer'' then cast_or_keep val (res_bind (py_int val) (\<lambda>i. Inr (PInt i)))
      else if t_type = PStr ''float'' then cast_or_keep val (py_float_any val)
      else res_bind (if t_type = PStr ''timestamp'' then Inr True else py_in ''timestamp'' transforms) (\<lambda>is_ts.
        if is_ts then res_bind (normalize_timestamp TS_FORMATS (str_strip (py_str val)))
            (\<lambda>r. Inr (case r of None \<Rightarrow> val | Some s \<Rightarrow> PStr s))
        else Inr val))"

definition map_defined_field :: "dict \<Rightarrow> dict \<Rightarrow> string \<times> pyval \<Rightarrow> dict result" where
  "map_defined_field extracted mapped entry = (case entry of (raw_k, f_def) \<Rightarrow>
     case map_of extracted raw_k of
       None \<Rightarrow> Inr mapped
     | Some val \<Rightarrow>
         res_bind (py_get f_def ''map_to'' (PStr raw_k)) (\<lambda>canonical_k.
         res_bind (apply_enum f_def val) (\<lambda>v1.
         res_bind (py_get f_def ''transformations'' (PList [])) (\<lambda>transforms.
         res_bind (apply_transforms transforms v1) (\<lambda>v2.
         res_bind (py_get f_def ''type'' PNone) (\<lambda>t_type.
         res_bind (cast_value t_type transforms v2) (\<lambda>v3.
         res_bind (dict_key canonical_k) (\<lambda>k. Inr (AList.update k v3 mapped)))))))))"

definition unmapped_of :: "dict \<Rightarrow> dict \<Rightarrow> dict" where
  "unmapped_of fields_spec extracted = filter (\<lambda>(k, v). map_of fields_spec k = None) extracted"

section \<open>Measurements\<close>

datatype violation =
    Extraction_mismatch string pyval pyval
  | Critical_failed string pyval pyval
  | Unknown_not_retained string
  | Det_002_failed

record ValidationReport =
  vr_source_id :: pyval
  vr_parser_id :: pyval
  vr_parser_version :: pyval
  vr_passed :: bool
  vr_metrics :: "(string \<times> rat) list"
  vr_critical_passed :: bool
  vr_mandatory_dps_passed :: bool
  vr_violations :: "violation list"
  vr_completed_at :: datetime

definition extraction_ok :: "dict \<Rightarrow> string \<times> pyval \<Rightarrow> bool" where
  "extraction_ok mapped p = (case map_of mapped (fst p) of None \<Rightarrow> False | Some v \<Rightarrow> py_eq v (snd p))"

definition critical_ok :: "dict \<Rightarrow> dict \<Rightarrow> string \<Rightarrow> bool" where
  "critical_ok mapped expected k =
     (let e = dict_get expected k PNone in e \<noteq> PNone \<and> py_eq (dict_get mapped k PNone) e)"

definition unknown_ok :: "dict \<Rightarrow> string \<times> pyval \<Rightarrow> bool" where
  "unknown_ok unmapped p = (case map_of unmapped (fst p) of None \<Rightarrow> False | Some v \<Rightarrow> py_str v = py_str (snd p))"

definition score :: "('a \<Rightarrow> bool) \<Rightarrow> 'a list \<Rightarrow> rat \<Rightarrow> rat" where
  "score ok xs dflt = (if 0 < length xs then fl (of_nat (length (filter ok xs)) / of_nat (length xs)) else dflt)"

definition mentions_block :: "string \<Rightarrow> bool" where
  "mentions_block action \<longleftrightarrow> str_contains ''block'' action \<or> str_contains ''deny'' action \<or> str_contains ''drop'' action"

definition evaluate_detection_contracts :: "dict \<Rightarrow> dict \<Rightarrow> rat \<times> bool \<times> violation list" where
  "evaluate_detection_contracts canonical expected =
     (let action = str_lower (py_str (dict_get canonical ''event.action'' (PStr [])));
          src_ip = dict_get canonical ''src.ip'' PNone;
          dst_ip = dict_get canonical ''dst.ip'' PNone;
          expected_action = str_lower (py_str (dict_get expected ''event.action'' (PStr [])))
      in if mentions_block expected_action \<and> \<not> (mentions_block action \<and> (truthy src_ip \<or> truthy dst_ip))
         then (0, False, [Det_002_failed])
         else (1, True, []))"

definition measure ::
    "dict \<Rightarrow> dict \<Rightarrow> dict \<Rightarrow> string list \<Rightarrow> dict \<Rightarrow> rat \<Rightarrow> datetime \<Rightarrow> pyval \<Rightarrow> pyval \<Rightarrow> pyval \<Rightarrow> ValidationReport" where
  "measure mapped unmapped expected critical_fields expected_unknown min_accuracy now source_id parser_id parser_version =
     (let raw_retention = 1;
          extraction = score (extraction_ok mapped) expected 1;
          critical_passed = list_all (critical_ok mapped expected) critical_fields;
          semantic = score (critical_ok mapped expected) critical_fields extraction;
          retention = (if expected_unknown = [] then 1 else score (unknown_ok unmapped) expected_unknown 1);
          (dps_score, mandatory, det) = evaluate_detection_contracts mapped expected;
          violations = map (\<lambda>(k, v). Extraction_mismatch k v (dict_get mapped k PNone))
                (filter (\<lambda>p. \<not> extraction_ok mapped p) expected)
            @ map (\<lambda>k. Critical_failed k (dict_get expected k PNone) (dict_get mapped k PNone))
                (filter (\<lambda>k. \<not> critical_ok mapped expected k) critical_fields)
            @ map (\<lambda>(k, v). Unknown_not_retained k) (filter (\<lambda>p. \<not> unknown_ok unmapped p) expected_unknown)
            @ det
      in \<lparr>vr_source_id = source_id, vr_parser_id = parser_id, vr_parser_version = parser_version,
          vr_passed = (min_accuracy \<le> extraction \<and> fl (95 / 100) \<le> semantic \<and> critical_passed
             \<and> raw_retention = (1 :: rat) \<and> retention = 1 \<and> fl (95 / 100) \<le> dps_score \<and> mandatory),
          vr_metrics = [(''extraction_accuracy'', py_round extraction 4), (''semantic_accuracy'', py_round semantic 4),
             (''raw_retention'', py_round raw_retention 4), (''unknown_field_retention'', py_round retention 4),
             (''detection_preservation'', py_round dps_score 4)],
          vr_critical_passed = critical_passed, vr_mandatory_dps_passed = mandatory,
          vr_violations = violations, vr_completed_at = now\<rparr>)"

text \<open>The identity of the parser, the mapped fields of the raw event, and those nothing maps.\<close>

definition map_event ::
    "(string \<Rightarrow> pyval option) \<Rightarrow> dict \<Rightarrow> string \<Rightarrow> string \<Rightarrow> (pyval \<times> pyval \<times> dict \<times> dict) result" where
  "map_event json_loads spec source_id raw =
     res_bind (parser_identity spec (source_id @ ''.parser'') ''1.0.0'') (\<lambda>(parser_id, parser_version).
     res_bind (py_get (dict_get spec ''match'' (PDict [])) ''format'' (PStr ''unknown'')) (\<lambda>fmt.
     res_bind (lower_value fmt) (\<lambda>format_str.
     res_bind (py_get (dict_get spec ''body_parser'' (PDict [])) ''type'' (PStr [])) (\<lambda>bp.
     res_bind (lower_value bp) (\<lambda>bp_type.
     res_bind (py_items (dict_get spec ''body_parser'' (PDict []))) (\<lambda>body_parser.
     res_bind (extract_raw json_loads format_str bp_type body_parser raw) (\<lambda>extracted.
     res_bind (py_items (dict_get spec ''fields'' (PDict []))) (\<lambda>fields_spec.
     res_bind (res_foldl (map_defined_field extracted) [] fields_spec) (\<lambda>mapped.
       Inr (parser_id, parser_version, mapped, unmapped_of fields_spec extracted))))))))))"

definition validate_event ::
    "(string \<Rightarrow> pyval option) \<Rightarrow> datetime \<Rightarrow> string \<Rightarrow> dict \<Rightarrow> dict \<Rightarrow> string list \<Rightarrow> dict \<Rightarrow> rat \<Rightarrow> string
     \<Rightarrow> ValidationReport result" where
  "validate_event json_loads now raw spec expected critical_fields expected_unknown min_accuracy source_id =
     res_bind (map_event json_loads spec source_id raw) (\<lambda>(parser_id, parser_version, mapped, unmapped).
       Inr (measure mapped unmapped expected critical_fields expected_unknown
              min_accuracy now (PStr source_id) parser_id parser_version))"

definition to_evidence :: "ValidationReport \<Rightarrow> string \<Rightarrow> string option \<Rightarrow> string \<Rightarrow> ValidationEvidence" where
  "to_evidence report new_run run_id drift_state =
     \<lparr>ve_run_id = PStr (case run_id of None \<Rightarrow> new_run | Some r \<Rightarrow> if r = [] then new_run else r),
      ve_completed_at = vr_completed_at report, ve_passed = vr_passed report,
      ve_metrics = map (\<lambda>(k, x). (k, PFloat x)) (vr_metrics report),
      ve_drift_state = Some (if vr_passed report then drift_state else ''SUSPECTED''),
      ve_drift_observed_at = Some (vr_completed_at report)\<rparr>"

section \<open>Lemmas\<close>

lemma measured_unit: "0 \<le> d \<Longrightarrow> d \<le> 1 \<Longrightarrow> 0 \<le> score ok xs d \<and> score ok xs d \<le> 1"
  using ieee.ratio_unit [OF length_filter_le, of ok xs] by (simp add: score_def)

lemma score_all: "list_all ok xs \<Longrightarrow> score ok xs 1 = 1"
  by (simp add: score_def list_all_iff)

lemma score_all_nonempty: "list_all ok xs \<Longrightarrow> score ok xs d = (if xs = [] then d else 1)"
  by (simp add: score_def list_all_iff)

lemma score_one_imp_all:
  assumes "score ok xs d = 1" "xs \<noteq> []" "length xs \<le> 2 ^ 53"
  shows "list_all ok xs"
proof (rule ccontr)
  assume "\<not> list_all ok xs"
  then have "length (filter ok xs) < length xs"
    by (metis length_filter_less list_all_iff)
  from fl_ratio_less_one [OF this assms(3)] assms(1,2) show False by (simp add: score_def)
qed

lemma detection_cases: "evaluate_detection_contracts m e = (0, False, [Det_002_failed]) \<or> evaluate_detection_contracts m e = (1, True, [])"
  by (simp add: evaluate_detection_contracts_def Let_def)

lemma measure_fields:
  fixes mapped unmapped expected crit unk mn now sid pid pv
  defines "r \<equiv> measure mapped unmapped expected crit unk mn now sid pid pv"
    and "ext \<equiv> score (extraction_ok mapped) expected 1"
  shows "vr_passed r \<longleftrightarrow> mn \<le> ext \<and> fl (95 / 100) \<le> score (critical_ok mapped expected) crit ext
      \<and> list_all (critical_ok mapped expected) crit \<and> score (unknown_ok unmapped) unk 1 = 1
      \<and> evaluate_detection_contracts mapped expected = (1, True, [])"
    and "vr_violations r = map (\<lambda>(k, v). Extraction_mismatch k v (dict_get mapped k PNone))
          (filter (\<lambda>p. \<not> extraction_ok mapped p) expected)
      @ map (\<lambda>k. Critical_failed k (dict_get expected k PNone) (dict_get mapped k PNone))
          (filter (\<lambda>k. \<not> critical_ok mapped expected k) crit)
      @ map (\<lambda>(k, v). Unknown_not_retained k) (filter (\<lambda>p. \<not> unknown_ok unmapped p) unk)
      @ snd (snd (evaluate_detection_contracts mapped expected))"
    and "vr_metrics r = [(''extraction_accuracy'', py_round ext 4),
      (''semantic_accuracy'', py_round (score (critical_ok mapped expected) crit ext) 4), (''raw_retention'', 1),
      (''unknown_field_retention'', py_round (score (unknown_ok unmapped) unk 1) 4),
      (''detection_preservation'', py_round (fst (evaluate_detection_contracts mapped expected)) 4)]"
    and "vr_completed_at r = now"
proof -
  have u: "(if unk = [] then 1 else score (unknown_ok unmapped) unk 1) = score (unknown_ok unmapped) unk 1"
    by (simp add: score_def)
  have "fl (95 / 100) \<le> 1" "\<not> fl (95 / 100) \<le> 0" by (rule ieee.le_one, simp) code_simp
  then show "vr_passed r \<longleftrightarrow> mn \<le> ext \<and> fl (95 / 100) \<le> score (critical_ok mapped expected) crit ext
      \<and> list_all (critical_ok mapped expected) crit \<and> score (unknown_ok unmapped) unk 1 = 1
      \<and> evaluate_detection_contracts mapped expected = (1, True, [])"
    using detection_cases [of mapped expected] by (auto simp: r_def measure_def ext_def u Let_def)
qed (use detection_cases [of mapped expected] in \<open>auto simp: r_def measure_def ext_def Let_def score_def\<close>)

lemma validate_event_Inr:
  assumes "validate_event j now raw spec expected crit unk mn sid = Inr r"
  obtains mapped unmapped pid pv where "r = measure mapped unmapped expected crit unk mn now (PStr sid) pid pv"
  using assms unfolding validate_event_def res_bind_Inr_iff by (auto simp: res_bind_Inr_iff)

lemma finished_validation:
  assumes "validate_event j now raw spec expected crit unk mn sid = Inr r"
  shows "map fst (vr_metrics r) = METRIC_NAMES" "\<forall>(n, x)\<in>set (vr_metrics r). 0 \<le> x \<and> x \<le> 1"
    "vr_completed_at r = now"
proof -
  obtain mapped unmapped i v where r: "r = measure mapped unmapped expected crit unk mn now (PStr sid) i v"
    using validate_event_Inr [OF assms] .
  note f = measure_fields [of mapped unmapped expected crit unk mn now "PStr sid" i v, folded r]
  have ext: "0 \<le> score (extraction_ok mapped) expected 1 \<and> score (extraction_ok mapped) expected 1 \<le> 1"
    by (rule measured_unit) simp_all
  have sem: "0 \<le> score (critical_ok mapped expected) crit (score (extraction_ok mapped) expected 1)
      \<and> score (critical_ok mapped expected) crit (score (extraction_ok mapped) expected 1) \<le> 1"
    using ext by (intro measured_unit) simp_all
  have ret: "0 \<le> score (unknown_ok unmapped) unk 1 \<and> score (unknown_ok unmapped) unk 1 \<le> 1"
    by (rule measured_unit) simp_all
  have det: "0 \<le> fst (evaluate_detection_contracts mapped expected) \<and> fst (evaluate_detection_contracts mapped expected) \<le> 1"
    using detection_cases [of mapped expected] by auto
  show "\<forall>(n, x)\<in>set (vr_metrics r). 0 \<le> x \<and> x \<le> 1"
    using ext sem ret det by (simp add: f(3) round4.unit_interval)
  show "map fst (vr_metrics r) = METRIC_NAMES" by (simp add: f(3) METRIC_NAMES_def)
  show "vr_completed_at r = now" by (rule f(4))
qed

lemma evidence_of_validation:
  assumes "validate_event j now raw spec expected crit unk mn sid = Inr r"
    and "dt_aware now" "str_strip new_run \<noteq> []"
  shows "evidence_complete (to_evidence r new_run None ''STABLE'')"
proof -
  let ?ev = "to_evidence r new_run None ''STABLE''"
  note fin = finished_validation [OF assms(1)]
  have "list_all (\<lambda>(k, v). unit_number v) (ve_metrics ?ev)"
    using fin(2) by (auto simp: to_evidence_def unit_number_def list_all_iff)
  moreover have "map fst (ve_metrics ?ev) = METRIC_NAMES"
    using fin(1) by (simp add: to_evidence_def comp_def case_prod_unfold)
  then have "fst ` set (ve_metrics ?ev) = set METRIC_NAMES" by (metis set_map)
  moreover have "ve_run_id ?ev = PStr new_run" "ve_completed_at ?ev = now" "ve_drift_observed_at ?ev = Some now"
      "\<exists>s\<in>set DRIFT_STATES. ve_drift_state ?ev = Some s"
    by (simp_all add: to_evidence_def fin(3) DRIFT_STATES_def)
  ultimately show ?thesis using assms(2,3) by (auto simp: evidence_complete_def)
qed

lemma evidence_metric:
  assumes "map fst (vr_metrics r) = METRIC_NAMES" "(n, x) \<in> set (vr_metrics r)"
  shows "map_of (ve_metrics (to_evidence r new_run given state)) n = Some (PFloat x)" "n \<in> set METRIC_NAMES"
proof -
  have "distinct (map fst (vr_metrics r))" by (simp add: assms(1) METRIC_NAMES_def)
  then show "map_of (ve_metrics (to_evidence r new_run given state)) n = Some (PFloat x)"
    using assms(2) by (force simp: to_evidence_def map_of_eq_Some_iff comp_def case_prod_unfold image_iff)
qed (use assms in \<open>metis fst_conv image_eqI set_map\<close>)

section \<open>Properties\<close>

text \<open>
  C24. The certification gate, exactly. Once the parser has mapped the event, the validation returns
  and passes if and only if the share of expected fields that were extracted with the expected
  value reaches the required accuracy (and 95 percent where no critical field is named), every
  critical field has an expected value and is mapped to it, every expected unknown field is
  retained with its text, and an expected block is still seen as a block with an address. It
  reports no violation exactly when all of that holds without any mismatch; a passed validation
  reports mismatches of the extraction only.
\<close>

theorem validation_verdict:
  assumes "map_event json_loads spec sid raw = Inr (pid, ver, mapped, unmapped)" "length unknown \<le> 2 ^ 53"
  shows "let matched = filter (\<lambda>(k, v). \<exists>w. map_of mapped k = Some w \<and> py_eq w v) expected;
      accuracy = (if expected = [] then 1 else fl (of_nat (length matched) / of_nat (length expected)));
      critical_right = list_all (\<lambda>k. \<exists>e. map_of expected k = Some e \<and> e \<noteq> PNone \<and> py_eq (dict_get mapped k PNone) e) critical;
      retained = list_all (\<lambda>(k, v). \<exists>w. map_of unmapped k = Some w \<and> py_str w = py_str v) unknown;
      blocks = (\<lambda>d. \<exists>w\<in>{''block'', ''deny'', ''drop''}. sublist w (str_lower (py_str (dict_get d ''event.action'' (PStr [])))));
      detected = (blocks expected \<longrightarrow> blocks mapped
        \<and> (truthy (dict_get mapped ''src.ip'' PNone) \<or> truthy (dict_get mapped ''dst.ip'' PNone)))
    in \<exists>r. validate_event json_loads now raw spec expected critical unknown min_accuracy sid = Inr r
      \<and> (vr_passed r \<longleftrightarrow> min_accuracy \<le> accuracy \<and> (critical = [] \<longrightarrow> fl (95 / 100) \<le> accuracy)
           \<and> critical_right \<and> retained \<and> detected)
      \<and> (vr_violations r = [] \<longleftrightarrow> length matched = length expected \<and> critical_right \<and> retained \<and> detected)
      \<and> (vr_passed r \<longrightarrow> (\<forall>v\<in>set (vr_violations r). \<exists>k e g. v = Extraction_mismatch k e g))
      \<and> (vr_violations r = [] \<and> min_accuracy \<le> 1 \<longrightarrow> vr_passed r)"
proof -
  define r where "r = measure mapped unmapped expected critical unknown min_accuracy now (PStr sid) pid ver"
  have run: "validate_event json_loads now raw spec expected critical unknown min_accuracy sid = Inr r"
    by (simp add: validate_event_def assms(1) r_def)
  note f = measure_fields [of mapped unmapped expected critical unknown min_accuracy now "PStr sid" pid ver, folded r_def]
  define ext where "ext = score (extraction_ok mapped) expected 1"
  have matched: "(\<lambda>(k, v). \<exists>w. map_of mapped k = Some w \<and> py_eq w v) = extraction_ok mapped"
    by (auto simp: extraction_ok_def fun_eq_iff split: option.splits)
  have accuracy: "(if expected = [] then 1 else fl (of_nat (length (filter (extraction_ok mapped) expected)) / of_nat (length expected))) = ext"
    by (simp add: ext_def score_def)
  have critical: "(\<lambda>k. \<exists>e. map_of expected k = Some e \<and> e \<noteq> PNone \<and> py_eq (dict_get mapped k PNone) e) = critical_ok mapped expected"
    by (auto simp: critical_ok_def dict_get_def fun_eq_iff Let_def split: option.splits)
  have retained: "(\<lambda>(k, v). \<exists>w. map_of unmapped k = Some w \<and> py_str w = py_str v) = unknown_ok unmapped"
    by (auto simp: unknown_ok_def fun_eq_iff split: option.splits)
  have blocks: "(\<exists>w\<in>{''block'', ''deny'', ''drop''}. sublist w s) = mentions_block s" for s
    by (simp add: mentions_block_def str_contains_sublist)
  have detected: "(mentions_block (str_lower (py_str (dict_get expected ''event.action'' (PStr []))))
      \<longrightarrow> mentions_block (str_lower (py_str (dict_get mapped ''event.action'' (PStr []))))
        \<and> (truthy (dict_get mapped ''src.ip'' PNone) \<or> truthy (dict_get mapped ''dst.ip'' PNone)))
    \<longleftrightarrow> evaluate_detection_contracts mapped expected = (1, True, [])"
    by (simp add: evaluate_detection_contracts_def Let_def)
  have unknown: "score (unknown_ok unmapped) unknown 1 = 1 \<longleftrightarrow> list_all (unknown_ok unmapped) unknown"
    using score_one_imp_all [OF _ _ assms(2)] score_all by (cases "unknown = []") auto
  have semantic: "fl (95 / 100) \<le> score (critical_ok mapped expected) critical ext \<longleftrightarrow> (critical = [] \<longrightarrow> fl (95 / 100) \<le> ext)"
    if "list_all (critical_ok mapped expected) critical"
    using ieee.le_one [of "95 / 100"] by (simp add: score_all_nonempty [OF that])
  have passed: "vr_passed r \<longleftrightarrow> min_accuracy \<le> ext \<and> (critical = [] \<longrightarrow> fl (95 / 100) \<le> ext)
      \<and> list_all (critical_ok mapped expected) critical \<and> list_all (unknown_ok unmapped) unknown
      \<and> evaluate_detection_contracts mapped expected = (1, True, [])"
    using f(1) semantic unknown by (auto simp: ext_def)
  have det: "snd (snd (evaluate_detection_contracts mapped expected)) = []
      \<longleftrightarrow> evaluate_detection_contracts mapped expected = (1, True, [])"
    using detection_cases [of mapped expected] by auto
  have clean: "vr_violations r = [] \<longleftrightarrow> length (filter (extraction_ok mapped) expected) = length expected
      \<and> list_all (critical_ok mapped expected) critical \<and> list_all (unknown_ok unmapped) unknown
      \<and> evaluate_detection_contracts mapped expected = (1, True, [])"
    proof -
    have "length (filter (extraction_ok mapped) expected) = length expected \<longleftrightarrow> filter (\<lambda>p. \<not> extraction_ok mapped p) expected = []"
      using sum_length_filter_compl [of "extraction_ok mapped" expected] by (metis add_cancel_right_right length_0_conv)
    then show ?thesis by (auto simp: f(2) det list_all_iff filter_empty_conv)
  qed
  have mismatches: "\<forall>v\<in>set (vr_violations r). \<exists>k e g. v = Extraction_mismatch k e g" if "vr_passed r"
    using that passed by (auto simp: f(2) list_all_iff)
  have "length (filter (extraction_ok mapped) expected) = length expected \<Longrightarrow> ext = 1"
    by (simp add: ext_def score_def)
  moreover have "fl (95 / 100) \<le> 1" by (rule ieee.le_one) simp
  ultimately have "vr_violations r = [] \<and> min_accuracy \<le> 1 \<longrightarrow> vr_passed r" using passed clean by auto
  then show ?thesis
    unfolding Let_def matched accuracy critical retained blocks detected
    using run passed clean mismatches by blast
qed

text \<open>
  From validation to passport: the evidence of every finished validation, with an aware
  completion time, a non-blank run number and the drift state STABLE, is complete, so a passed
  validation is certified for every non-blank identity, with the measured scores, and a failed
  one never is.
\<close>

theorem validation_certifiable:
  assumes "validate_event json_loads now raw spec expected critical unknown min_accuracy sid = Inr r"
    and "dt_aware now" "astimezone_utc local now = Inr u" "str_strip new_run \<noteq> []"
    and "\<forall>v\<in>{psid, pid, ver}. \<exists>s. v = PStr s \<and> str_strip s \<noteq> []"
  shows "\<exists>p. build_passport local psid pid ver (Some (to_evidence r new_run None ''STABLE'')) = Inr p
    \<and> (member (member p ''certification'') ''status'' = PStr ''CERTIFIED'' \<longleftrightarrow> vr_passed r)
    \<and> (vr_passed r \<longrightarrow> (\<forall>(n, x)\<in>set (vr_metrics r). member (member p ''scores'') n = PFloat x))"
proof -
  let ?ev = "to_evidence r new_run None ''STABLE''"
  note fin = finished_validation [OF assms(1)]
  note complete = evidence_of_validation [OF assms(1,2,4)]
  have ev: "ve_run_id ?ev = PStr new_run" "ve_completed_at ?ev = now" "ve_drift_observed_at ?ev = Some now"
      "ve_passed ?ev = vr_passed r"
    by (simp_all add: to_evidence_def fin(3))
  show ?thesis
  proof (cases "vr_passed r")
    case False
    obtain p where p: "unmeasured local psid pid ver (Some ?ev) = Inr p"
      using ev assms(3,4) by (simp add: unmeasured_def required_text_def timestamp_def)
    then have b: "build_passport local psid pid ver (Some ?ev) = Inr p"
      using False ev(4) assms(5) by (auto simp: build_passport_def required_text_def)
    have "member (member p ''certification'') ''status'' \<noteq> PStr ''CERTIFIED''"
      using p by (rule unmeasured_fields) (simp add: member_def dict_get_def)
    with b False show ?thesis by blast
  next
    case True
    obtain p where p: "certified local psid pid ver ?ev = Inr p"
      using certified_total [OF complete, of local psid pid ver] ev(2,3) assms(3) by auto
    then have b: "build_passport local psid pid ver (Some ?ev) = Inr p"
      using True ev(4) assms(5) complete
      by (auto simp: build_passport_def required_text_def validate_evidence_ok [symmetric])
    have "member (member p ''certification'') ''status'' = PStr ''CERTIFIED''"
      using p by (rule certified_fields) (simp add: member_def dict_get_def)
    then show ?thesis using b True certified_scores [OF p] evidence_metric [OF fin(1)]
      by (fastforce simp: list_all_iff)
  qed
qed

section \<open>Witnesses\<close>

definition golden_json :: "string \<Rightarrow> pyval option" where
  "golden_json s = (if s = ''{1}'' then Some (PDict [(''act'', PStr '' DENY ''), (''src'', PStr ''10.0.0.1''),
     (''sport'', PStr ''443''), (''x'', PInt 7)]) else None)"

definition golden_spec :: dict where
  "golden_spec = [(''parser'', PDict [(''id'', PStr ''fw''), (''version'', PStr ''2.0.0'')]),
     (''body_parser'', PDict [(''type'', PStr ''JSON'')]),
     (''fields'', PDict [
        (''act'', PDict [(''map_to'', PStr ''event.action''), (''transformations'', PList [PStr ''trim'', PStr ''lowercase''])]),
        (''src'', PDict [(''map_to'', PStr ''src.ip'')]),
        (''sport'', PDict [(''map_to'', PStr ''src.port''), (''type'', PStr ''integer'')])])]"

definition golden_now :: datetime where
  "golden_now = \<lparr>dt_wall = 63800000000000000, dt_offset = Some 0\<rparr>"

definition golden_run :: "ValidationReport result" where
  "golden_run = validate_event golden_json golden_now ''{1}'' golden_spec
     [(''event.action'', PStr ''deny''), (''src.ip'', PStr ''10.0.0.1''), (''src.port'', PInt 443)]
     [''event.action'', ''src.port''] [(''x'', PStr ''7'')] (fl (95 / 100)) ''fw''"

lemma golden_passes: "(case golden_run of Inl e \<Rightarrow> False | Inr r \<Rightarrow> vr_passed r)"
  by code_simp

lemma golden_mapped:
  "map_event golden_json golden_spec ''fw'' ''{1}'' = Inr (PStr ''fw'', PStr ''2.0.0'',
     [(''event.action'', PStr ''deny''), (''src.ip'', PStr ''10.0.0.1''), (''src.port'', PInt 443)], [(''x'', PInt 7)])"
  by code_simp

theorem validation_verdict_witness:
  "\<exists>r. golden_run = Inr r \<and> vr_passed r"
proof -
  have "length [(''x'', PStr ''7'')] \<le> 2 ^ 53" by simp
  note verdict = validation_verdict [OF golden_mapped this, where now = golden_now and min_accuracy = "fl (95 / 100)"
      and expected = "[(''event.action'', PStr ''deny''), (''src.ip'', PStr ''10.0.0.1''), (''src.port'', PInt 443)]"
      and critical = "[''event.action'', ''src.port'']"]
  then obtain r where "golden_run = Inr r" unfolding golden_run_def Let_def by blast
  moreover have "vr_passed r" using golden_passes unfolding \<open>golden_run = Inr r\<close> by simp
  ultimately show ?thesis by blast
qed

theorem validation_certifiable_witness:
  "\<exists>r p. golden_run = Inr r
     \<and> build_passport (\<lambda>_. 0) (PStr ''fw'') (PStr ''fw'') (PStr ''2.0.0'') (Some (to_evidence r ''run'' None ''STABLE'')) = Inr p
     \<and> member (member p ''certification'') ''status'' = PStr ''CERTIFIED''"
proof -
  obtain r where r: "golden_run = Inr r" "vr_passed r" using golden_passes by (auto split: sum.splits)
  have t: "dt_aware golden_now" "astimezone_utc (\<lambda>_. 0) golden_now = Inr golden_now"
    "str_strip ''run'' \<noteq> []" "str_strip ''fw'' \<noteq> []" "str_strip ''2.0.0'' \<noteq> []"
    by code_simp+
  then have "\<forall>v\<in>{PStr ''fw'', PStr ''fw'', PStr ''2.0.0''}. \<exists>s. v = PStr s \<and> str_strip s \<noteq> []" by simp
  from validation_certifiable [OF r(1) [unfolded golden_run_def] t(1,2,3) this] r show ?thesis by blast
qed

end
