(* ===== verification/Assist.thy ===== *)
theory Assist
  imports PyStr
begin

text \<open>
  The AI assistant, \<open>ml/ai_assist/assistant.py\<close> and \<open>ml/ai_assist/schemas.py\<close>: the prompt, the
  structural check of the answer and the filter for invented targets, and the offline provider.
  A provider is a parameter, a function from the prompt to its answer or the exception it
  raises; \<open>json.loads\<close> and \<open>json.dumps\<close> are parameters too, and what is needed of them is that
  reading inverts writing.
\<close>

section \<open>Definitions\<close>

definition CANONICAL_SCHEMA_REGISTRY :: "string list" where
  "CANONICAL_SCHEMA_REGISTRY = [
     ''src.ip'', ''src.port'', ''src.mac'', ''src.host'',
     ''dst.ip'', ''dst.port'', ''dst.mac'', ''dst.host'',
     ''dest.ip'', ''dest.port'', ''dest.mac'', ''dest.host'',
     ''event.action'', ''event.category'', ''event.outcome'', ''event.type'',
     ''user.name'', ''user.id'', ''user.domain'', ''user.email'', ''user.role'',
     ''http.request.method'', ''http.request.url'', ''http.response.status_code'',
     ''process.name'', ''process.pid'', ''process.parent.pid'', ''process.command_line'',
     ''network.protocol'', ''network.bytes_in'', ''network.bytes_out'', ''network.packets'',
     ''file.path'', ''file.name'', ''file.size'', ''file.hash.sha256'']"

subsection \<open>The offline provider\<close>

definition proposal :: "string \<Rightarrow> string \<Rightarrow> rat \<Rightarrow> string \<Rightarrow> pyval" where
  "proposal raw canonical confidence reasoning =
     PDict [(''raw_field'', PStr raw), (''canonical_field'', PStr canonical),
            (''confidence'', PFloat confidence), (''reasoning'', PStr reasoning)]"

definition mock_target :: "string \<Rightarrow> pyval option" where
  "mock_target raw = (let f = str_lower raw in
     if str_contains ''src'' f \<and> str_contains ''ip'' f then
       Some (proposal raw ''src.ip'' (fl (88 / 100)) ''Matched src and ip in field name via mock model heuristics.'')
     else if str_contains ''dst'' f \<or> str_contains ''dest'' f then
       Some (proposal raw ''dest.ip'' (fl (85 / 100)) ''Matched destination keyword via mock model heuristics.'')
     else if str_contains ''act'' f \<or> str_contains ''action'' f then
       Some (proposal raw ''event.action'' (fl (90 / 100)) ''Matched action event indicator.'')
     else None)"

text \<open>\<open>item.get("raw_field", "") if isinstance(item, dict) else str(item)\<close>, on which \<open>.lower()\<close> is called\<close>

definition mock_raw_field :: "pyval \<Rightarrow> string result" where
  "mock_raw_field item = (case item of
       PDict d \<Rightarrow> (case dict_get d ''raw_field'' (PStr []) of PStr s \<Rightarrow> Inr s | _ \<Rightarrow> Inl AttributeError)
     | _ \<Rightarrow> Inr (py_str item))"

definition mock_item :: "pyval list \<times> pyval list \<Rightarrow> pyval \<Rightarrow> (pyval list \<times> pyval list) result" where
  "mock_item st item = res_bind (mock_raw_field item) (\<lambda>raw.
     Inr (case mock_target raw of
            Some p \<Rightarrow> (fst st @ [p], snd st)
          | None \<Rightarrow> (fst st, snd st @ [PStr raw])))"

definition mock_response :: "pyval \<Rightarrow> pyval result" where
  "mock_response data =
     res_bind (py_get data ''unmapped_fields'' (PList [])) (\<lambda>unmapped.
     res_bind (py_iter unmapped) (\<lambda>items.
     res_bind (res_foldl mock_item ([], []) items) (\<lambda>(mapped, rest).
     res_bind (py_get data ''candidate_id'' (PStr ''cand_generated'')) (\<lambda>cid.
     res_bind (py_get data ''source_format'' (PStr ''unknown'')) (\<lambda>fmt.
       Inr (PDict [(''candidate_id'', cid), (''source_format'', fmt), (''mapped_fields'', PList mapped),
                   (''unmapped_fields'', PList rest)]))))))"

definition mock_generate :: "(string \<Rightarrow> pyval option) \<Rightarrow> (pyval \<Rightarrow> string) \<Rightarrow> string \<Rightarrow> string result" where
  "mock_generate json_loads json_dumps prompt = (case json_loads prompt of
       None \<Rightarrow> Inl (ValueError ''JSONDecodeError'')
     | Some data \<Rightarrow> res_bind (mock_response data) (\<lambda>r. Inr (json_dumps r)))"

subsection \<open>The assistant\<close>

definition backslash :: char where "backslash = char_of (92 :: nat)"

definition dquote :: char where "dquote = char_of (34 :: nat)"

definition nul :: char where "nul = char_of (0 :: nat)"

definition sanitize_untrusted_input :: "string \<Rightarrow> string" where
  "sanitize_untrusted_input text =
     (if text = [] then []
      else str_replace [nul] [] (str_replace [dquote] [backslash, dquote]
             (str_replace [backslash] [backslash, backslash] text)))"

definition prompt_payload :: "string \<Rightarrow> string \<Rightarrow> pyval list \<Rightarrow> string \<Rightarrow> pyval" where
  "prompt_payload candidate_id source_format unmapped_fields log_sample =
     PDict [(''instruction'', PStr ''Map the provided unmapped raw fields to canonical target schemas.''),
       (''candidate_id'', PStr candidate_id), (''source_format'', PStr source_format),
       (''unmapped_fields'', PList unmapped_fields),
       (''raw_log_sample'', PStr (sanitize_untrusted_input log_sample)),
       (''allowed_canonical_targets'', PList (map PStr (sort CANONICAL_SCHEMA_REGISTRY))),
       (''formatting_rules'', PList (map PStr [''Respond ONLY with valid JSON.'',
          ''Ensure every canonical_field matches allowed_canonical_targets exactly.'',
          ''Set confidence between 0.00 and 1.00.'']))]"

fun is_list :: "pyval \<Rightarrow> bool" where
  "is_list (PList _) = True"
| "is_list _ = False"

fun is_int_or_float :: "pyval \<Rightarrow> bool" where
  "is_int_or_float (PBool _) = True"
| "is_int_or_float (PInt _) = True"
| "is_int_or_float (PFloat _) = True"
| "is_int_or_float (PNonFinite _) = True"
| "is_int_or_float _ = False"

definition has_keys :: "dict \<Rightarrow> string list \<Rightarrow> bool" where
  "has_keys d ks \<longleftrightarrow> list_all (\<lambda>k. map_of d k \<noteq> None) ks"

definition entry_valid :: "pyval \<Rightarrow> bool" where
  "entry_valid entry \<longleftrightarrow> (case entry of
       PDict d \<Rightarrow> has_keys d [''raw_field'', ''canonical_field'', ''confidence'', ''reasoning'']
         \<and> is_int_or_float (dict_get d ''confidence'' PNone)
     | _ \<Rightarrow> False)"

definition validate_candidate_structure :: "pyval \<Rightarrow> bool" where
  "validate_candidate_structure candidate \<longleftrightarrow> (case candidate of
       PDict d \<Rightarrow>
         has_keys d [''candidate_id'', ''source_format'', ''mapped_fields'', ''unmapped_fields'']
         \<and> is_PStr (dict_get d ''candidate_id'' PNone) \<and> is_PStr (dict_get d ''source_format'' PNone)
         \<and> is_list (dict_get d ''unmapped_fields'' PNone)
         \<and> (case dict_get d ''mapped_fields'' PNone of PList xs \<Rightarrow> list_all entry_valid xs | _ \<Rightarrow> False)
     | _ \<Rightarrow> False)"

text \<open>\<open>v in registry\<close>, a set of strings: unhashable values raise.\<close>

fun in_registry :: "pyval \<Rightarrow> bool result" where
  "in_registry (PStr s) = Inr (s \<in> set CANONICAL_SCHEMA_REGISTRY)"
| "in_registry (PList _) = Inl TypeError"
| "in_registry (PDict _) = Inl TypeError"
| "in_registry _ = Inr False"

definition filter_entry :: "pyval list \<times> pyval list \<Rightarrow> pyval \<Rightarrow> (pyval list \<times> pyval list) result" where
  "filter_entry st entry = (case st of (valid, unmapped) \<Rightarrow>
     res_bind (py_get entry ''canonical_field'' (PStr [])) (\<lambda>canonical.
     res_bind (in_registry canonical) (\<lambda>known.
       if known then Inr (valid @ [entry], unmapped)
       else res_bind (py_get entry ''raw_field'' PNone) (\<lambda>raw.
         Inr (valid, if truthy raw \<and> \<not> list_ex (\<lambda>u. py_eq u raw) unmapped then unmapped @ [raw] else unmapped)))))"

definition filter_hallucinated_fields :: "dict \<Rightarrow> dict result" where
  "filter_hallucinated_fields candidate =
     res_bind (py_iter (dict_get candidate ''unmapped_fields'' (PList []))) (\<lambda>unmapped.
     res_bind (py_iter (dict_get candidate ''mapped_fields'' (PList []))) (\<lambda>entries.
     res_bind (res_foldl filter_entry ([], unmapped) entries) (\<lambda>(valid, unmapped').
       Inr (AList.update ''unmapped_fields'' (PList unmapped')
             (AList.update ''mapped_fields'' (PList valid) candidate)))))"

definition propose_mappings ::
    "(string \<Rightarrow> pyval option) \<Rightarrow> (pyval \<Rightarrow> string) \<Rightarrow> (string \<Rightarrow> string result) \<Rightarrow> string \<Rightarrow> string
     \<Rightarrow> pyval list \<Rightarrow> string \<Rightarrow> dict result" where
  "propose_mappings json_loads json_dumps generate candidate_id source_format unmapped_fields log_sample =
     res_bind (generate (json_dumps (prompt_payload candidate_id source_format unmapped_fields log_sample)))
       (\<lambda>raw_response. case json_loads raw_response of
          None \<Rightarrow> Inl (ValueError ''LLM response is not valid JSON.'')
        | Some candidate_json \<Rightarrow>
            if \<not> validate_candidate_structure candidate_json
            then Inl (ValueError ''LLM candidate output failed structural schema validation.'')
            else (case candidate_json of
                    PDict d \<Rightarrow> filter_hallucinated_fields d
                  | _ \<Rightarrow> Inl AttributeError))"

section \<open>The filter\<close>

definition entry_target :: "pyval \<Rightarrow> pyval" where
  "entry_target entry = (case entry of PDict d \<Rightarrow> dict_get d ''canonical_field'' (PStr []) | _ \<Rightarrow> PNone)"

definition targets_registered :: "pyval list \<Rightarrow> bool" where
  "targets_registered es \<longleftrightarrow> list_all (\<lambda>e. entry_target e \<in> PStr ` set CANONICAL_SCHEMA_REGISTRY) es"

lemma in_registry_True: "in_registry v = Inr True \<longleftrightarrow> v \<in> PStr ` set CANONICAL_SCHEMA_REGISTRY"
  by (cases v) auto

lemma filter_entry_step:
  assumes "filter_entry (v, u) e = Inr (v', u')"
  shows "targets_registered v \<Longrightarrow> targets_registered v'" and "set u \<subseteq> set u'"
    and "set v' \<subseteq> insert e (set v)" "set v \<subseteq> set v'"
    and "e \<in> set v' \<or> entry_target e \<notin> PStr ` set CANONICAL_SCHEMA_REGISTRY"
proof -
  obtain d where e: "e = PDict d" using assms by (cases e) (auto simp: filter_entry_def)
  let ?t = "dict_get d ''canonical_field'' (PStr [])"
  obtain b where b: "in_registry ?t = Inr b" using assms by (auto simp: e filter_entry_def result_simps)
  show "targets_registered v \<Longrightarrow> targets_registered v'" "set u \<subseteq> set u'"
    "set v' \<subseteq> insert e (set v)" "set v \<subseteq> set v'" "e \<in> set v' \<or> entry_target e \<notin> PStr ` set CANONICAL_SCHEMA_REGISTRY"
    using assms b in_registry_True [of ?t]
    by (auto simp: e filter_entry_def targets_registered_def entry_target_def split: if_splits)
qed

lemma filter_fold:
  assumes "res_foldl filter_entry (v, u) es = Inr (v', u')"
  shows "(targets_registered v \<longrightarrow> targets_registered v') \<and> set u \<subseteq> set u' \<and> set v' \<subseteq> set v \<union> set es
    \<and> set v \<subseteq> set v'
    \<and> (\<forall>e\<in>set es. entry_target e \<in> PStr ` set CANONICAL_SCHEMA_REGISTRY \<longrightarrow> e \<in> set v')"
  using assms
proof (induction es arbitrary: v u)
  case (Cons e es)
  then obtain v1 u1 where s: "filter_entry (v, u) e = Inr (v1, u1)" and r: "res_foldl filter_entry (v1, u1) es = Inr (v', u')"
    by (auto simp: result_simps)
  from Cons.IH [OF r] filter_entry_step [OF s] show ?case by auto
qed simp

section \<open>Escaping\<close>

definition escape_char :: "char \<Rightarrow> string" where
  "escape_char c = (if c = backslash then [backslash, backslash] else if c = dquote then [backslash, dquote]
     else if c = nul then [] else [c])"

lemma str_replace_char: "str_replace [p] r s = concat (map (\<lambda>c. if c = p then r else [c]) s)"
  by (induction s) (simp_all add: str_startswith_def)

lemma special_chars: "backslash \<noteq> dquote" "backslash \<noteq> nul" "dquote \<noteq> nul"
  by (simp_all add: backslash_def dquote_def nul_def)

lemma sanitize_eq: "sanitize_untrusted_input s = concat (map escape_char s)"
proof -
  have "str_replace [nul] [] (str_replace [dquote] [backslash, dquote] (str_replace [backslash] [backslash, backslash] s))
      = concat (map escape_char s)"
    unfolding str_replace_char
    by (induction s) (auto simp: escape_char_def special_chars special_chars [symmetric])
  then show ?thesis by (cases "s = []") (simp_all add: sanitize_untrusted_input_def)
qed

fun unescape :: "string \<Rightarrow> string" where
  "unescape [] = []"
| "unescape [c] = [c]"
| "unescape (c # d # s) = (if c = backslash then d # unescape s else c # unescape (d # s))"

lemma unescape_plain: "c \<noteq> backslash \<Longrightarrow> unescape (c # s) = c # unescape s"
  by (cases s) simp_all

lemma unescape_sanitize: "unescape (concat (map escape_char s)) = filter (\<lambda>c. c \<noteq> nul) s"
  by (induction s) (auto simp: escape_char_def special_chars special_chars [symmetric] unescape_plain)

section \<open>The offline provider\<close>

definition raw_of :: "pyval \<Rightarrow> pyval" where
  "raw_of p = (case p of PDict d \<Rightarrow> dict_get d ''raw_field'' PNone | _ \<Rightarrow> p)"

lemma registered_targets:
  "''src.ip'' \<in> set CANONICAL_SCHEMA_REGISTRY" "''dest.ip'' \<in> set CANONICAL_SCHEMA_REGISTRY"
  "''event.action'' \<in> set CANONICAL_SCHEMA_REGISTRY"
  by code_simp+

lemma proposal_valid:
  "t \<in> set CANONICAL_SCHEMA_REGISTRY \<Longrightarrow> entry_valid (proposal raw t q w)
     \<and> entry_target (proposal raw t q w) \<in> PStr ` set CANONICAL_SCHEMA_REGISTRY
     \<and> raw_of (proposal raw t q w) = PStr raw"
  by (simp add: proposal_def entry_valid_def entry_target_def has_keys_def dict_get_def raw_of_def)

lemma mock_target_valid:
  assumes "mock_target raw = Some p"
  shows "entry_valid p \<and> entry_target p \<in> PStr ` set CANONICAL_SCHEMA_REGISTRY \<and> raw_of p = PStr raw"
proof -
  obtain t q w where "p = proposal raw t q w" "t \<in> set CANONICAL_SCHEMA_REGISTRY"
    using assms registered_targets by (auto simp: mock_target_def Let_def split: if_splits)
  then show ?thesis using proposal_valid by blast
qed

lemma mock_fold:
  "res_foldl mock_item (m, r) (map PStr fs) =
     Inr (m @ List.map_filter mock_target fs, r @ map PStr (filter (\<lambda>f. mock_target f = None) fs))"
  by (induction fs arbitrary: m r)
    (auto simp: mock_item_def mock_raw_field_def List.map_filter_simps split: option.splits)

lemma map_filter_set: "set (List.map_filter f xs) = {y. \<exists>x\<in>set xs. f x = Some y}"
  by (force simp: List.map_filter_def)

section \<open>Properties\<close>

lemma propose_mappings_Inr:
  assumes "propose_mappings json_loads json_dumps generate cid fmt unmapped sample = Inr candidate"
  shows "\<exists>d. validate_candidate_structure (PDict d) \<and> filter_hallucinated_fields d = Inr candidate"
proof -
  obtain resp where "(case json_loads resp of
        None \<Rightarrow> Inl (ValueError ''LLM response is not valid JSON.'')
      | Some c \<Rightarrow> if \<not> validate_candidate_structure c
          then Inl (ValueError ''LLM candidate output failed structural schema validation.'')
          else (case c of PDict d \<Rightarrow> filter_hallucinated_fields d | _ \<Rightarrow> Inl AttributeError)) = Inr candidate"
    using assms unfolding propose_mappings_def res_bind_Inr_iff by blast
  then obtain c where v: "validate_candidate_structure c"
    and f: "(case c of PDict d \<Rightarrow> filter_hallucinated_fields d | _ \<Rightarrow> Inl AttributeError) = Inr candidate"
    by (cases "json_loads resp") (simp_all split: if_splits)
  from v obtain d where "c = PDict d" by (cases c) (simp_all add: validate_candidate_structure_def)
  with v f show ?thesis by auto
qed

text \<open>
  C27. No invented targets: whatever the provider answers, a proposal that is returned has the
  required structure, and every mapping in it points to a field of the canonical registry.
\<close>

theorem proposals_canonical:
  assumes "propose_mappings json_loads json_dumps generate cid fmt unmapped sample = Inr candidate"
  shows "\<exists>es us. map_of candidate ''mapped_fields'' = Some (PList es) \<and> list_all entry_valid es
    \<and> targets_registered es \<and> map_of candidate ''unmapped_fields'' = Some (PList us)"
proof -
  obtain d where v: "validate_candidate_structure (PDict d)" and f: "filter_hallucinated_fields d = Inr candidate"
    using propose_mappings_Inr [OF assms] by blast
  obtain es where es: "dict_get d ''mapped_fields'' (PList []) = PList es" "list_all entry_valid es"
    using v by (cases "map_of d ''mapped_fields''"; cases "the (map_of d ''mapped_fields'')")
      (simp_all add: validate_candidate_structure_def has_keys_def dict_get_def)
  obtain un es' us where r: "res_foldl filter_entry ([], un) es = Inr (es', us)"
    and c: "candidate = AList.update ''unmapped_fields'' (PList us) (AList.update ''mapped_fields'' (PList es') d)"
    using f es by (auto simp: filter_hallucinated_fields_def result_simps)
  have "set es' \<subseteq> set es" "targets_registered es'"
    using filter_fold [OF r] by (simp_all add: targets_registered_def)
  then show ?thesis using es(2) by (auto simp: c dict_simps list_all_iff)
qed

text \<open>
  Escaping is reversible: the sanitised sample holds no NUL, and removing one level of
  escapes gives back the sample without its NULs, so no quote of the sample ends the string.
\<close>

theorem sanitize_reversible:
  "nul \<notin> set (sanitize_untrusted_input s)
   \<and> unescape (sanitize_untrusted_input s) = filter (\<lambda>c. c \<noteq> nul) s"
proof -
  have "nul \<notin> set (concat (map escape_char s))"
    by (induction s) (auto simp: escape_char_def special_chars [symmetric])
  then show ?thesis by (simp add: sanitize_eq unescape_sanitize)
qed

text \<open>
  The offline provider answers for every field: when reading inverts writing for the prompt
  and the answer, a proposal is returned, and each field given by name is either the raw field of
  a mapping in it or listed as unmapped.
\<close>

theorem mock_answers_every_field:
  assumes "payload = prompt_payload cid fmt (map PStr fs) sample"
    and "json_loads (json_dumps payload) = Some payload"
    and "\<And>r. mock_response payload = Inr r \<Longrightarrow> json_loads (json_dumps r) = Some r"
  shows "\<exists>candidate es us.
    propose_mappings json_loads json_dumps (mock_generate json_loads json_dumps) cid fmt (map PStr fs) sample = Inr candidate
    \<and> map_of candidate ''mapped_fields'' = Some (PList es) \<and> map_of candidate ''unmapped_fields'' = Some (PList us)
    \<and> (\<forall>f\<in>set fs. PStr f \<in> raw_of ` set es \<or> PStr f \<in> set us)"
proof -
  define ms us where "ms = List.map_filter mock_target fs"
    and "us = map PStr (filter (\<lambda>f. mock_target f = None) fs)"
  let ?d = "[(''candidate_id'', PStr cid), (''source_format'', PStr fmt), (''mapped_fields'', PList ms),
      (''unmapped_fields'', PList us)]"
  have r: "mock_response payload = Inr (PDict ?d)"
    by (simp add: assms(1) mock_response_def prompt_payload_def dict_get_def mock_fold ms_def us_def)
  have ms: "entry_valid p \<and> entry_target p \<in> PStr ` set CANONICAL_SCHEMA_REGISTRY" if "p \<in> set ms" for p
    using that mock_target_valid by (auto simp: ms_def map_filter_set)
  then have v: "validate_candidate_structure (PDict ?d)"
    by (simp add: validate_candidate_structure_def has_keys_def dict_get_def list_all_iff)
  have gen: "mock_generate json_loads json_dumps (json_dumps payload) = Inr (json_dumps (PDict ?d))"
    using assms(2) by (simp add: mock_generate_def r)
  have kept: "res_foldl filter_entry (v, us) xs = Inr (v @ xs, us)" if "set xs \<subseteq> set ms" for v xs
    using that
  proof (induction xs arbitrary: v)
    case (Cons p xs)
    then obtain d where p: "p = PDict d" "dict_get d ''canonical_field'' (PStr []) \<in> PStr ` set CANONICAL_SCHEMA_REGISTRY"
      using ms [of p] by (cases p) (auto simp: entry_valid_def entry_target_def)
    then have "filter_entry (v, us) p = Inr (v @ [p], us)"
      by (auto simp: filter_entry_def)
    with Cons show ?case by simp
  qed simp
  have "propose_mappings json_loads json_dumps (mock_generate json_loads json_dumps) cid fmt (map PStr fs) sample
      = filter_hallucinated_fields ?d"
    using v assms(3) [OF r] gen by (simp add: propose_mappings_def flip: assms(1))
  also have "\<dots> = Inr ?d"
    using kept [of ms "[]"] by (simp add: filter_hallucinated_fields_def dict_get_def)
  finally have "propose_mappings json_loads json_dumps (mock_generate json_loads json_dumps) cid fmt (map PStr fs) sample = Inr ?d" .
  moreover have "PStr f \<in> raw_of ` set ms \<or> PStr f \<in> set us" if "f \<in> set fs" for f
  proof (cases "mock_target f")
    case (Some p)
    then have "p \<in> set ms" "raw_of p = PStr f" using that mock_target_valid [OF Some] by (auto simp: ms_def map_filter_set)
    then show ?thesis by (metis image_eqI)
  qed (use that in \<open>simp add: us_def\<close>)
  ultimately show ?thesis by (intro exI [of _ ?d] exI [of _ ms] exI [of _ us]) simp
qed

section \<open>Witnesses\<close>

definition one_payload :: pyval where
  "one_payload = prompt_payload ''c'' ''json'' (map PStr [''SrcIp'', ''x'']) ''log''"

definition one_response :: pyval where
  "one_response = (case mock_response one_payload of Inr r \<Rightarrow> r | Inl e \<Rightarrow> PNone)"

definition one_dumps :: "pyval \<Rightarrow> string" where
  "one_dumps v = (if v = one_payload then ''p'' else ''r'')"

definition one_loads :: "string \<Rightarrow> pyval option" where
  "one_loads s = (if s = ''p'' then Some one_payload else Some one_response)"

lemma one_codec:
  "one_loads (one_dumps one_payload) = Some one_payload"
  "mock_response one_payload = Inr r \<Longrightarrow> one_loads (one_dumps r) = Some r"
proof -
  show "one_loads (one_dumps one_payload) = Some one_payload" by (simp add: one_loads_def one_dumps_def)
  assume r: "mock_response one_payload = Inr r"
  then have "r = one_response" by (simp add: one_response_def)
  then show "one_loads (one_dumps r) = Some r" by (simp add: one_loads_def one_dumps_def)
qed

theorem mock_answers_every_field_witness:
  "\<exists>candidate. propose_mappings one_loads one_dumps (mock_generate one_loads one_dumps) ''c'' ''json''
     (map PStr [''SrcIp'', ''x'']) ''log'' = Inr candidate"
  using mock_answers_every_field [OF one_payload_def one_codec] by blast

lemma one_proposal:
  "(case propose_mappings one_loads one_dumps (mock_generate one_loads one_dumps) ''c'' ''json''
     (map PStr [''SrcIp'', ''x'']) ''log'' of Inl e \<Rightarrow> False | Inr c \<Rightarrow> True)"
  by code_simp

theorem proposals_canonical_witness:
  "\<exists>candidate es. propose_mappings one_loads one_dumps (mock_generate one_loads one_dumps) ''c'' ''json''
     (map PStr [''SrcIp'', ''x'']) ''log'' = Inr candidate
     \<and> map_of candidate ''mapped_fields'' = Some (PList es) \<and> targets_registered es"
proof -
  obtain c where "propose_mappings one_loads one_dumps (mock_generate one_loads one_dumps) ''c'' ''json''
     (map PStr [''SrcIp'', ''x'']) ''log'' = Inr c"
    using one_proposal by (auto split: sum.splits)
  with proposals_canonical [OF this] show ?thesis by blast
qed

end
