(* ===== verification/Orchestrator.thy ===== *)
theory Orchestrator
  imports Profiler Mapper Assist
begin

text \<open>
  The onboarding pipeline, \<open>ml/orchestrator/orchestrator.py\<close>: profile the lines, map the
  fields, escalate what is not accepted to the assistant, and assemble the package for the
  compiler. The pipeline reads the outcome of the mapper with \<open>getattr\<close> and a default, so an
  attribute that \<open>SourceMappingReport\<close> does not have reads as the empty list.
\<close>

section \<open>Definitions\<close>

text \<open>The attributes of a \<open>SourceMappingReport\<close>: its fields and its methods.\<close>

definition report_attributes :: "string list" where
  "report_attributes = [''source_id'', ''event_family'', ''mappings'', ''summary'', ''to_dict'', ''to_json'']"

definition report_getattr :: "SourceMappingReport \<Rightarrow> string \<Rightarrow> pyval list \<Rightarrow> pyval list result" where
  "report_getattr r name dflt = (if name \<in> set report_attributes then Inl OutsideModel else Inr dflt)"

text \<open>\<open>str(profile.format)\<close> of a member of an enumeration.\<close>

definition format_text :: "LogFormat \<Rightarrow> string" where
  "format_text f = ''LogFormat.'' @ LogFormat_value f"

record parser_spec_package =
  ps_source_id :: string
  ps_status :: string
  ps_detected_format :: string
  ps_deterministic_mappings :: "pyval list"
  ps_escalated_fields :: "pyval list"
  ps_ai_candidate_specs :: "dict list"
  ps_total_fields :: nat
  ps_auto_accepted_count :: nat
  ps_escalated_count :: nat

definition escalate ::
    "(string \<Rightarrow> pyval option) \<Rightarrow> (pyval \<Rightarrow> string) \<Rightarrow> (string \<Rightarrow> string result) \<Rightarrow> string \<Rightarrow> string
     \<Rightarrow> string list \<Rightarrow> pyval list \<Rightarrow> dict list result" where
  "escalate json_loads json_dumps generate source_id detected_format log_lines escalated =
     (if escalated = [] then Inr []
      else res_bind (propose_mappings json_loads json_dumps generate (''cand_'' @ source_id) detected_format escalated
             (str_join [char_of (10 :: nat)] (take 5 log_lines))) (\<lambda>spec. Inr [spec]))"

definition run_pipeline ::
    "(string \<Rightarrow> pyval option) \<Rightarrow> (pyval \<Rightarrow> string) \<Rightarrow> (string \<Rightarrow> string result) \<Rightarrow> nat \<Rightarrow> CanonicalKnowledgeBase
     \<Rightarrow> string \<Rightarrow> string list \<Rightarrow> parser_spec_package result" where
  "run_pipeline json_loads json_dumps generate sample_limit kb source_id log_lines =
     (if log_lines = [] then Inl (ValueError ''log_lines list cannot be empty.'')
      else res_bind (profile_list json_loads sample_limit log_lines) (\<lambda>profile.
        let profiled_fields = sp_fields profile;
            detected_format = format_text (sp_format profile);
            mapping_result = map_fields kb profiled_fields None None 3
        in res_bind (report_getattr mapping_result ''auto_accept'' []) (\<lambda>auto_accepted.
           res_bind (report_getattr mapping_result ''human_review'' []) (\<lambda>human_review.
           res_bind (report_getattr mapping_result ''abstained'' []) (\<lambda>abstained.
           let escalated = human_review @ abstained
           in res_bind (escalate json_loads json_dumps generate source_id detected_format log_lines escalated)
             (\<lambda>specs. Inr \<lparr>ps_source_id = source_id,
                ps_status = (if escalated \<noteq> [] then ''READY_FOR_REVIEW'' else ''AUTO_APPROVED''),
                ps_detected_format = detected_format, ps_deterministic_mappings = auto_accepted,
                ps_escalated_fields = escalated, ps_ai_candidate_specs = specs,
                ps_total_fields = length profiled_fields, ps_auto_accepted_count = length auto_accepted,
                ps_escalated_count = length escalated\<rparr>))))))"

section \<open>Properties\<close>

lemma report_lacks:
  "report_getattr r ''auto_accept'' d = Inr d" "report_getattr r ''human_review'' d = Inr d"
  "report_getattr r ''abstained'' d = Inr d"
  by (simp_all add: report_getattr_def report_attributes_def)

text \<open>
  C28. The pipeline never escalates: for every source whose lines can be profiled, whatever the
  mapper decided about its fields, the package is approved automatically, without a mapping,
  without an escalated field and without a call of the assistant; it raises exactly when there
  are no lines or the profiler raises.
\<close>

theorem onboarding_approves_everything:
  "run_pipeline json_loads json_dumps generate sample_limit kb sid lines =
     (if lines = [] then Inl (ValueError ''log_lines list cannot be empty.'')
      else res_bind (profile_list json_loads sample_limit lines) (\<lambda>profile.
        Inr \<lparr>ps_source_id = sid, ps_status = ''AUTO_APPROVED'',
             ps_detected_format = ''LogFormat.'' @ LogFormat_value (sp_format profile),
             ps_deterministic_mappings = [], ps_escalated_fields = [], ps_ai_candidate_specs = [],
             ps_total_fields = length (sp_fields profile), ps_auto_accepted_count = 0,
             ps_escalated_count = 0\<rparr>))"
  by (simp add: run_pipeline_def report_lacks escalate_def format_text_def)

end
