(* ===== verification/LoadGen.thy ===== *)
theory LoadGen
  imports PyFloat
begin

text \<open>
  The load generator, \<open>ml/benchmark/load_generator.py\<close>: an index that advances with every event
  selects a template and its fields. \<open>str.format\<close> is modelled for what the templates use: literal
  text, doubled braces, and named fields without a format or with \<open>02d\<close>. Streams are the list of
  what they yield with the sleep that follows each yield; \<open>time.perf_counter()\<close> is a parameter,
  its reading number \<open>n\<close>. The batch loop need not end, so it is a partial function: \<open>None\<close> is a
  stream that is never exhausted.
\<close>

section \<open>Format strings\<close>

datatype segment = Lit string | Field string string

function parse_template :: "string \<Rightarrow> segment list result" where
  "parse_template [] = Inr []"
| "parse_template (c # s) =
     (if c = CHR ''{'' then
        (if s \<noteq> [] \<and> hd s = CHR ''{'' then res_bind (parse_template (tl s)) (\<lambda>r. Inr (Lit [c] # r))
         else if CHR ''}'' \<in> set s then
           let field = takeWhile (\<lambda>x. x \<noteq> CHR ''}'') s; rest = tl (dropWhile (\<lambda>x. x \<noteq> CHR ''}'') s);
               name = takeWhile (\<lambda>x. x \<noteq> CHR '':'') field
           in res_bind (parse_template rest) (\<lambda>r. Inr (Field name (tl (dropWhile (\<lambda>x. x \<noteq> CHR '':'') field)) # r))
         else Inl (ValueError ''expected }''))
      else if c = CHR ''}'' then
        (if s \<noteq> [] \<and> hd s = CHR ''}'' then res_bind (parse_template (tl s)) (\<lambda>r. Inr (Lit [c] # r))
         else Inl (ValueError ''Single } encountered in format string''))
      else res_bind (parse_template s) (\<lambda>r. Inr (Lit [c] # r)))"
  by pat_completeness auto
termination
proof (relation "measure length")
  fix c :: char and s field rest :: string
  assume "rest = tl (dropWhile (\<lambda>x. x \<noteq> CHR ''}'') s)"
  then show "(rest, c # s) \<in> measure length"
    using length_dropWhile_le [of "\<lambda>x. x \<noteq> CHR ''}''" s] by simp
qed auto

definition format_field :: "int \<Rightarrow> string \<Rightarrow> string result" where
  "format_field v spec =
     (if spec = [] then Inr (show_int v)
      else if spec = ''02d'' then Inr (if 0 \<le> v \<and> v < 10 then CHR ''0'' # show_int v else show_int v)
      else Inl OutsideModel)"

definition render_segment :: "(string \<times> int) list \<Rightarrow> segment \<Rightarrow> string result" where
  "render_segment args seg = (case seg of
       Lit t \<Rightarrow> Inr t
     | Field name spec \<Rightarrow> (case map_of args name of None \<Rightarrow> Inl (KeyError name) | Some v \<Rightarrow> format_field v spec))"

definition str_format :: "string \<Rightarrow> (string \<times> int) list \<Rightarrow> string result" where
  "str_format tpl args =
     res_bind (parse_template tpl) (\<lambda>segs. res_bind (res_map (render_segment args) segs) (\<lambda>parts. Inr (concat parts)))"

section \<open>Templates\<close>

definition CEF_TEMPLATES :: "string list" where
  \<open>CEF_TEMPLATES = [
     ''CEF:0|PaloAltoNetworks|PAN-OS|10.1.0|TRAFFIC|traffic|1|src=192.168.1.{i} dst=10.0.0.{j} spt={spt} dpt=443 proto=tcp act=allow cn1=4520 cs1=corp-web'',
     ''CEF:0|CheckPoint|VPN-1|R81|Accept|1|src=10.10.1.{i} dst=172.16.0.{j} spt={spt} dpt=80 proto=tcp act=allow msg=connection_accepted'',
     ''CEF:0|CrowdStrike|Falcon|6.30|Alert|5|src=192.168.100.{i} dst=1.1.1.1 spt={spt} dpt=53 proto=udp act=block msg=DNS_Tunneling_Detected'',
     ''CEF:0|Fortinet|FortiGate|7.0|deny|2|src=172.20.1.{i} dst=192.168.2.{j} spt={spt} dpt=22 proto=tcp act=deny msg=SSH_BruteForce'']\<close>

definition SYSLOG_TEMPLATES :: "string list" where
  \<open>SYSLOG_TEMPLATES = [
     ''<134>1 2026-09-19T00:00:{sec:02d}Z perimeter-gw-01 sshd 12401 ID47 [auth user=admin src_ip=192.168.1.{i} port={spt}] Accepted publickey for admin'',
     ''<14>1 2026-09-19T00:00:{sec:02d}Z core-switch-02 kernel - - [net src=10.1.1.{i} dst=10.2.2.{j} proto=UDP len=64] Packet dropped by ACL'',
     ''<86>1 2026-09-19T00:00:{sec:02d}Z waf-node-03 nginx 8421 - [http status=403 method=GET path=/api/v1/auth client=192.168.50.{i}] WAF signature match 941100'']\<close>

definition KV_TEMPLATES :: "string list" where
  \<open>KV_TEMPLATES = [
     ''timestamp=2026-09-19T00:00:{sec:02d}Z vendor=Fortinet devname=FGT-HQ action=deny srcip=10.0.1.{i} dstip=192.168.1.{j} srcport={spt} dstport=443 proto=6 service=HTTPS duration=12 sentbyte=1400 rcvdbyte=0'',
     ''timestamp=2026-09-19T00:00:{sec:02d}Z vendor=PaloAlto type=THREAT subtype=vulnerability src=192.168.10.{i} dst=10.10.0.{j} sport={spt} dport=8080 proto=tcp action=reset-both threat=SQLi'',
     ''timestamp=2026-09-19T00:00:{sec:02d}Z vendor=CiscoASA tag=ASA-6-302013 built inbound TCP connection src=172.16.1.{i}:{spt} dst=10.0.0.{j}:443 action=permit'']\<close>

definition JSON_TEMPLATES :: "string list" where
  \<open>JSON_TEMPLATES = [
     ''{{"timestamp":"2026-09-19T00:00:{sec:02d}Z","source":"aws.cloudtrail","event_name":"ConsoleLogin","user_identity":{{"type":"IAMUser","user_name":"secops-{i}"}},"source_ip_address":"198.51.100.{i}","response_elements":{{"ConsoleLogin":"Success"}},"status":"ALLOW"}}'',
     ''{{"timestamp":"2026-09-19T00:00:{sec:02d}Z","source":"okta","action":"user.authentication.auth_via_mfa","actor":{{"alternate_id":"user{i}@corp.local"}},"client":{{"ip":"203.0.113.{i}"}},"outcome":{{"result":"SUCCESS"}}}}'']\<close>

section \<open>The generator\<close>

record LoadGenerator =
  lg_format_type :: string
  lg_custom_corpus :: "string list"
  lg_index :: int

definition new_generator :: "string \<Rightarrow> string list option \<Rightarrow> LoadGenerator" where
  "new_generator format_type custom_corpus =
     \<lparr>lg_format_type = str_lower format_type,
      lg_custom_corpus = (case custom_corpus of None \<Rightarrow> [] | Some c \<Rightarrow> c), lg_index = 0\<rparr>"

text \<open>The templates of a format, and whether they take the field \<open>sec\<close>.\<close>

definition templates_of :: "string \<Rightarrow> string list \<times> bool" where
  "templates_of format_type =
     (if format_type = ''cef'' then (CEF_TEMPLATES, False)
      else if format_type = ''syslog'' then (SYSLOG_TEMPLATES, True)
      else if format_type \<in> set [''kv'', ''key_value''] then (KV_TEMPLATES, True)
      else if format_type = ''json'' then (JSON_TEMPLATES, True)
      else (KV_TEMPLATES, True))"

definition field_values :: "int \<Rightarrow> (string \<times> int) list" where
  "field_values idx = [(''i'', idx mod 250 + 1), (''j'', (idx div 250) mod 250 + 1), (''spt'', 1024 + idx mod 60000)]"

definition synthesize :: "string \<Rightarrow> int \<Rightarrow> string result" where
  "synthesize format_type idx =
     (case templates_of format_type of (tpls, with_sec) \<Rightarrow>
        str_format (tpls ! nat (idx mod int (length tpls)))
          (field_values idx @ (if with_sec then [(''sec'', idx mod 60)] else [])))"

definition generate_single :: "int option \<Rightarrow> LoadGenerator \<Rightarrow> (string \<times> LoadGenerator) result" where
  "generate_single index g =
     (let idx = (case index of None \<Rightarrow> lg_index g | Some n \<Rightarrow> n); g' = g\<lparr>lg_index := lg_index g + 1\<rparr>
      in if lg_custom_corpus g \<noteq> []
         then Inr (lg_custom_corpus g ! nat (idx mod int (length (lg_custom_corpus g))), g')
         else res_bind (synthesize (lg_format_type g) idx) (\<lambda>ev. Inr (ev, g')))"

fun generate_n :: "nat \<Rightarrow> LoadGenerator \<Rightarrow> (string list \<times> LoadGenerator) result" where
  "generate_n 0 g = Inr ([], g)"
| "generate_n (Suc n) g = res_bind (generate_single None g) (\<lambda>(ev, g').
     res_bind (generate_n n g') (\<lambda>(evs, g''). Inr (ev # evs, g'')))"

definition generate_batch :: "int \<Rightarrow> LoadGenerator \<Rightarrow> (string list \<times> LoadGenerator) result" where
  "generate_batch count g = generate_n (nat count) g"

text \<open>\<open>not pacing_eps or pacing_eps <= 0\<close>\<close>

definition unpaced :: "rat option \<Rightarrow> bool" where
  "unpaced pacing = (case pacing of None \<Rightarrow> True | Some p \<Rightarrow> p \<le> 0)"

text \<open>What is slept until the target of step \<open>n\<close>, given the reading of the clock there.\<close>

definition pause :: "rat \<Rightarrow> rat \<Rightarrow> nat \<Rightarrow> rat \<Rightarrow> rat option" where
  "pause start interval n now =
     (let remaining = fl (fl (start + fl (fl (of_nat n) * interval)) - now) in if 0 < remaining then Some remaining else None)"

fun stream_from :: "(nat \<Rightarrow> rat) \<Rightarrow> rat option \<Rightarrow> nat \<Rightarrow> nat \<Rightarrow> LoadGenerator
    \<Rightarrow> ((string \<times> rat option) list \<times> LoadGenerator) result" where
  "stream_from perf interval idx 0 g = Inr ([], g)"
| "stream_from perf interval idx (Suc n) g =
     res_bind (generate_single (Some (int idx)) g) (\<lambda>(ev, g').
       let slept = (case interval of None \<Rightarrow> None | Some i \<Rightarrow> pause (perf 0) i (idx + 1) (perf (idx + 1)))
       in res_bind (stream_from perf interval (idx + 1) n g') (\<lambda>(evs, g''). Inr ((ev, slept) # evs, g'')))"

definition stream_events :: "(nat \<Rightarrow> rat) \<Rightarrow> int \<Rightarrow> rat option \<Rightarrow> LoadGenerator
    \<Rightarrow> ((string \<times> rat option) list \<times> LoadGenerator) result" where
  "stream_events perf count pacing g =
     stream_from perf (if unpaced pacing then None else map_option (\<lambda>p. fl (1 / p)) pacing) 0 (nat count) g"

text \<open>The loop of \<open>stream_batches\<close>, from the batch with number \<open>k\<close> on.\<close>

partial_function (option) batch_loop ::
    "(nat \<Rightarrow> rat) \<Rightarrow> rat option \<Rightarrow> int \<Rightarrow> nat \<Rightarrow> int \<Rightarrow> LoadGenerator
     \<Rightarrow> (((string list \<times> rat option) list \<times> LoadGenerator) result) option" where
  "batch_loop perf interval batch_size k remaining g =
     (if remaining \<le> 0 then Some (Inr ([], g))
      else case generate_batch (min batch_size remaining) g of
             Inl e \<Rightarrow> Some (Inl e)
           | Inr bg \<Rightarrow>
               Option.bind (batch_loop perf interval batch_size (k + 1) (remaining - min batch_size remaining) (snd bg))
                 (\<lambda>rest. Some (res_bind rest (\<lambda>r.
                    let slept = (case interval of None \<Rightarrow> None | Some i \<Rightarrow> pause (perf 0) i (k + 1) (perf (k + 1)))
                    in Inr ((fst bg, slept) # fst r, snd r)))))"

definition stream_batches ::
    "(nat \<Rightarrow> rat) \<Rightarrow> int \<Rightarrow> int \<Rightarrow> rat option \<Rightarrow> LoadGenerator
     \<Rightarrow> (((string list \<times> rat option) list \<times> LoadGenerator) result) option" where
  "stream_batches perf total_events batch_size pacing g =
     batch_loop perf (if unpaced pacing then None else map_option (\<lambda>p. fl (fl (of_int batch_size) / p)) pacing)
       batch_size 0 total_events g"

section \<open>Lemmas\<close>

fun segment_ok :: "string list \<Rightarrow> segment \<Rightarrow> bool" where
  "segment_ok names (Lit t) = True"
| "segment_ok names (Field name spec) = (name \<in> set names \<and> (spec = [] \<or> spec = ''02d''))"

definition template_ok :: "string list \<Rightarrow> string \<Rightarrow> bool" where
  "template_ok names t = (case parse_template t of Inl e \<Rightarrow> False | Inr segs \<Rightarrow> list_all (segment_ok names) segs)"

lemma templates_ok:
  "list_all (template_ok [''i'', ''j'', ''spt'']) CEF_TEMPLATES"
  "list_all (template_ok [''i'', ''j'', ''spt'', ''sec'']) SYSLOG_TEMPLATES"
  "list_all (template_ok [''i'', ''j'', ''spt'', ''sec'']) KV_TEMPLATES"
  "list_all (template_ok [''i'', ''j'', ''spt'', ''sec'']) JSON_TEMPLATES"
  by code_simp+

lemma render_segment_total:
  "segment_ok names seg \<Longrightarrow> set names \<subseteq> fst ` set args \<Longrightarrow> \<exists>t. render_segment args seg = Inr t"
  by (cases seg) (auto simp: render_segment_def format_field_def map_of_eq_None_iff split: option.split)

lemma render_segments_total:
  "list_all (segment_ok names) segs \<Longrightarrow> set names \<subseteq> fst ` set args
   \<Longrightarrow> \<exists>ts. res_map (render_segment args) segs = Inr ts"
proof (induction segs)
  case (Cons seg segs)
  then show ?case using render_segment_total [of names seg args] by fastforce
qed simp

lemma str_format_total:
  assumes "template_ok names t" "set names \<subseteq> fst ` set args"
  shows "\<exists>s. str_format t args = Inr s"
  using assms render_segments_total [of names _ args]
  by (fastforce simp: template_ok_def str_format_def split: sum.splits)

lemma list_all_nth_mod: "list_all P xs \<Longrightarrow> xs \<noteq> [] \<Longrightarrow> P (xs ! nat (n mod int (length xs)))"
  by (simp add: list_all_length nat_less_iff)

lemma synthesize_total: "\<exists>s. synthesize format_type idx = Inr s"
proof -
  obtain tpls sec where t: "templates_of format_type = (tpls, sec)" by (cases "templates_of format_type")
  define names where "names = (if sec then [''i'', ''j'', ''spt'', ''sec''] else [''i'', ''j'', ''spt''])"
  have "list_all (template_ok names) tpls"
    using t templates_ok by (auto simp: templates_of_def names_def split: if_splits)
  moreover have "tpls \<noteq> []"
    using t by (auto simp: templates_of_def CEF_TEMPLATES_def SYSLOG_TEMPLATES_def KV_TEMPLATES_def
        JSON_TEMPLATES_def split: if_splits)
  ultimately have "template_ok names (tpls ! nat (idx mod int (length tpls)))" by (rule list_all_nth_mod)
  then show ?thesis
    unfolding synthesize_def t by (auto simp: names_def field_values_def intro!: str_format_total)
qed

text \<open>The event with index \<open>idx\<close>, which depends on the configuration alone.\<close>

definition event_at :: "LoadGenerator \<Rightarrow> int \<Rightarrow> string" where
  "event_at g idx =
     (if lg_custom_corpus g \<noteq> [] then lg_custom_corpus g ! nat (idx mod int (length (lg_custom_corpus g)))
      else case synthesize (lg_format_type g) idx of Inl e \<Rightarrow> [] | Inr s \<Rightarrow> s)"

lemma generate_single_event:
  "generate_single index g = Inr (event_at g (case index of None \<Rightarrow> lg_index g | Some n \<Rightarrow> n), g\<lparr>lg_index := lg_index g + 1\<rparr>)"
  using synthesize_total [of "lg_format_type g" "case index of None \<Rightarrow> lg_index g | Some n \<Rightarrow> n"]
  by (auto simp: generate_single_def event_at_def Let_def)

lemma event_at_index [simp]: "event_at (g\<lparr>lg_index := n\<rparr>) = event_at g"
  by (simp add: event_at_def fun_eq_iff)

lemma generate_n_events:
  "generate_n n g = Inr (map (\<lambda>k. event_at g (lg_index g + int k)) [0..<n], g\<lparr>lg_index := lg_index g + int n\<rparr>)"
proof (induction n arbitrary: g)
  case (Suc n)
  have "map (\<lambda>k. event_at g (lg_index g + 1 + int k)) [0..<n] = map (\<lambda>k. event_at g (lg_index g + int k)) [1..<Suc n]"
    by (rule nth_equalityI) (simp_all del: upt_Suc add: algebra_simps)
  then show ?case by (simp add: Suc.IH generate_single_event upt_conv_Cons del: upt_Suc)
qed simp

lemma generate_batch_events:
  "generate_batch n g = Inr (map (\<lambda>k. event_at g (lg_index g + int k)) [0..<nat n], g\<lparr>lg_index := lg_index g + int (nat n)\<rparr>)"
  by (simp add: generate_batch_def generate_n_events)

lemma events_append:
  "map (\<lambda>k. event_at g (i + int k)) [0..<m] @ map (\<lambda>k. event_at g (i + int m + int k)) [0..<n]
   = map (\<lambda>k. event_at g (i + int k)) [0..<m + n]"
  by (rule nth_equalityI) (auto simp: nth_append algebra_simps)

lemma batch_loop_exhausts:
  assumes "0 < bsz"
  shows "\<exists>bs. batch_loop perf interval bsz k remaining g = Some (Inr (bs, g\<lparr>lg_index := lg_index g + int (nat remaining)\<rparr>))
     \<and> concat (map fst bs) = map (\<lambda>k. event_at g (lg_index g + int k)) [0..<nat remaining]
     \<and> list_all (\<lambda>b. 1 \<le> length (fst b) \<and> int (length (fst b)) \<le> bsz) bs"
proof (induction "nat remaining" arbitrary: k remaining g rule: less_induct)
  case less
  show ?case
  proof (cases "remaining \<le> 0")
    case True
    then show ?thesis by (subst batch_loop.simps) simp
  next
    case False
    define m where "m = min bsz remaining"
    define g' where "g' = g\<lparr>lg_index := lg_index g + int (nat m)\<rparr>"
    have m: "0 < m" "m \<le> remaining" "m \<le> bsz" using False assms by (simp_all add: m_def)
    have "nat (remaining - m) < nat remaining" using m by simp
    from less [OF this, of "k + 1" g'] obtain bs where bs:
      "batch_loop perf interval bsz (k + 1) (remaining - m) g' = Some (Inr (bs, g'\<lparr>lg_index := lg_index g' + int (nat (remaining - m))\<rparr>))"
      "concat (map fst bs) = map (\<lambda>k. event_at g' (lg_index g' + int k)) [0..<nat (remaining - m)]"
      "list_all (\<lambda>b. 1 \<le> length (fst b) \<and> int (length (fst b)) \<le> bsz) bs" by blast
    have sum: "nat m + nat (remaining - m) = nat remaining" using m by simp
    have "batch_loop perf interval bsz k remaining g
        = Some (Inr ((map (\<lambda>k. event_at g (lg_index g + int k)) [0..<nat m],
            case interval of None \<Rightarrow> None | Some i \<Rightarrow> pause (perf 0) i (k + 1) (perf (k + 1))) # bs,
            g\<lparr>lg_index := lg_index g + int (nat remaining)\<rparr>))"
      using False m bs(1) by (subst batch_loop.simps) (simp add: generate_batch_events flip: m_def g'_def, simp add: g'_def)
    moreover have "map (\<lambda>k. event_at g (lg_index g + int k)) [0..<nat m] @ concat (map fst bs)
        = map (\<lambda>k. event_at g (lg_index g + int k)) [0..<nat remaining]"
      using events_append [of g "lg_index g" "nat m" "nat (remaining - m)"] unfolding bs(2) sum by (simp add: g'_def)
    ultimately show ?thesis using m bs(3) by (simp add: nat_le_iff)
  qed
qed

lemma batch_loop_stuck:
  "batch_loop perf interval bsz k remaining g = Some r \<Longrightarrow> bsz \<le> 0 \<longrightarrow> remaining \<le> 0"
proof (rule batch_loop.raw_induct [where P = "\<lambda>perf interval bsz k remaining g r. bsz \<le> 0 \<longrightarrow> remaining \<le> 0"])
  fix loop :: "(nat \<Rightarrow> rat) \<Rightarrow> rat option \<Rightarrow> int \<Rightarrow> nat \<Rightarrow> int \<Rightarrow> LoadGenerator
     \<Rightarrow> (((string list \<times> rat option) list \<times> LoadGenerator) result) option"
  fix perf :: "nat \<Rightarrow> rat" and interval bsz k remaining g r
  assume IH: "\<And>perf interval bsz k remaining g r. loop perf interval bsz k remaining g = Some r \<Longrightarrow> bsz \<le> 0 \<longrightarrow> remaining \<le> 0"
    and body: "(if remaining \<le> 0 then Some (Inr ([], g))
      else case generate_batch (min bsz remaining) g of
             Inl e \<Rightarrow> Some (Inl e)
           | Inr bg \<Rightarrow>
               Option.bind (loop perf interval bsz (k + 1) (remaining - min bsz remaining) (snd bg))
                 (\<lambda>rest. Some (res_bind rest (\<lambda>r.
                    let slept = (case interval of None \<Rightarrow> None | Some i \<Rightarrow> pause (perf 0) i (k + 1) (perf (k + 1)))
                    in Inr ((fst bg, slept) # fst r, snd r))))) = Some r"
  show "bsz \<le> 0 \<longrightarrow> remaining \<le> 0"
  proof (intro impI, rule ccontr)
    assume b: "bsz \<le> 0" and r: "\<not> remaining \<le> 0"
    with body obtain rest where
      "loop perf interval bsz (k + 1) (remaining - min bsz remaining) (snd ([], g\<lparr>lg_index := lg_index g + 0\<rparr>)) = Some rest"
      by (auto simp: generate_batch_events bind_eq_Some_conv)
    from IH [OF this] b r show False by auto
  qed
qed

section \<open>Properties\<close>

text \<open>
  C35. Batching neither loses nor repeats an event, and ends: with a positive batch size, paced or
  not, the stream is exhausted after batches of at most that size, none empty, which together are
  the events of one call of \<open>generate_batch\<close> and leave the generator in the same state. With a
  batch size that is not positive it ends only when no event is asked for; otherwise it yields
  empty batches for ever.
\<close>

theorem stream_batches_exhausted:
  "if total_events \<le> 0 \<or> 0 < batch_size
   then \<exists>bs g'. stream_batches perf total_events batch_size pacing g = Some (Inr (bs, g'))
     \<and> generate_batch total_events g = Inr (concat (map fst bs), g')
     \<and> list_all (\<lambda>b. 1 \<le> length (fst b) \<and> int (length (fst b)) \<le> batch_size) bs
   else stream_batches perf total_events batch_size pacing g = None"
proof -
  consider "total_events \<le> 0" | "0 < batch_size" | "0 < total_events" "batch_size \<le> 0" by linarith
  then show ?thesis
  proof cases
    case 1
    then show ?thesis
      unfolding stream_batches_def by (subst batch_loop.simps) (simp add: generate_batch_events)
  next
    case 2
    define interval where "interval = (if unpaced pacing then None else map_option (\<lambda>p. fl (fl (of_int batch_size) / p)) pacing)"
    from batch_loop_exhausts [OF 2, of perf interval 0 total_events g] obtain bs where
      "batch_loop perf interval batch_size 0 total_events g = Some (Inr (bs, g\<lparr>lg_index := lg_index g + int (nat total_events)\<rparr>))"
      "concat (map fst bs) = map (\<lambda>k. event_at g (lg_index g + int k)) [0..<nat total_events]"
      "list_all (\<lambda>b. 1 \<le> length (fst b) \<and> int (length (fst b)) \<le> batch_size) bs" by blast
    then show ?thesis
      unfolding stream_batches_def interval_def [symmetric] using 2 by (simp add: generate_batch_events)
  next
    case 3
    then have "stream_batches perf total_events batch_size pacing g = None"
      unfolding stream_batches_def using batch_loop_stuck by (metis not_None_eq not_le)
    with 3 show ?thesis by simp
  qed
qed

end
