(* ===== verification/RingBuffer.thy ===== *)
theory RingBuffer
  imports PyStr PyFloat
begin

text \<open>
  The in-memory event buffer of the daemon, class \<open>EventRingBuffer\<close> of \<open>scripts/cli.py\<close>: a
  \<open>deque\<close> with \<open>maxlen\<close> and three counters that survive the eviction of events. Every method of
  the source holds one lock while it touches the state, so each is one step here. The clock
  reading and \<open>json.dumps\<close> are parameters. The interface \<open>bounded_log\<close> is what a bounded
  buffer promises: it holds the last events of everything that was pushed.
\<close>

section \<open>Definitions\<close>

text \<open>\<open>deque(maxlen=n).append(x)\<close>\<close>

definition deque_append :: "nat \<Rightarrow> 'a \<Rightarrow> 'a list \<Rightarrow> 'a list" where
  "deque_append maxlen x d = drop (Suc (length d) - maxlen) (d @ [x])"

record EventRingBuffer =
  rb_capacity :: nat
  rb_buffer :: "dict list"
  rb_total_ingested :: nat
  rb_bytes_ingested :: int
  rb_quarantined :: nat
  rb_start_time :: rat

definition new_buffer :: "nat \<Rightarrow> rat \<Rightarrow> EventRingBuffer" where
  "new_buffer capacity now = \<lparr>rb_capacity = capacity, rb_buffer = [], rb_total_ingested = 0,
     rb_bytes_ingested = 0, rb_quarantined = 0, rb_start_time = now\<rparr>"

text \<open>\<open>len(s.encode("utf-8"))\<close> for code points below 256\<close>

definition utf8_length :: "string \<Rightarrow> int" where
  "utf8_length s = sum_list (map (\<lambda>c. if (of_char c :: nat) < 128 then 1 else 2) s)"

text \<open>What an event adds to the byte counter; a float would make the counter a float.\<close>

definition event_length :: "dict \<Rightarrow> int result" where
  "event_length event = (case map_of event ''raw_length_bytes'' of
       None \<Rightarrow> Inr (utf8_length (py_str (PDict event)))
     | Some v \<Rightarrow> (case v of
         PInt n \<Rightarrow> Inr n
       | PBool b \<Rightarrow> Inr (if b then 1 else 0)
       | PFloat x \<Rightarrow> Inl OutsideModel
       | PNonFinite f \<Rightarrow> Inl OutsideModel
       | _ \<Rightarrow> Inl TypeError))"

definition event_quarantined :: "dict \<Rightarrow> bool" where
  "event_quarantined event \<longleftrightarrow> dict_get event ''ingest_status'' PNone = PStr ''QUARANTINED''"

text \<open>
  \<open>append\<close>: an event whose length is no number raises after it was stored and counted, so the
  state is part of the outcome.
\<close>

definition rb_append :: "dict \<Rightarrow> EventRingBuffer \<Rightarrow> EventRingBuffer \<times> exn option" where
  "rb_append event r =
     (let r1 = r\<lparr>rb_buffer := deque_append (rb_capacity r) event (rb_buffer r),
                 rb_total_ingested := rb_total_ingested r + 1\<rparr>
      in case event_length event of
           Inl e \<Rightarrow> (r1, Some e)
         | Inr n \<Rightarrow> (r1\<lparr>rb_bytes_ingested := rb_bytes_ingested r1 + n,
                       rb_quarantined := rb_quarantined r1 + (if event_quarantined event then 1 else 0)\<rparr>, None))"

text \<open>\<open>items[-limit:] if limit > 0 else items\<close>\<close>

definition get_recent :: "int \<Rightarrow> EventRingBuffer \<Rightarrow> dict list" where
  "get_recent limit r =
     (if limit > 0 then drop (length (rb_buffer r) - nat limit) (rb_buffer r) else rb_buffer r)"

definition snapshot :: "(pyval \<Rightarrow> string) \<Rightarrow> EventRingBuffer \<Rightarrow> string \<times> nat" where
  "snapshot json_dumps r =
     (concat (map (\<lambda>item. json_dumps (PDict item) @ [char_of (10 :: nat)]) (rb_buffer r)), length (rb_buffer r))"

definition rb_clear :: "EventRingBuffer \<Rightarrow> EventRingBuffer" where
  "rb_clear r = r\<lparr>rb_buffer := []\<rparr>"

record ring_stats =
  st_events_received :: nat
  st_bytes_ingested :: int
  st_quarantined :: nat
  st_ring_buffer_count :: nat
  st_ring_buffer_capacity :: nat
  st_eps_rate :: rat
  st_dps_ratio :: rat

definition rb_stats :: "rat \<Rightarrow> EventRingBuffer \<Rightarrow> ring_stats" where
  "rb_stats now r =
     (let elapsed = max 1 (fl (now - rb_start_time r));
          eps = fl (fl (of_nat (rb_total_ingested r)) / elapsed)
      in \<lparr>st_events_received = rb_total_ingested r, st_bytes_ingested = rb_bytes_ingested r,
          st_quarantined = rb_quarantined r, st_ring_buffer_count = length (rb_buffer r),
          st_ring_buffer_capacity = rb_capacity r, st_eps_rate = py_round eps 2, st_dps_ratio = 1\<rparr>)"

section \<open>Bounded logs\<close>

definition last_n :: "nat \<Rightarrow> 'a list \<Rightarrow> 'a list" where
  "last_n n xs = drop (length xs - n) xs"

lemma length_last_n [simp]: "length (last_n n xs) = min n (length xs)"
  by (simp add: last_n_def min_def)

lemma last_n_last_n: "last_n m (last_n n xs) = last_n (min m n) xs"
  by (cases "m \<le> n"; cases "length xs \<le> n") (simp_all add: last_n_def)

lemma last_n_push: "last_n n (last_n n xs @ [x]) = last_n n (xs @ [x])"
proof (cases "length xs \<le> n")
  case True
  then show ?thesis by (simp add: last_n_def)
next
  case False
  then have "Suc (length xs) - n = Suc (length xs - n)" by simp
  with False show ?thesis by (cases n) (simp_all add: last_n_def)
qed

lemma last_n_Nil [simp]: "last_n n [] = []"
  by (simp add: last_n_def)

lemma suffix_last_n: "suffix (last_n n xs) xs"
  by (simp add: last_n_def suffix_drop)

locale bounded_log =
  fixes cap :: nat and push :: "'a \<Rightarrow> 'b \<Rightarrow> 'b" and items :: "'b \<Rightarrow> 'a list"
  assumes items_push: "items (push x b) = last_n cap (items b @ [x])"
begin

lemma pushed: "items b = last_n cap h \<Longrightarrow> items (push x b) = last_n cap (h @ [x])"
  by (simp add: items_push last_n_push)

lemma items_fold: "items b = last_n cap h \<Longrightarrow> items (fold push xs b) = last_n cap (h @ xs)"
proof (induction xs arbitrary: b h)
  case (Cons x xs)
  from Cons.IH [OF pushed [OF Cons.prems]] show ?case by simp
qed simp

lemma bounded: "items b = last_n cap h \<Longrightarrow> length (items b) \<le> cap"
  by simp

end

interpretation deque: bounded_log n "deque_append n" "\<lambda>d. d" for n
  by unfold_locales (simp add: deque_append_def last_n_def)

section \<open>The buffer as a log\<close>

datatype ring_op = Append_event dict | Clear_buffer

definition rb_step :: "EventRingBuffer \<Rightarrow> ring_op \<Rightarrow> EventRingBuffer" where
  "rb_step r op' = (case op' of Append_event e \<Rightarrow> fst (rb_append e r) | Clear_buffer \<Rightarrow> rb_clear r)"

text \<open>The specification: the events since the last clear, and all events ever appended.\<close>

definition log_step :: "dict list \<Rightarrow> ring_op \<Rightarrow> dict list" where
  "log_step h op' = (case op' of Append_event e \<Rightarrow> h @ [e] | Clear_buffer \<Rightarrow> [])"

definition appended :: "ring_op list \<Rightarrow> dict list" where
  "appended ops = concat (map (\<lambda>op'. case op' of Append_event e \<Rightarrow> [e] | Clear_buffer \<Rightarrow> []) ops)"

definition measurable :: "dict \<Rightarrow> bool" where
  "measurable e \<longleftrightarrow> (case event_length e of Inl _ \<Rightarrow> False | Inr _ \<Rightarrow> True)"

definition length_or_zero :: "dict \<Rightarrow> int" where
  "length_or_zero e = (case event_length e of Inl _ \<Rightarrow> 0 | Inr n \<Rightarrow> n)"

lemma op_cases [simp]:
  "rb_step r (Append_event e) = fst (rb_append e r)" "rb_step r Clear_buffer = rb_clear r"
  "log_step h (Append_event e) = h @ [e]" "log_step h Clear_buffer = []"
  "appended [] = []" "appended (Append_event e # ops) = e # appended ops"
  "appended (Clear_buffer # ops) = appended ops"
  by (simp_all add: rb_step_def log_step_def appended_def)

lemma rb_append_fields:
  fixes e r
  defines "r' \<equiv> fst (rb_append e r)"
  shows "rb_buffer r' = deque_append (rb_capacity r) e (rb_buffer r)" "rb_capacity r' = rb_capacity r"
    "rb_total_ingested r' = rb_total_ingested r + 1"
    "rb_bytes_ingested r' = rb_bytes_ingested r + length_or_zero e"
    "rb_quarantined r' = rb_quarantined r + (if measurable e \<and> event_quarantined e then 1 else 0)"
    "rb_start_time r' = rb_start_time r"
  by (simp_all add: r'_def rb_append_def Let_def length_or_zero_def measurable_def split: sum.splits)

lemma rb_append_completes: "snd (rb_append e r) = None \<longleftrightarrow> measurable e"
  by (simp add: rb_append_def measurable_def Let_def split: sum.splits)

lemma rb_step_fields:
  "rb_capacity (rb_step r op') = rb_capacity r" "rb_start_time (rb_step r op') = rb_start_time r"
  by (cases op', simp_all add: rb_append_fields rb_clear_def)+

lemma rb_run_capacity: "rb_capacity (foldl rb_step r ops) = rb_capacity r"
  by (induction ops arbitrary: r) (simp_all add: rb_step_fields)

lemma rb_run_buffer:
  "rb_buffer r = last_n (rb_capacity r) h
   \<Longrightarrow> rb_buffer (foldl rb_step r ops) = last_n (rb_capacity r) (foldl log_step h ops)"
proof (induction ops arbitrary: r h)
  case (Cons op' ops)
  have "rb_buffer (rb_step r op') = last_n (rb_capacity r) (log_step h op')"
    by (cases op') (simp_all add: rb_append_fields rb_clear_def deque.pushed [OF Cons.prems])
  with Cons.IH [of "rb_step r op'"] show ?case by (simp add: rb_step_fields)
qed simp

lemma rb_run_counters:
  "rb_total_ingested (foldl rb_step r ops) = rb_total_ingested r + length (appended ops)
   \<and> rb_bytes_ingested (foldl rb_step r ops) = rb_bytes_ingested r + sum_list (map length_or_zero (appended ops))
   \<and> rb_quarantined (foldl rb_step r ops)
     = rb_quarantined r + length (filter (\<lambda>e. measurable e \<and> event_quarantined e) (appended ops))"
proof (induction ops arbitrary: r)
  case (Cons op' ops)
  show ?case
    by (cases op') (simp_all add: Cons.IH rb_append_fields rb_clear_def)
qed simp

section \<open>Properties\<close>

text \<open>
  C30. The buffer refines an unbounded log: whatever the order of appends and clears, it holds the
  last \<open>capacity\<close> events since the last clear, \<open>get_recent\<close> returns the last of those for a
  positive limit and all of them otherwise, and the counters count every event ever appended,
  also the evicted, the cleared and the ones whose length raised.
\<close>

theorem ring_refines_log:
  fixes ops capacity start limit
  defines "r \<equiv> foldl rb_step (new_buffer capacity start) ops"
  shows "rb_buffer r = last_n capacity (foldl log_step [] ops)
    \<and> get_recent limit r = last_n (if 0 < limit then min (nat limit) capacity else capacity) (foldl log_step [] ops)
    \<and> rb_total_ingested r = length (appended ops)
    \<and> rb_bytes_ingested r = sum_list (map length_or_zero (appended ops))
    \<and> rb_quarantined r = length (filter (\<lambda>e. measurable e \<and> event_quarantined e) (appended ops))"
proof -
  have b: "rb_buffer r = last_n capacity (foldl log_step [] ops)"
    using rb_run_buffer [of "new_buffer capacity start" "[]" ops] by (simp add: r_def new_buffer_def)
  have "get_recent limit r = last_n (if 0 < limit then min (nat limit) capacity else capacity) (foldl log_step [] ops)"
    using last_n_last_n [of "nat limit" capacity "foldl log_step [] ops"]
    by (simp add: get_recent_def b last_n_def)
  with b show ?thesis
    using rb_run_counters [of "new_buffer capacity start" ops] by (simp add: r_def new_buffer_def)
qed

end
