(* ===== verification/EventExport.thy ===== *)
theory EventExport
  imports LoadGen RingBuffer Runner PyConv
begin

text \<open>
  Normalised events and their export, from \<open>scripts/cli.py\<close> with the sample specifications of
  \<open>ml/benchmark/run_bench.py\<close>: ULIDs, the normalised event of a parsed line, batches of them, and
  the three sinks text, NDJSON and CSV. The clock, \<open>random.choice\<close>, SHA-256, \<open>json.loads\<close> and
  \<open>json.dumps\<close> are parameters; \<open>csv.writer\<close> is modelled in its default dialect.
\<close>

section \<open>ULIDs\<close>

definition ULID_ENCODING :: string where
  "ULID_ENCODING = ''0123456789ABCDEFGHJKMNPQRSTVWXYZ''"

text \<open>\<open>int(c, 32)\<close> for one character of the alphabet: digits and the letters to \<open>V\<close>.\<close>

definition int_base32 :: "char \<Rightarrow> int result" where
  "int_base32 c = (let n = (of_char c :: nat) in
     if is_digit c then Inr (int n - 48)
     else if 65 \<le> n \<and> n \<le> 86 then Inr (int n - 55)
     else Inl (ValueError [c]))"

definition time_char :: "int \<Rightarrow> nat \<Rightarrow> char" where
  "time_char t_ms i = ULID_ENCODING ! nat (t_ms div 2 ^ (5 * i) mod 32)"

text \<open>The choice number \<open>k\<close> of \<open>random.choice\<close> is the element at \<open>pick k\<close>, modulo the length.\<close>

definition generate_contract_ulid :: "int \<Rightarrow> (nat \<Rightarrow> nat) \<Rightarrow> string result" where
  "generate_contract_ulid t_ms pick =
     (let time_chars = map (time_char t_ms) (rev [0..<10]);
          rand_chars = map (\<lambda>k. ULID_ENCODING ! (pick k mod length ULID_ENCODING)) [0..<16]
      in res_bind (if hd time_chars \<in> set ULID_ENCODING
                   then res_bind (int_base32 (hd time_chars)) (\<lambda>n. Inr (show_int (n mod 8))) else Inr ''0'')
           (\<lambda>first. Inr (first @ tl time_chars @ rand_chars)))"

section \<open>Normalised events\<close>

definition SAMPLE_CEF_SPEC :: dict where
  "SAMPLE_CEF_SPEC =
     [(''schema_version'', PStr ''1.0''),
      (''parser'', PDict [(''id'', PStr ''paloalto.panos.cef''), (''version'', PStr ''10.1.0'')]),
      (''match'', PDict [(''format'', PStr ''cef'')]),
      (''fields'', PDict [
        (''src'', PDict [(''map_to'', PStr ''source.ip''), (''type'', PStr ''ipv4'')]),
        (''dst'', PDict [(''map_to'', PStr ''destination.ip''), (''type'', PStr ''ipv4'')]),
        (''spt'', PDict [(''map_to'', PStr ''source.port''), (''type'', PStr ''integer'')]),
        (''dpt'', PDict [(''map_to'', PStr ''destination.port''), (''type'', PStr ''integer'')]),
        (''act'', PDict [(''map_to'', PStr ''event.action''),
           (''enum'', PDict [(''allow'', PStr ''allowed''), (''block'', PStr ''blocked'')])])])]"

definition SAMPLE_KV_SPEC :: dict where
  "SAMPLE_KV_SPEC =
     [(''schema_version'', PStr ''1.0''),
      (''parser'', PDict [(''id'', PStr ''fortinet.fgt.traffic''), (''version'', PStr ''7.0.0'')]),
      (''match'', PDict [(''format'', PStr ''kv'')]),
      (''fields'', PDict [
        (''srcip'', PDict [(''map_to'', PStr ''source.ip''), (''type'', PStr ''ipv4'')]),
        (''dstip'', PDict [(''map_to'', PStr ''destination.ip''), (''type'', PStr ''ipv4'')]),
        (''srcport'', PDict [(''map_to'', PStr ''source.port''), (''type'', PStr ''integer'')]),
        (''dstport'', PDict [(''map_to'', PStr ''destination.port''), (''type'', PStr ''integer'')]),
        (''action'', PDict [(''map_to'', PStr ''event.action''),
           (''enum'', PDict [(''deny'', PStr ''blocked''), (''permit'', PStr ''allowed'')])])])]"

text \<open>\<open>str(parsed.get("event.action", "allowed")).lower()\<close>, anything but the two verdicts is allowed.\<close>

definition action_of :: "dict \<Rightarrow> string" where
  "action_of parsed =
     (let action = str_lower (py_str (dict_get parsed ''event.action'' (PStr ''allowed'')))
      in if action \<notin> set [''allowed'', ''blocked''] then ''allowed'' else action)"

definition outcome_of :: "string \<Rightarrow> string" where
  "outcome_of action = (if action = ''allowed'' then ''success'' else ''failure'')"

definition port_of :: "dict \<Rightarrow> string \<Rightarrow> int \<Rightarrow> int result" where
  "port_of parsed key dflt = (case py_int (dict_get parsed key (PInt dflt)) of
       Inr n \<Rightarrow> Inr n
     | Inl (ValueError _) \<Rightarrow> Inr dflt
     | Inl TypeError \<Rightarrow> Inr dflt
     | Inl e \<Rightarrow> Inl e)"

text \<open>The entries from \<open>schema_version\<close> to \<open>raw\<close>, and the quality section.\<close>

definition event_head ::
    "string \<Rightarrow> string \<Rightarrow> string \<Rightarrow> string \<times> string \<times> string \<Rightarrow> pyval \<times> int \<Rightarrow> pyval \<times> int \<Rightarrow> string \<Rightarrow> string \<Rightarrow> dict" where
  "event_head ulid action time producer src dst ref sha =
     (case producer of (vendor, product, parser_id) \<Rightarrow>
       [(''schema_version'', PStr ''1.0''), (''event_id'', PStr ulid),
        (''event'', PDict [(''class'', PStr ''NETWORK_CONNECTION''), (''action'', PStr action),
           (''outcome'', PStr (outcome_of action)), (''time'', PStr time)]),
        (''source'', PDict [(''vendor'', PStr vendor), (''product'', PStr product), (''device_id'', PStr ''gw-perimeter-01'')]),
        (''src'', PDict [(''ip'', fst src), (''port'', PInt (snd src))]),
        (''dst'', PDict [(''ip'', fst dst), (''port'', PInt (snd dst))]),
        (''network'', PDict [(''protocol'', PStr ''tcp'')]),
        (''parser'', PDict [(''id'', PStr parser_id), (''version'', PStr ''1.0.0'')]),
        (''raw'', PDict [(''ref'', PStr ref), (''sha256'', PStr sha)])])"

definition verified_quality :: pyval where
  "verified_quality = PDict [(''mapping_score'', PFloat (fl (99 / 100))), (''status'', PStr ''VERIFIED'')]"

definition parsed_head ::
    "string \<Rightarrow> string \<Rightarrow> string \<times> string \<times> string \<Rightarrow> string \<Rightarrow> string \<Rightarrow> dict \<Rightarrow> dict result" where
  "parsed_head ulid time producer ref sha parsed =
     res_bind (port_of parsed ''source.port'' 49152) (\<lambda>s_port.
     res_bind (port_of parsed ''destination.port'' 443) (\<lambda>d_port.
       Inr (event_head ulid (action_of parsed) time producer
              (dict_get parsed ''source.ip'' (PStr ''192.168.1.100''), s_port)
              (dict_get parsed ''destination.ip'' (PStr ''10.0.0.1''), d_port) ref sha)))"

definition extensions_of :: "dict \<Rightarrow> pyval" where
  "extensions_of parsed = dict_get parsed ''unknown_fields'' (PDict [])"

text \<open>What a batch and the daemon read from outside: hash, clock and choices of each event.\<close>

record export_env =
  ee_json_loads :: "string \<Rightarrow> pyval option"
  ee_sha256 :: "string \<Rightarrow> string"
  ee_ms :: "nat \<Rightarrow> int"
  ee_pick :: "nat \<Rightarrow> nat \<Rightarrow> nat"
  ee_now :: "nat \<Rightarrow> datetime"

definition batch_producer :: "string \<Rightarrow> string \<times> string \<times> string" where
  "batch_producer format_type =
     (if format_type = ''cef'' then (''palo_alto'', ''panos'', ''paloalto.panos.cef'')
      else (''fortinet'', ''fortigate'', ''fortinet.fgt.traffic''))"

definition normalize_raw :: "export_env \<Rightarrow> string \<Rightarrow> nat \<times> string \<Rightarrow> dict result" where
  "normalize_raw env format_type entry = (case entry of (k, raw) \<Rightarrow>
     res_bind (generate_contract_ulid (ee_ms env k) (ee_pick env k)) (\<lambda>ulid.
     res_bind (parse_event (ee_json_loads env) (if format_type = ''cef'' then SAMPLE_CEF_SPEC else SAMPLE_KV_SPEC) (PStr raw)) (\<lambda>parsed.
     res_bind (parsed_head ulid (strftime_z (ee_now env 0)) (batch_producer format_type)
                 (''raw/2026/09/26/'' @ ulid) (ee_sha256 env raw) parsed) (\<lambda>head.
       Inr (head @ [(''quality'', verified_quality), (''extensions'', extensions_of parsed)])))))"

definition generate_normalized_batch :: "export_env \<Rightarrow> int \<Rightarrow> string \<Rightarrow> dict list result" where
  "generate_normalized_batch env count format_type =
     res_bind (generate_batch count (new_generator format_type None)) (\<lambda>(raws, _).
       res_map (normalize_raw env format_type) (enumerate 0 raws))"

text \<open>The event the daemon and the observer build for one generated line.\<close>

definition live_event :: "export_env \<Rightarrow> nat \<Rightarrow> string \<Rightarrow> dict result" where
  "live_event env k raw =
     res_bind (generate_contract_ulid (ee_ms env k) (ee_pick env k)) (\<lambda>ulid.
     res_bind (parse_event (ee_json_loads env) SAMPLE_CEF_SPEC (PStr raw)) (\<lambda>parsed.
     res_bind (parsed_head ulid (strftime_z (ee_now env k)) (''palo_alto'', ''panos'', ''paloalto.panos.cef'')
                 (''raw/2026/09/28/'' @ ulid) (ee_sha256 env raw) parsed) (\<lambda>head.
       Inr (head @ [(''raw_length_bytes'', PInt (utf8_length raw)), (''quality'', verified_quality),
                    (''dps'', PFloat 1), (''ingest_status'', PStr ''ACCEPTED''), (''extensions'', extensions_of parsed)]))))"

section \<open>Sinks\<close>

text \<open>\<open>ev[a][b]\<close>, and the slice \<open>v[:n]\<close> of a text.\<close>

definition py_path :: "dict \<Rightarrow> string list \<Rightarrow> pyval result" where
  "py_path ev ks = res_foldl py_index (PDict ev) ks"

fun py_prefix :: "nat \<Rightarrow> pyval \<Rightarrow> pyval result" where
  "py_prefix n (PStr s) = Inr (PStr (take n s))"
| "py_prefix n (PList xs) = Inr (PList (take n xs))"
| "py_prefix n _ = Inl TypeError"

fun py_upper :: "pyval \<Rightarrow> string result" where
  "py_upper (PStr s) = Inr (str_upper s)"
| "py_upper _ = Inl AttributeError"

definition CSV_COLUMNS :: "(string \<times> string list) list" where
  "CSV_COLUMNS = [
     (''timestamp'', [''event'', ''time'']), (''event_id'', [''event_id'']), (''event_class'', [''event'', ''class'']),
     (''event_action'', [''event'', ''action'']), (''outcome'', [''event'', ''outcome'']),
     (''source_vendor'', [''source'', ''vendor'']), (''source_product'', [''source'', ''product'']),
     (''src_ip'', [''src'', ''ip'']), (''src_port'', [''src'', ''port'']), (''dst_ip'', [''dst'', ''ip'']),
     (''dst_port'', [''dst'', ''port'']), (''protocol'', [''network'', ''protocol'']), (''parser_id'', [''parser'', ''id'']),
     (''raw_sha256'', [''raw'', ''sha256'']), (''mapping_score'', [''quality'', ''mapping_score''])]"

text \<open>
  \<open>csv.writer\<close>: a field is quoted when it holds the delimiter, a quote or a line break, its quotes
  are doubled, \<open>None\<close> is written empty, and a row ends with CR LF.
\<close>

definition csv_special :: "char \<Rightarrow> bool" where
  "csv_special c \<longleftrightarrow> c = CHR '','' \<or> c = dquote \<or> c = newline \<or> c = creturn"

definition write_field :: "string \<Rightarrow> string" where
  "write_field f =
     (if list_ex csv_special f
      then dquote # concat (map (\<lambda>c. if c = dquote then [dquote, dquote] else [c]) f) @ [dquote] else f)"

definition field_text :: "pyval \<Rightarrow> string" where
  "field_text v = (if v = PNone then [] else py_str v)"

definition write_row :: "string list \<Rightarrow> string" where
  "write_row fs = (if fs = [[]] then [dquote, dquote] else str_join '','' (map write_field fs)) @ [creturn, newline]"

definition csv_fields :: "dict \<Rightarrow> pyval list result" where
  "csv_fields ev = res_map (\<lambda>col. py_path ev (snd col)) CSV_COLUMNS"

definition text_line :: "dict \<Rightarrow> string result" where
  "text_line ev =
     res_bind (py_path ev [''event'', ''time'']) (\<lambda>time.
     res_bind (py_path ev [''event_id'']) (\<lambda>ident.
     res_bind (res_bind (py_path ev [''event'', ''action'']) py_upper) (\<lambda>action.
     res_bind (py_path ev [''src'', ''ip'']) (\<lambda>s_ip. res_bind (py_path ev [''src'', ''port'']) (\<lambda>s_port.
     res_bind (py_path ev [''dst'', ''ip'']) (\<lambda>d_ip. res_bind (py_path ev [''dst'', ''port'']) (\<lambda>d_port.
     res_bind (py_path ev [''network'', ''protocol'']) (\<lambda>proto.
     res_bind (res_bind (py_path ev [''raw'', ''sha256'']) (py_prefix 16)) (\<lambda>sha.
       Inr (''['' @ py_str time @ ''] ID='' @ py_str ident @ '' ACTION='' @ action
            @ '' SRC='' @ py_str s_ip @ '':'' @ py_str s_port @ '' DST='' @ py_str d_ip @ '':'' @ py_str d_port
            @ '' PROTO='' @ py_str proto @ '' SHA256='' @ py_str sha @ ''... DPS=1.00''))))))))))"

definition format_event_content :: "(pyval \<Rightarrow> string) \<Rightarrow> dict list \<Rightarrow> string \<Rightarrow> string result" where
  "format_event_content json_dumps events fmt =
     (if fmt = ''ndjson'' then
        Inr (str_join [newline] (map (\<lambda>ev. json_dumps (PDict ev)) events) @ [newline])
      else if fmt = ''csv'' then
        res_bind (res_map csv_fields events) (\<lambda>rows.
          Inr (concat (map write_row (map fst CSV_COLUMNS # map (map field_text) rows))))
      else res_bind (res_map text_line events) (\<lambda>ls. Inr (str_join [newline] ls @ [newline])))"

section \<open>Lemmas on ULIDs\<close>

definition ulid_value :: "char \<Rightarrow> nat" where
  "ulid_value c = length (takeWhile (\<lambda>x. x \<noteq> c) ULID_ENCODING)"

text \<open>The class \<open>[0-9A-HJKMNP-TV-Z]\<close> of the contract.\<close>

definition ulid_char :: "char \<Rightarrow> bool" where
  "ulid_char c \<longleftrightarrow> (let n = (of_char c :: nat) in 48 \<le> n \<and> n \<le> 57
     \<or> 65 \<le> n \<and> n \<le> 90 \<and> c \<notin> set ''ILOU'')"

definition ulid_time :: "string \<Rightarrow> int" where
  "ulid_time s = foldl (\<lambda>a c. 32 * a + int (ulid_value c)) 0 (take 10 s)"

lemma all_upt: "list_all P [0..<n] \<Longrightarrow> i < n \<Longrightarrow> P i"
  by (simp add: list_all_iff)

lemma ulid_alphabet:
  assumes "i < 32"
  shows "ulid_value (ULID_ENCODING ! i) = i" "ulid_char (ULID_ENCODING ! i)" "ULID_ENCODING ! i \<in> set ULID_ENCODING"
proof -
  have "list_all (\<lambda>i. ulid_value (ULID_ENCODING ! i) = i \<and> ulid_char (ULID_ENCODING ! i)
     \<and> ULID_ENCODING ! i \<in> set ULID_ENCODING) [0..<32]" by code_simp
  from all_upt [OF this assms] show "ulid_value (ULID_ENCODING ! i) = i" "ulid_char (ULID_ENCODING ! i)"
    "ULID_ENCODING ! i \<in> set ULID_ENCODING" by auto
qed

lemma ulid_first_digit:
  assumes "i < 32"
  shows "int_base32 (ULID_ENCODING ! i) = (if i < 28 then int_base32 (ULID_ENCODING ! i) else Inl (ValueError [ULID_ENCODING ! i]))"
    and "i < 28 \<Longrightarrow> \<exists>n. int_base32 (ULID_ENCODING ! i) = Inr n \<and> (18 \<le> i \<or> n = int i)"
    and "i < 28 \<longleftrightarrow> (\<exists>n. int_base32 (ULID_ENCODING ! i) = Inr n)"
proof -
  have "list_all (\<lambda>i. (case int_base32 (ULID_ENCODING ! i) of
      Inl e \<Rightarrow> 28 \<le> i \<and> e = ValueError [ULID_ENCODING ! i] | Inr n \<Rightarrow> i < 28 \<and> (18 \<le> i \<or> n = int i))) [0..<32]" by code_simp
  from all_upt [OF this assms]
  show "int_base32 (ULID_ENCODING ! i) = (if i < 28 then int_base32 (ULID_ENCODING ! i) else Inl (ValueError [ULID_ENCODING ! i]))"
    and "i < 28 \<Longrightarrow> \<exists>n. int_base32 (ULID_ENCODING ! i) = Inr n \<and> (18 \<le> i \<or> n = int i)"
    and "i < 28 \<longleftrightarrow> (\<exists>n. int_base32 (ULID_ENCODING ! i) = Inr n)"
    by (auto split: sum.splits)
qed

lemma octal_digit:
  "\<exists>c. show_int (n mod 8) = [c] \<and> c \<in> set ''01234567'' \<and> int (ulid_value c) = n mod 8"
proof -
  have "list_all (\<lambda>i. (case show_int (int i) of [c] \<Rightarrow> c \<in> set ''01234567'' \<and> ulid_value c = i | _ \<Rightarrow> False)) [0..<8]"
    by code_simp
  from all_upt [OF this, of "nat (n mod 8)"] show ?thesis
    by (auto split: list.splits simp: nat_less_iff)
qed

lemma ulid_digits_value:
  "foldl (\<lambda>a c. 32 * a + int (ulid_value c)) a (map (time_char t) (rev [0..<n])) = a * 32 ^ n + t mod 32 ^ n"
proof (induction n arbitrary: a)
  case (Suc n)
  have "t mod 32 ^ Suc n = 32 ^ n * (t div 32 ^ n mod 32) + t mod 32 ^ n"
    unfolding power_Suc2 by (rule zmod_zmult2_eq) simp
  moreover have "int (ulid_value (time_char t n)) = t div 32 ^ n mod 32"
    using ulid_alphabet(1) [of "nat (t div 32 ^ n mod 32)"]
    by (simp add: time_char_def nat_less_iff power_mult)
  moreover have "(32 * a + x) * 32 ^ n + y = a * 32 ^ Suc n + (32 ^ n * x + y)" for x y :: int
    by (simp add: algebra_simps)
  ultimately show ?case by (simp add: Suc.IH del: power_Suc)
qed simp

section \<open>Reading CSV documents\<close>

text \<open>
  A reader of whole documents, independent of the writer: records end with CR LF, fields are
  separated by commas, and within quotes everything but a quote stands for itself, a doubled
  quote for one. A malformed document has no rows.
\<close>

datatype csv_point = At_field | Plain | Quoted | After_quote

fun read_csv :: "csv_point \<Rightarrow> string \<Rightarrow> string list \<Rightarrow> string \<Rightarrow> string list list option" where
  "read_csv q field row [] = (if q = At_field \<and> row = [] then Some [] else None)"
| "read_csv Quoted field row (c # s) =
     (if c = dquote then read_csv After_quote field row s else read_csv Quoted (field @ [c]) row s)"
| "read_csv q field row (c # s) =
     (if c = CHR '','' then read_csv At_field [] (row @ [field]) s
      else if c = creturn then (case s of
          d # s' \<Rightarrow> if d = newline then map_option ((#) (row @ [field])) (read_csv At_field [] [] s') else None
        | [] \<Rightarrow> None)
      else if c = dquote then (case q of
          At_field \<Rightarrow> read_csv Quoted [] row s
        | After_quote \<Rightarrow> read_csv Quoted (field @ [dquote]) row s
        | _ \<Rightarrow> None)
      else if c = newline \<or> q = After_quote then None
      else read_csv Plain (field @ [c]) row s)"

section \<open>Lemmas on CSV\<close>

lemma csv_marks: "dquote \<noteq> CHR '',''" "dquote \<noteq> newline" "dquote \<noteq> creturn" "creturn \<noteq> CHR '',''"
    "newline \<noteq> CHR '',''"
  by code_simp+

lemmas csv_marks_distinct = csv_marks csv_marks [symmetric]

lemma read_plain_chars:
  assumes "list_all (\<lambda>c. \<not> csv_special c) f"
  shows "read_csv Plain field row (f @ s) = read_csv Plain (field @ f) row s"
  using assms by (induction f arbitrary: field) (simp_all add: csv_special_def)

lemma read_quoted_chars:
  "read_csv Quoted field row (concat (map (\<lambda>c. if c = dquote then [dquote, dquote] else [c]) f) @ s)
   = read_csv Quoted (field @ f) row s"
  by (induction f arbitrary: field) (simp_all add: csv_marks_distinct)

text \<open>After a written field the reader stands behind it, whatever the field holds.\<close>

lemma read_written_field:
  "\<exists>q. q \<noteq> Quoted \<and> (\<forall>s. read_csv At_field [] row (write_field f @ s) = read_csv q f row s)"
proof (cases "list_ex csv_special f")
  case True
  then have "read_csv At_field [] row (write_field f @ s) = read_csv After_quote f row s" for s
    by (simp add: write_field_def read_quoted_chars csv_marks_distinct)
  then show ?thesis by blast
next
  case False
  then have plain: "list_all (\<lambda>c. \<not> csv_special c) f" by (simp add: list_all_iff list_ex_iff)
  show ?thesis
  proof (cases f)
    case Nil
    then show ?thesis by (intro exI [of _ At_field]) (simp add: write_field_def)
  next
    case (Cons x xs)
    with plain False have "read_csv At_field [] row (write_field f @ s) = read_csv Plain f row s" for s
      by (simp add: write_field_def csv_special_def read_plain_chars)
    then show ?thesis by blast
  qed
qed

lemma read_written_fields:
  assumes "fs \<noteq> []"
  shows "read_csv At_field [] row (str_join '','' (map write_field fs) @ creturn # newline # s)
    = map_option ((#) (row @ fs)) (read_csv At_field [] [] s)"
  using assms
proof (induction fs arbitrary: row rule: induct_list012)
  case (2 f)
  from read_written_field obtain q where "q \<noteq> Quoted"
    "\<And>s. read_csv At_field [] row (write_field f @ s) = read_csv q f row s" by blast
  then show ?case by (cases q) (simp_all add: csv_marks_distinct)
next
  case (3 f g fs)
  from read_written_field obtain q where "q \<noteq> Quoted"
    "\<And>s. read_csv At_field [] row (write_field f @ s) = read_csv q f row s" by blast
  then show ?case using 3(2) [of "row @ [f]"] by (cases q) (simp_all add: csv_marks_distinct)
qed simp

lemma read_written_row:
  assumes "fs \<noteq> []"
  shows "read_csv At_field [] [] (write_row fs @ s) = map_option ((#) fs) (read_csv At_field [] [] s)"
proof (cases "fs = [[]]")
  case True
  then show ?thesis by (simp add: write_row_def csv_marks_distinct)
qed (use read_written_fields [OF assms, of "[]"] in \<open>simp add: write_row_def\<close>)

lemma read_written_document:
  "list_all (\<lambda>fs. fs \<noteq> []) rows \<Longrightarrow> read_csv At_field [] [] (concat (map write_row rows)) = Some rows"
  by (induction rows) (simp_all add: read_written_row)

section \<open>Properties\<close>

text \<open>
  C33. ULIDs conform: the first character of an identifier is an octal digit and the other 25 are
  of the contract's class, and before the time field reaches 18 its first ten characters decode to
  the time in milliseconds modulo \<open>2^48\<close>; from 28 on, where the leading character is past the
  digits of base 32, generation raises.
\<close>

theorem ulid_contract:
  fixes t_ms pick
  defines "d \<equiv> t_ms div 2 ^ 45 mod 32"
  shows "case generate_contract_ulid t_ms pick of
      Inl e \<Rightarrow> 28 \<le> d
    | Inr s \<Rightarrow> d < 28 \<and> length s = 26 \<and> hd s \<in> set ''01234567'' \<and> list_all ulid_char (tl s)
        \<and> (18 \<le> d \<or> ulid_time s = t_ms mod 2 ^ 48)"
proof -
  have d: "nat d < 32" "0 \<le> d" by (simp_all add: d_def nat_less_iff)
  let ?c = "ULID_ENCODING ! nat d"
  let ?rest = "map (time_char t_ms) (rev [0..<9])"
  define rand where "rand = map (\<lambda>k. ULID_ENCODING ! (pick k mod length ULID_ENCODING)) [0..<16]"
  have chars: "map (time_char t_ms) (rev [0..<10]) = ?c # ?rest"
    by (simp add: time_char_def d_def numeral_eq_Suc)
  have len: "length ULID_ENCODING = 32" by code_simp
  have valid: "list_all ulid_char (?rest @ rand)"
    using ulid_alphabet(2) by (auto simp: list_all_iff time_char_def rand_def len nat_less_iff)
  show ?thesis
  proof (cases "nat d < 28")
    case False
    then have "generate_contract_ulid t_ms pick = Inl (ValueError [?c])"
      using ulid_first_digit(1) [OF d(1)] ulid_alphabet(3) [OF d(1)]
      by (simp add: generate_contract_ulid_def chars)
    with False show ?thesis by simp
  next
    case True
    from ulid_first_digit(2) [OF d(1) True] obtain n where
      n: "int_base32 ?c = Inr n" "18 \<le> nat d \<or> n = int (nat d)" by blast
    from octal_digit [of n] obtain c where
      c: "show_int (n mod 8) = [c]" "c \<in> set ''01234567''" "int (ulid_value c) = n mod 8" by blast
    have s: "generate_contract_ulid t_ms pick = Inr (c # ?rest @ rand)"
      using ulid_alphabet(3) [OF d(1)] by (simp add: generate_contract_ulid_def chars n(1) c(1) flip: rand_def)
    have "ulid_time (c # ?rest @ rand) = foldl (\<lambda>a c. 32 * a + int (ulid_value c)) (n mod 8) ?rest"
      by (simp add: ulid_time_def c(3))
    also have "\<dots> = n mod 8 * 32 ^ 9 + t_ms mod 32 ^ 9" by (rule ulid_digits_value)
    finally have v: "ulid_time (c # ?rest @ rand) = n mod 8 * 2 ^ 45 + t_ms mod 2 ^ 45" by simp
    have "t_ms mod 2 ^ 48 = 2 ^ 45 * (t_ms div 2 ^ 45 mod 8) + t_ms mod 2 ^ 45"
      using zmod_zmult2_eq [of 8 t_ms "2 ^ 45"] by simp
    moreover have "d mod 8 = t_ms div 2 ^ 45 mod 8" by (simp add: d_def mod_mod_cancel)
    ultimately have "18 \<le> d \<or> ulid_time (c # ?rest @ rand) = t_ms mod 2 ^ 48"
      using v n(2) d(2) by (auto simp: le_nat_iff)
    with s c(2) valid True show ?thesis by (simp add: rand_def)
  qed
qed

text \<open>
  C32. The CSV sink loses nothing: read back as a document, its content is the header of the fifteen
  columns and one row for each event, in order, and each row holds under each label the text of
  the value at that place of the event (nothing for a missing one), whatever commas, quotes and
  line breaks it contains.
\<close>

theorem csv_export_reads_back:
  assumes "format_event_content json_dumps events ''csv'' = Inr content"
  shows "let columns = [
       (''timestamp'', [''event'', ''time'']), (''event_id'', [''event_id'']), (''event_class'', [''event'', ''class'']),
       (''event_action'', [''event'', ''action'']), (''outcome'', [''event'', ''outcome'']),
       (''source_vendor'', [''source'', ''vendor'']), (''source_product'', [''source'', ''product'']),
       (''src_ip'', [''src'', ''ip'']), (''src_port'', [''src'', ''port'']),
       (''dst_ip'', [''dst'', ''ip'']), (''dst_port'', [''dst'', ''port'']), (''protocol'', [''network'', ''protocol'']),
       (''parser_id'', [''parser'', ''id'']), (''raw_sha256'', [''raw'', ''sha256'']), (''mapping_score'', [''quality'', ''mapping_score''])]
     in \<exists>rows. read_csv At_field [] [] content = Some (map fst columns # rows)
       \<and> list_all2 (\<lambda>ev row. list_all2 (\<lambda>(label, path) cell. \<exists>v. py_path ev path = Inr v
              \<and> cell = (if v = PNone then [] else py_str v)) columns row) events rows"
proof -
  from assms obtain vss where vss: "list_all2 (\<lambda>ev vs. csv_fields ev = Inr vs) events vss"
    and content: "content = concat (map write_row (map fst CSV_COLUMNS # map (map field_text) vss))"
    by (auto simp: format_event_content_def result_simps)
  have cells: "list_all2 (\<lambda>(label, path) cell. \<exists>v. py_path ev path = Inr v \<and> cell = (if v = PNone then [] else py_str v))
      CSV_COLUMNS (map field_text vs)" if "csv_fields ev = Inr vs" for ev vs
    unfolding list_all2_map2
  proof (rule list_all2_mono [OF that [unfolded csv_fields_def res_map_Inr_iff]])
    fix col v
    assume "py_path ev (snd col) = Inr v"
    then show "(case col of (label, path) \<Rightarrow> \<lambda>cell. \<exists>v. py_path ev path = Inr v
        \<and> cell = (if v = PNone then [] else py_str v)) (field_text v)"
      by (cases col) (simp add: field_text_def)
  qed
  have nonempty: "vs \<noteq> []" if "csv_fields ev = Inr vs" for ev vs
    using list_all2_lengthD [OF cells [OF that]] by (auto simp: CSV_COLUMNS_def)
  have "list_all (\<lambda>fs. fs \<noteq> []) (map fst CSV_COLUMNS # map (map field_text) vss)"
    using vss by (induction rule: list_all2_induct) (simp_all add: CSV_COLUMNS_def nonempty)
  then have "read_csv At_field [] [] content = Some (map fst CSV_COLUMNS # map (map field_text) vss)"
    unfolding content by (rule read_written_document)
  moreover have "list_all2 (\<lambda>ev row. list_all2 (\<lambda>(label, path) cell. \<exists>v. py_path ev path = Inr v
      \<and> cell = (if v = PNone then [] else py_str v)) CSV_COLUMNS row) events (map (map field_text) vss)"
    unfolding list_all2_map2 [where f = "map field_text"] by (rule list_all2_mono [OF vss]) (rule cells)
  ultimately show ?thesis unfolding Let_def CSV_COLUMNS_def [symmetric] by blast
qed

lemma normalize_raw_Inr:
  assumes "normalize_raw env format_type (k, raw) = Inr ev"
    and "parse_event (ee_json_loads env) (if format_type = ''cef'' then SAMPLE_CEF_SPEC else SAMPLE_KV_SPEC) (PStr raw) = Inr parsed"
  obtains ulid sp dp where "ev = event_head ulid (action_of parsed) (strftime_z (ee_now env 0)) (batch_producer format_type)
      (dict_get parsed ''source.ip'' (PStr ''192.168.1.100''), sp)
      (dict_get parsed ''destination.ip'' (PStr ''10.0.0.1''), dp) (''raw/2026/09/26/'' @ ulid) (ee_sha256 env raw)
    @ [(''quality'', verified_quality), (''extensions'', extensions_of parsed)]"
  using assms unfolding normalize_raw_def parsed_head_def res_bind_Inr_iff by (auto simp: res_bind_Inr_iff)

text \<open>
  C34. What a batch says of a line: it carries the hash of the line and its unknown fields, but
  everything is VERIFIED, and the action is blocked only when the parser reports exactly that
  word, up to case: a line the parser rejects, or that it reads as denied or reset, is exported as
  an allowed success, and missing addresses are replaced by fixed ones.
\<close>

theorem export_verdict:
  assumes "normalize_raw env format_type (k, raw) = Inr ev"
    and "parse_event (ee_json_loads env) (if format_type = ''cef'' then SAMPLE_CEF_SPEC else SAMPLE_KV_SPEC) (PStr raw) = Inr parsed"
  shows "(let blocked = (str_lower (py_str (dict_get parsed ''event.action'' (PStr ''allowed''))) = ''blocked'')
     in py_path ev [''event'', ''action''] = Inr (PStr (if blocked then ''blocked'' else ''allowed''))
      \<and> py_path ev [''event'', ''outcome''] = Inr (PStr (if blocked then ''failure'' else ''success'')))
    \<and> py_path ev [''src'', ''ip''] = Inr (dict_get parsed ''source.ip'' (PStr ''192.168.1.100''))
    \<and> py_path ev [''dst'', ''ip''] = Inr (dict_get parsed ''destination.ip'' (PStr ''10.0.0.1''))
    \<and> py_path ev [''quality'', ''status''] = Inr (PStr ''VERIFIED'')
    \<and> py_path ev [''raw'', ''sha256''] = Inr (PStr (ee_sha256 env raw))
    \<and> py_path ev [''extensions''] = Inr (dict_get parsed ''unknown_fields'' (PDict []))"
proof -
  obtain ulid sp dp where ev: "ev = event_head ulid (action_of parsed) (strftime_z (ee_now env 0)) (batch_producer format_type)
      (dict_get parsed ''source.ip'' (PStr ''192.168.1.100''), sp)
      (dict_get parsed ''destination.ip'' (PStr ''10.0.0.1''), dp) (''raw/2026/09/26/'' @ ulid) (ee_sha256 env raw)
    @ [(''quality'', verified_quality), (''extensions'', extensions_of parsed)]"
    using normalize_raw_Inr [OF assms] .
  obtain v p i where b: "batch_producer format_type = (v, p, i)" by (cases "batch_producer format_type")
  show ?thesis
    by (simp add: ev b event_head_def py_path_def verified_quality_def extensions_of_def action_of_def outcome_of_def Let_def)
qed

section \<open>Witnesses\<close>

text \<open>The DNS tunnelling alert of the load generator: it asks to block, but is not valid CEF.\<close>

definition tunnel_line :: string where
  "tunnel_line = event_at (new_generator ''cef'' None) 2"

definition export_demo :: export_env where
  "export_demo = \<lparr>ee_json_loads = (\<lambda>_. None), ee_sha256 = (\<lambda>s. ''0f''), ee_ms = (\<lambda>_. 1790000000000),
     ee_pick = (\<lambda>_ n. n), ee_now = (\<lambda>_. \<lparr>dt_wall = 63900000000000000, dt_offset = Some 0\<rparr>)\<rparr>"

lemma tunnel_unparsed: "parse_event (\<lambda>_. None) SAMPLE_CEF_SPEC (PStr tunnel_line) = Inr []"
  by code_simp

lemma tunnel_exported:
  "case normalize_raw export_demo ''cef'' (2, tunnel_line) of Inl e \<Rightarrow> False
   | Inr ev \<Rightarrow> case csv_fields ev of Inl e \<Rightarrow> False
       | Inr vs \<Rightarrow> py_path ev [''raw'', ''sha256''] = Inr (PStr ''0f'')"
  by code_simp

theorem export_verdict_witness:
  "str_contains ''act=block'' tunnel_line
   \<and> (\<exists>ev. normalize_raw export_demo ''cef'' (2, tunnel_line) = Inr ev
      \<and> py_path ev [''event'', ''action''] = Inr (PStr ''allowed'') \<and> py_path ev [''src'', ''ip''] = Inr (PStr ''192.168.1.100'')
      \<and> py_path ev [''quality'', ''status''] = Inr (PStr ''VERIFIED''))"
proof -
  obtain ev where ev: "normalize_raw export_demo ''cef'' (2, tunnel_line) = Inr ev"
    using tunnel_exported by (auto split: sum.splits)
  have p: "parse_event (ee_json_loads export_demo) (if ''cef'' = ''cef'' then SAMPLE_CEF_SPEC else SAMPLE_KV_SPEC) (PStr tunnel_line) = Inr []"
    using tunnel_unparsed by (simp add: export_demo_def)
  have a: "str_lower ''allowed'' \<noteq> ''blocked''" by code_simp
  have "str_contains ''act=block'' tunnel_line" by code_simp
  with export_verdict [OF ev p] a ev show ?thesis by (simp add: Let_def dict_get_def)
qed

theorem csv_export_reads_back_witness:
  "\<exists>ev content row. normalize_raw export_demo ''cef'' (2, tunnel_line) = Inr ev
     \<and> format_event_content (\<lambda>_. []) [ev] ''csv'' = Inr content
     \<and> read_csv At_field [] [] content = Some [map fst CSV_COLUMNS, row] \<and> row ! 13 = ''0f''"
proof -
  obtain ev vs where ev: "normalize_raw export_demo ''cef'' (2, tunnel_line) = Inr ev" "csv_fields ev = Inr vs"
      "py_path ev [''raw'', ''sha256''] = Inr (PStr ''0f'')"
    using tunnel_exported by (auto split: sum.splits)
  then obtain content where c: "format_event_content (\<lambda>_. []) [ev] ''csv'' = Inr content"
    by (simp add: format_event_content_def)
  from csv_export_reads_back [OF c] obtain row where
    "read_csv At_field [] [] content = Some [map fst CSV_COLUMNS, row]"
    "list_all2 (\<lambda>(label, path) cell. \<exists>v. py_path ev path = Inr v \<and> cell = (if v = PNone then [] else py_str v)) CSV_COLUMNS row"
    unfolding Let_def CSV_COLUMNS_def [symmetric] by (auto simp: list_all2_Cons1)
  moreover from list_all2_nthD [OF this(2), of 13] ev(3) have "row ! 13 = ''0f''" by (auto simp: CSV_COLUMNS_def)
  ultimately show ?thesis using ev(1) c by blast
qed

end
