(* ===== verification/Gateway.thy ===== *)
theory Gateway
  imports EventExport
begin

text \<open>
  The ingestion server of \<open>scripts/cli.py\<close>: class \<open>IngestHTTPHandler\<close> over the shared ring buffer,
  with its class counters, and the background generator. A request comes as the path and the query
  that \<open>urllib.parse\<close> gives, the headers, and the reader of its body; a response is its code and
  the document that \<open>json.dumps\<close> writes. Bytes are characters. The server handles every request in
  a thread of its own, and the counters of the class are not under the lock of the buffer:
  \<open>handler_step\<close> is one such thread, step by step, with the loading and the storing of a counter
  apart. \<open>do_GET\<close> and \<open>do_POST\<close> say what a thread does that is not interrupted.
\<close>

section \<open>Definitions\<close>

record gateway =
  gw_ring :: EventRingBuffer
  gw_events_count :: nat
  gw_bytes_count :: nat
  gw_quarantined_count :: nat
  gw_snapshots :: "(string \<times> string) list"

definition start_gateway :: "rat \<Rightarrow> gateway" where
  "start_gateway now = \<lparr>gw_ring = new_buffer 5000 now, gw_events_count = 0, gw_bytes_count = 0,
     gw_quarantined_count = 0, gw_snapshots = []\<rparr>"

record response =
  rs_code :: nat
  rs_body :: "pyval option"

definition json_response :: "nat \<Rightarrow> pyval \<Rightarrow> response" where
  "json_response code doc = \<lparr>rs_code = code, rs_body = Some doc\<rparr>"

definition not_found :: response where
  "not_found = \<lparr>rs_code = 404, rs_body = None\<rparr>"

definition health_document :: pyval where
  "health_document = PDict [(''status'', PStr ''UP''), (''engine'', PStr ''ULPF-X''), (''version'', PStr ''1.0.0''),
     (''airgap'', PBool True), (''uptime'', PStr ''active'')]"

definition stats_reply :: "ring_stats \<Rightarrow> int \<Rightarrow> int \<Rightarrow> int \<Rightarrow> pyval" where
  "stats_reply s events bytes quarantined =
     PDict [(''events_received'', PInt events), (''bytes_ingested'', PInt bytes), (''quarantined'', PInt quarantined),
            (''ring_buffer_count'', PInt (int (st_ring_buffer_count s))),
            (''ring_buffer_capacity'', PInt (int (st_ring_buffer_capacity s))),
            (''eps_rate'', PFloat (st_eps_rate s)), (''dps_ratio'', PFloat (st_dps_ratio s))]"

text \<open>The statistics of the buffer, where three counts are at least those of the handler.\<close>

definition stats_document :: "rat \<Rightarrow> gateway \<Rightarrow> pyval" where
  "stats_document now g =
     (let s = rb_stats now (gw_ring g)
      in stats_reply s (max (int (st_events_received s)) (int (gw_events_count g)))
           (max (st_bytes_ingested s) (int (gw_bytes_count g)))
           (max (int (st_quarantined s)) (int (gw_quarantined_count g))))"

definition query_limit :: "string option \<Rightarrow> int" where
  "query_limit value = (case int_of_text (case value of None \<Rightarrow> ''50'' | Some s \<Rightarrow> s) of Inl e \<Rightarrow> 50 | Inr n \<Rightarrow> n)"

definition do_GET :: "rat \<Rightarrow> string \<Rightarrow> string option \<Rightarrow> gateway \<Rightarrow> response" where
  "do_GET now path limit g =
     (if path = ''/health'' then json_response 200 health_document
      else if path = ''/stats'' then json_response 200 (stats_document now g)
      else if path \<in> set [''/api/v1/events/recent'', ''/events/recent'']
      then json_response 200 (PList (map PDict (get_recent (query_limit limit) (gw_ring g))))
      else not_found)"

text \<open>What a POST reads from outside; \<open>pe_now 0\<close> and \<open>pe_now 1\<close> are its readings of the clock.\<close>

record post_env =
  pe_sha256 :: "string \<Rightarrow> string"
  pe_ms :: int
  pe_pick :: "nat \<Rightarrow> nat"
  pe_now :: "nat \<Rightarrow> datetime"
  pe_dumps :: "pyval \<Rightarrow> string"
  pe_snapshots_dir :: string

text \<open>\<open>strftime("%Y%m%d_%H%M%S")\<close>, from the ISO form of the same reading.\<close>

definition stamp :: "datetime \<Rightarrow> string" where
  "stamp t = (let z = strftime_z t
     in filter (\<lambda>c. c \<noteq> CHR ''-'') (takeWhile (\<lambda>c. c \<noteq> CHR ''T'') z) @ ''_''
        @ filter is_digit (dropWhile (\<lambda>c. c \<noteq> CHR ''T'') z))"

definition post_snapshot :: "post_env \<Rightarrow> gateway \<Rightarrow> gateway \<times> response" where
  "post_snapshot env g =
     (let ts = stamp (pe_now env 0);
          snap_file = pe_snapshots_dir env @ ''/snapshot_'' @ ts @ ''.jsonl'';
          (content, count) = snapshot (pe_dumps env) (gw_ring g)
      in (g\<lparr>gw_snapshots := AList.update snap_file content (gw_snapshots g)\<rparr>,
          json_response 200 (PDict [(''status'', PStr ''ok''), (''snapshot_file'', PStr snap_file),
            (''events_count'', PInt (int count)), (''timestamp'', PStr ts)])))"

definition content_length :: "(string \<Rightarrow> string option) \<Rightarrow> int result" where
  "content_length headers = (case headers ''Content-Length'' of None \<Rightarrow> Inr 0 | Some s \<Rightarrow> int_of_text s)"

definition quarantine :: "string \<Rightarrow> bool" where
  "quarantine raw \<longleftrightarrow> str_contains [char_of (0 :: nat)] raw \<or> str_contains ''DROP TABLE'' raw"

definition ingest_status :: "string \<Rightarrow> string" where
  "ingest_status raw = (if quarantine raw then ''QUARANTINED'' else ''ACCEPTED'')"

definition envelope :: "post_env \<Rightarrow> (string \<Rightarrow> string option) \<Rightarrow> string \<Rightarrow> string \<Rightarrow> pyval" where
  "envelope env headers ulid raw = PDict [
     (''schema_version'', PStr ''1.0''), (''event_id'', PStr ulid),
     (''source_id'', PStr (case headers ''X-Source-ID'' of None \<Rightarrow> ''api.webhook.gateway'' | Some s \<Rightarrow> s)),
     (''received_at'', PStr (strftime_z (pe_now env 0))),
     (''transport'', PStr (case headers ''X-Transport'' of None \<Rightarrow> ''http'' | Some s \<Rightarrow> s)),
     (''raw_ref'', PStr (''raw/2026/09/26/'' @ ulid)), (''raw_sha256'', PStr (pe_sha256 env raw)),
     (''raw_length_bytes'', PInt (int (length raw))), (''ingest_status'', PStr (ingest_status raw))]"

definition full_event :: "post_env \<Rightarrow> (string \<Rightarrow> string option) \<Rightarrow> string \<Rightarrow> string \<Rightarrow> dict" where
  "full_event env headers ulid raw = [
     (''schema_version'', PStr ''1.0''), (''event_id'', PStr ulid),
     (''event'', PDict [(''class'', PStr ''NETWORK_CONNECTION''),
        (''action'', PStr (if quarantine raw then ''blocked'' else ''allowed'')),
        (''outcome'', PStr (if quarantine raw then ''failure'' else ''success'')),
        (''time'', PStr (strftime_z (pe_now env 1)))]),
     (''source'', PDict [(''vendor'', PStr ''ulpx_ingest''), (''product'', PStr ''api_gateway''),
        (''device_id'', PStr (case headers ''X-Source-ID'' of None \<Rightarrow> ''api.webhook.gateway'' | Some s \<Rightarrow> s))]),
     (''src'', PDict [(''ip'', PStr ''10.0.4.15''), (''port'', PInt 51234)]),
     (''dst'', PDict [(''ip'', PStr ''172.16.0.2''), (''port'', PInt 443)]),
     (''network'', PDict [(''protocol'', PStr ''tcp'')]),
     (''parser'', PDict [(''id'', PStr ''http.webhook.raw''), (''version'', PStr ''1.0.0'')]),
     (''raw'', PDict [(''ref'', PStr (''raw/2026/09/26/'' @ ulid)), (''sha256'', PStr (pe_sha256 env raw))]),
     (''raw_length_bytes'', PInt (int (length raw))),
     (''quality'', PDict [(''mapping_score'', PFloat 1),
        (''status'', PStr (if ingest_status raw = ''ACCEPTED'' then ''VERIFIED'' else ''QUARANTINED''))]),
     (''dps'', PFloat 1), (''ingest_status'', PStr (ingest_status raw))]"

text \<open>An exception before the response leaves the client without one.\<close>

definition post_raw ::
    "post_env \<Rightarrow> (string \<Rightarrow> string option) \<Rightarrow> (int \<Rightarrow> string) \<Rightarrow> gateway \<Rightarrow> gateway \<times> response result" where
  "post_raw env headers read g =
     (case content_length headers of
        Inl e \<Rightarrow> (g, Inl e)
      | Inr n \<Rightarrow>
          let raw = read n in
          if raw = [] then (g, Inr (json_response 400 (PDict [(''error'', PStr ''Empty payload rejected'')])))
          else case generate_contract_ulid (pe_ms env) (pe_pick env) of
            Inl e \<Rightarrow> (g, Inl e)
          | Inr ulid \<Rightarrow>
              let g1 = g\<lparr>gw_quarantined_count := gw_quarantined_count g + (if quarantine raw then 1 else 0)\<rparr>
              in case rb_append (full_event env headers ulid raw) (gw_ring g1) of
                   (ring, Some e) \<Rightarrow> (g1\<lparr>gw_ring := ring\<rparr>, Inl e)
                 | (ring, None) \<Rightarrow>
                     (g1\<lparr>gw_ring := ring, gw_events_count := gw_events_count g1 + 1,
                         gw_bytes_count := gw_bytes_count g1 + length raw\<rparr>,
                      Inr (json_response (if ingest_status raw = ''ACCEPTED'' then 200 else 202)
                             (envelope env headers ulid raw))))"

definition do_POST ::
    "post_env \<Rightarrow> string \<Rightarrow> (string \<Rightarrow> string option) \<Rightarrow> (int \<Rightarrow> string) \<Rightarrow> gateway \<Rightarrow> gateway \<times> response result" where
  "do_POST env path headers read g =
     (if path \<in> set [''/api/v1/events/snapshot'', ''/events/snapshot'']
      then (case post_snapshot env g of (g', r) \<Rightarrow> (g', Inr r))
      else if path \<in> set [''/api/v1/events/raw'', ''/ingest''] then post_raw env headers read g
      else (g, Inr not_found))"

text \<open>One round of the background generator; an exception is swallowed.\<close>

definition generator_tick :: "export_env \<Rightarrow> nat \<Rightarrow> string \<Rightarrow> gateway \<Rightarrow> gateway" where
  "generator_tick env k raw g = (case live_event env k raw of
       Inl e \<Rightarrow> g | Inr ev \<Rightarrow> g\<lparr>gw_ring := fst (rb_append ev (gw_ring g))\<rparr>)"

section \<open>Threads of the server\<close>

text \<open>A raw event on its way: what the thread knows once its payload is read and its ULID drawn.\<close>

record pending =
  pn_env :: post_env
  pn_headers :: "string \<Rightarrow> string option"
  pn_ulid :: string
  pn_raw :: string

definition pending_event :: "pending \<Rightarrow> dict" where
  "pending_event p = full_event (pn_env p) (pn_headers p) (pn_ulid p) (pn_raw p)"

definition pending_answer :: "pending \<Rightarrow> response" where
  "pending_answer p = json_response (if ingest_status (pn_raw p) = ''ACCEPTED'' then 200 else 202)
     (envelope (pn_env p) (pn_headers p) (pn_ulid p) (pn_raw p))"

text \<open>
  Where a thread stands. \<open>x += n\<close> on a counter of the class is two steps, the load and the store of
  the sum, so that another thread can store in between.
\<close>

datatype handler =
    Got_POST post_env string "string \<Rightarrow> string option" "int \<Rightarrow> string"
  | Quarantine_load pending
  | Quarantine_store pending nat
  | Append pending
  | Events_load pending
  | Events_store pending nat
  | Bytes_load pending
  | Bytes_store pending nat
  | Got_GET rat string "string option"
  | Stats_read ring_stats
  | Stats_events ring_stats int
  | Stats_bytes ring_stats int int
  | Done "response result"

text \<open>The beginning of a raw request, which touches nothing shared.\<close>

definition receive :: "post_env \<Rightarrow> (string \<Rightarrow> string option) \<Rightarrow> (int \<Rightarrow> string) \<Rightarrow> handler" where
  "receive env headers read = (case content_length headers of
       Inl e \<Rightarrow> Done (Inl e)
     | Inr n \<Rightarrow>
         let raw = read n in
         if raw = [] then Done (Inr (json_response 400 (PDict [(''error'', PStr ''Empty payload rejected'')])))
         else (case generate_contract_ulid (pe_ms env) (pe_pick env) of
             Inl e \<Rightarrow> Done (Inl e)
           | Inr ulid \<Rightarrow>
               let p = \<lparr>pn_env = env, pn_headers = headers, pn_ulid = ulid, pn_raw = raw\<rparr>
               in if quarantine raw then Quarantine_load p else Append p))"

fun handler_step :: "handler \<Rightarrow> gateway \<Rightarrow> handler \<times> gateway" where
  "handler_step (Got_POST env path headers read) g =
     (if path \<in> set [''/api/v1/events/snapshot'', ''/events/snapshot'']
      then (case post_snapshot env g of (g', r) \<Rightarrow> (Done (Inr r), g'))
      else if path \<in> set [''/api/v1/events/raw'', ''/ingest''] then (receive env headers read, g)
      else (Done (Inr not_found), g))"
| "handler_step (Quarantine_load p) g = (Quarantine_store p (gw_quarantined_count g), g)"
| "handler_step (Quarantine_store p n) g = (Append p, g\<lparr>gw_quarantined_count := n + 1\<rparr>)"
| "handler_step (Append p) g =
     (case rb_append (pending_event p) (gw_ring g) of
        (ring, Some e) \<Rightarrow> (Done (Inl e), g\<lparr>gw_ring := ring\<rparr>)
      | (ring, None) \<Rightarrow> (Events_load p, g\<lparr>gw_ring := ring\<rparr>))"
| "handler_step (Events_load p) g = (Events_store p (gw_events_count g), g)"
| "handler_step (Events_store p n) g = (Bytes_load p, g\<lparr>gw_events_count := n + 1\<rparr>)"
| "handler_step (Bytes_load p) g = (Bytes_store p (gw_bytes_count g), g)"
| "handler_step (Bytes_store p n) g =
     (Done (Inr (pending_answer p)), g\<lparr>gw_bytes_count := n + length (pn_raw p)\<rparr>)"
| "handler_step (Got_GET now path limit) g =
     (if path = ''/stats'' then (Stats_read (rb_stats now (gw_ring g)), g)
      else (Done (Inr (do_GET now path limit g)), g))"
| "handler_step (Stats_read s) g = (Stats_events s (max (int (st_events_received s)) (int (gw_events_count g))), g)"
| "handler_step (Stats_events s e) g = (Stats_bytes s e (max (st_bytes_ingested s) (int (gw_bytes_count g))), g)"
| "handler_step (Stats_bytes s e b) g =
     (Done (Inr (json_response 200 (stats_reply s e b (max (int (st_quarantined s)) (int (gw_quarantined_count g)))))), g)"
| "handler_step (Done r) g = (Done r, g)"

definition run_alone :: "handler \<Rightarrow> gateway \<Rightarrow> handler \<times> gateway" where
  "run_alone h g = ((\<lambda>(h, g). handler_step h g) ^^ 8) (h, g)"

section \<open>Lemmas\<close>

lemma full_event_length: "event_length (full_event env headers ulid raw) = Inr (int (length raw))"
  by (simp add: event_length_def full_event_def)

lemma full_event_quarantined: "event_quarantined (full_event env headers ulid raw) \<longleftrightarrow> quarantine raw"
  by (simp add: event_quarantined_def full_event_def dict_get_def ingest_status_def)

lemma full_event_append:
  "rb_append (full_event env headers ulid raw) r =
     (r\<lparr>rb_buffer := deque_append (rb_capacity r) (full_event env headers ulid raw) (rb_buffer r),
        rb_total_ingested := rb_total_ingested r + 1, rb_bytes_ingested := rb_bytes_ingested r + int (length raw),
        rb_quarantined := rb_quarantined r + (if quarantine raw then 1 else 0)\<rparr>, None)"
  by (simp add: rb_append_def full_event_length full_event_quarantined)

lemma post_raw_cases:
  obtains (unread) e where "post_raw env headers read g = (g, Inl e)"
  | (empty) n where "content_length headers = Inr n" "read n = []"
      "post_raw env headers read g = (g, Inr (json_response 400 (PDict [(''error'', PStr ''Empty payload rejected'')])))"
  | (stored) n ulid where "content_length headers = Inr n" "read n \<noteq> []"
      "generate_contract_ulid (pe_ms env) (pe_pick env) = Inr ulid"
      "post_raw env headers read g =
        (g\<lparr>gw_quarantined_count := gw_quarantined_count g + (if quarantine (read n) then 1 else 0),
           gw_ring := fst (rb_append (full_event env headers ulid (read n)) (gw_ring g)),
           gw_events_count := gw_events_count g + 1, gw_bytes_count := gw_bytes_count g + length (read n)\<rparr>,
         Inr (json_response (if quarantine (read n) then 202 else 200) (envelope env headers ulid (read n))))"
proof (cases "content_length headers")
  case (Inl e)
  then show ?thesis using unread [of e] by (simp add: post_raw_def)
next
  case (Inr n)
  show ?thesis
  proof (cases "read n = []")
    case True
    with Inr empty show ?thesis by (simp add: post_raw_def)
  next
    case False
    show ?thesis
    proof (cases "generate_contract_ulid (pe_ms env) (pe_pick env)")
      case (Inl e)
      with Inr False unread [of e] show ?thesis by (simp add: post_raw_def)
    next
      case ulid: (Inr ulid)
      show ?thesis
        by (rule stored [OF Inr False ulid])
          (simp add: post_raw_def full_event_append ingest_status_def Let_def Inr False ulid)
    qed
  qed
qed

lemma live_event_Inr:
  assumes "live_event xenv k raw = Inr ev"
  shows "event_length ev = Inr (utf8_length raw)" "\<not> event_quarantined ev"
proof -
  from assms obtain ulid t pr sp dp ref sha a parsed where
    "ev = event_head ulid a t pr sp dp ref sha
       @ [(''raw_length_bytes'', PInt (utf8_length raw)), (''quality'', verified_quality),
          (''dps'', PFloat 1), (''ingest_status'', PStr ''ACCEPTED''), (''extensions'', extensions_of parsed)]"
    unfolding live_event_def parsed_head_def res_bind_Inr_iff by (auto simp: res_bind_Inr_iff)
  moreover obtain v p i where "pr = (v, p, i)" by (cases pr)
  ultimately show "event_length ev = Inr (utf8_length raw)" "\<not> event_quarantined ev"
    by (simp_all add: event_length_def event_quarantined_def event_head_def dict_get_def)
qed

lemma utf8_length_nonneg: "0 \<le> utf8_length s"
  by (auto simp: utf8_length_def intro!: sum_list_nonneg)

lemma generator_tick_cases:
  obtains "generator_tick xenv k raw g = g"
  | ev where "live_event xenv k raw = Inr ev" "generator_tick xenv k raw g = g\<lparr>gw_ring := fst (rb_append ev (gw_ring g))\<rparr>"
  by (cases "live_event xenv k raw") (auto simp: generator_tick_def)

lemma do_POST_cases:
  obtains (same) "fst (do_POST env path headers read g) = g"
  | (snap) s where "fst (do_POST env path headers read g) = g\<lparr>gw_snapshots := s\<rparr>"
  | (stored) n ulid where "fst (do_POST env path headers read g) =
        g\<lparr>gw_quarantined_count := gw_quarantined_count g + (if quarantine (read n) then 1 else 0),
          gw_ring := fst (rb_append (full_event env headers ulid (read n)) (gw_ring g)),
          gw_events_count := gw_events_count g + 1, gw_bytes_count := gw_bytes_count g + length (read n)\<rparr>"
proof -
  consider "path \<in> set [''/api/v1/events/snapshot'', ''/events/snapshot'']"
    | "path \<notin> set [''/api/v1/events/snapshot'', ''/events/snapshot'']" "path \<in> set [''/api/v1/events/raw'', ''/ingest'']"
    | "path \<notin> set [''/api/v1/events/snapshot'', ''/events/snapshot'']" "path \<notin> set [''/api/v1/events/raw'', ''/ingest'']"
    by blast
  then show ?thesis
  proof cases
    case 1
    then show ?thesis using snap by (simp add: do_POST_def post_snapshot_def Let_def case_prod_unfold)
  next
    case 2
    then have "do_POST env path headers read g = post_raw env headers read g" unfolding do_POST_def by presburger
    then show ?thesis using same stored by (cases rule: post_raw_cases [of env headers read g]) auto
  next
    case 3
    then have "do_POST env path headers read g = (g, Inr not_found)" unfolding do_POST_def by presburger
    then show ?thesis using same by simp
  qed
qed

section \<open>Properties\<close>

text \<open>
  A thread that no other one interrupts does what the two handlers say, in at most eight steps.
\<close>

theorem handler_alone:
  "run_alone (Got_POST env path headers read) g =
     (Done (snd (do_POST env path headers read g)), fst (do_POST env path headers read g))"
  "run_alone (Got_GET now path limit) g = (Done (Inr (do_GET now path limit g)), g)"
proof -
  have done_stays: "((\<lambda>(h, g). handler_step h g) ^^ n) (Done r, g) = (Done r, g)" for n r g
    by (induction n) simp_all
  have one: "run_alone h g = ((\<lambda>(h, g). handler_step h g) ^^ 7) (handler_step h g)" for h g
    unfolding run_alone_def by (simp add: numeral_eq_Suc funpow_swap1)
  show "run_alone (Got_GET now path limit) g = (Done (Inr (do_GET now path limit g)), g)"
    by (cases "path = ''/stats''") (simp_all add: one done_stays do_GET_def stats_document_def Let_def numeral_eq_Suc)
  have raw: "((\<lambda>(h, g). handler_step h g) ^^ 7) (receive env headers read, g) =
      (Done (snd (post_raw env headers read g)), fst (post_raw env headers read g))"
  proof (cases rule: post_raw_cases [of env headers read g])
    case (stored n ulid)
    then show ?thesis
      by (simp add: receive_def Let_def numeral_eq_Suc pending_event_def pending_answer_def full_event_append ingest_status_def)
  next
    case (empty n)
    then show ?thesis by (simp add: receive_def done_stays)
  next
    case (unread e)
    then show ?thesis
      by (auto simp: receive_def post_raw_def done_stays Let_def full_event_append split: sum.splits if_splits)
  qed
  consider "path \<in> set [''/api/v1/events/snapshot'', ''/events/snapshot'']"
    | "path \<notin> set [''/api/v1/events/snapshot'', ''/events/snapshot'']" "path \<in> set [''/api/v1/events/raw'', ''/ingest'']"
    | "path \<notin> set [''/api/v1/events/snapshot'', ''/events/snapshot'']" "path \<notin> set [''/api/v1/events/raw'', ''/ingest'']"
    by blast
  then show "run_alone (Got_POST env path headers read) g =
     (Done (snd (do_POST env path headers read g)), fst (do_POST env path headers read g))"
  proof cases
    case 1
    obtain g' r where "post_snapshot env g = (g', r)" by fastforce
    with 1 show ?thesis by (simp add: one done_stays do_POST_def)
  next
    case 2
    then have "handler_step (Got_POST env path headers read) g = (receive env headers read, g)"
      "do_POST env path headers read g = post_raw env headers read g"
      unfolding do_POST_def handler_step.simps by presburger+
    with raw show ?thesis by (simp add: one)
  next
    case 3
    then have "handler_step (Got_POST env path headers read) g = (Done (Inr not_found), g)"
      "do_POST env path headers read g = (g, Inr not_found)"
      unfolding do_POST_def handler_step.simps by presburger+
    then show ?thesis by (simp add: one done_stays)
  qed
qed

text \<open>
  C31. The verdict on a request to either path of raw events, not interrupted by others: an empty
  payload is refused with 400 and changes nothing. Any other is answered with 202 when it holds
  a NUL or the text DROP TABLE and with 200 otherwise. In both cases the newest event of the
  buffer carries the verdict in its status, action, outcome and quality, next to identifier, hash
  and length of the payload, the answer repeats status, identifier and hash, and all counters of
  class and buffer advance by it.
\<close>

theorem ingest_verdict:
  assumes "path = ''/api/v1/events/raw'' \<or> path = ''/ingest''"
    and "content_length headers = Inr n" "generate_contract_ulid (pe_ms env) (pe_pick env) = Inr ulid"
    and "0 < rb_capacity (gw_ring g)"
  shows "let raw = read n; blocked = (char_of (0 :: nat) \<in> set raw \<or> (\<exists>a b. raw = a @ ''DROP TABLE'' @ b));
      status = PStr (if blocked then ''QUARANTINED'' else ''ACCEPTED'')
    in case do_POST env path headers read g of
      (g', Inl e) \<Rightarrow> False
    | (g', Inr r) \<Rightarrow>
        if raw = [] then g' = g \<and> rs_code r = 400
        else (\<exists>ev answer. get_recent 1 (gw_ring g') = [ev] \<and> rs_body r = Some (PDict answer)
            \<and> map_of ev ''ingest_status'' = Some status \<and> map_of answer ''ingest_status'' = Some status
            \<and> map_of ev ''event_id'' = Some (PStr ulid) \<and> map_of answer ''event_id'' = Some (PStr ulid)
            \<and> py_path ev [''raw'', ''sha256''] = Inr (PStr (pe_sha256 env raw))
            \<and> map_of answer ''raw_sha256'' = Some (PStr (pe_sha256 env raw))
            \<and> map_of ev ''raw_length_bytes'' = Some (PInt (int (length raw)))
            \<and> py_path ev [''event'', ''action''] = Inr (PStr (if blocked then ''blocked'' else ''allowed''))
            \<and> py_path ev [''event'', ''outcome''] = Inr (PStr (if blocked then ''failure'' else ''success''))
            \<and> py_path ev [''quality'', ''status''] = Inr (PStr (if blocked then ''QUARANTINED'' else ''VERIFIED'')))
          \<and> rs_code r = (if blocked then 202 else 200)
          \<and> gw_events_count g' = gw_events_count g + 1
          \<and> gw_bytes_count g' = gw_bytes_count g + length raw
          \<and> gw_quarantined_count g' = gw_quarantined_count g + (if blocked then 1 else 0)
          \<and> rb_total_ingested (gw_ring g') = rb_total_ingested (gw_ring g) + 1
          \<and> rb_bytes_ingested (gw_ring g') = rb_bytes_ingested (gw_ring g) + int (length raw)
          \<and> rb_quarantined (gw_ring g') = rb_quarantined (gw_ring g) + (if blocked then 1 else 0)"
proof -
  have post: "do_POST env path headers read g = post_raw env headers read g" using assms(1) by (auto simp: do_POST_def)
  have newest: "drop (length d - Suc 0) d = [x]" if "d = deque_append c x b" "0 < c" for c x d and b :: "dict list"
    using that by (cases "Suc (length b) \<le> c") (simp_all add: deque_append_def)
  have blocked: "(char_of (0 :: nat) \<in> set raw \<or> (\<exists>a b. raw = a @ ''DROP TABLE'' @ b)) = quarantine raw" for raw
    by (simp add: quarantine_def str_contains_sublist sublist_def in_set_conv_decomp)
  have event: "map_of (full_event env headers ulid raw) ''ingest_status'' = Some (PStr (if quarantine raw then ''QUARANTINED'' else ''ACCEPTED''))"
    "map_of (full_event env headers ulid raw) ''event_id'' = Some (PStr ulid)"
    "py_path (full_event env headers ulid raw) [''raw'', ''sha256''] = Inr (PStr (pe_sha256 env raw))"
    "map_of (full_event env headers ulid raw) ''raw_length_bytes'' = Some (PInt (int (length raw)))"
    "py_path (full_event env headers ulid raw) [''event'', ''action''] = Inr (PStr (if quarantine raw then ''blocked'' else ''allowed''))"
    "py_path (full_event env headers ulid raw) [''event'', ''outcome''] = Inr (PStr (if quarantine raw then ''failure'' else ''success''))"
    "py_path (full_event env headers ulid raw) [''quality'', ''status''] = Inr (PStr (if quarantine raw then ''QUARANTINED'' else ''VERIFIED''))"
    for raw by (simp_all add: full_event_def py_path_def ingest_status_def)
  have answer: "\<exists>answer. envelope env headers ulid raw = PDict answer
      \<and> map_of answer ''ingest_status'' = Some (PStr (if quarantine raw then ''QUARANTINED'' else ''ACCEPTED''))
      \<and> map_of answer ''event_id'' = Some (PStr ulid) \<and> map_of answer ''raw_sha256'' = Some (PStr (pe_sha256 env raw))" for raw
    by (simp add: envelope_def ingest_status_def)
  show ?thesis
  proof (cases "read n = []")
    case True
    then show ?thesis by (simp add: post post_raw_def assms(2) json_response_def)
  next
    case False
    then have "do_POST env path headers read g =
        (g\<lparr>gw_quarantined_count := gw_quarantined_count g + (if quarantine (read n) then 1 else 0),
           gw_ring := fst (rb_append (full_event env headers ulid (read n)) (gw_ring g)),
           gw_events_count := gw_events_count g + 1, gw_bytes_count := gw_bytes_count g + length (read n)\<rparr>,
         Inr (json_response (if quarantine (read n) then 202 else 200) (envelope env headers ulid (read n))))"
      by (simp add: post post_raw_def assms(2,3) full_event_append ingest_status_def Let_def)
    moreover obtain d where "envelope env headers ulid (read n) = PDict d"
      "map_of d ''ingest_status'' = Some (PStr (if quarantine (read n) then ''QUARANTINED'' else ''ACCEPTED''))"
      "map_of d ''event_id'' = Some (PStr ulid)" "map_of d ''raw_sha256'' = Some (PStr (pe_sha256 env (read n)))"
      using answer by blast
    moreover have "get_recent 1 (fst (rb_append (full_event env headers ulid (read n)) (gw_ring g)))
        = [full_event env headers ulid (read n)]"
      using newest [OF refl assms(4)] by (simp add: full_event_append get_recent_def)
    ultimately show ?thesis
      unfolding Let_def blocked using False by (simp add: event full_event_append json_response_def)
  qed
qed

text \<open>
  What is retained of a payload: two non-empty payloads with the same hash, the same length and
  the same verdict leave the server in the same state with the same response, so the bytes
  themselves, to which the reference of the response points, are kept nowhere.
\<close>

theorem ingest_keeps_only_digest:
  assumes "content_length headers = Inr n" "read n \<noteq> []" "read' n \<noteq> []"
    and "pe_sha256 env (read n) = pe_sha256 env (read' n)" "length (read n) = length (read' n)"
    and "quarantine (read n) = quarantine (read' n)"
  shows "do_POST env path headers read g = do_POST env path headers read' g"
proof -
  have eqs: "full_event env headers ulid (read n) = full_event env headers ulid (read' n)"
    "envelope env headers ulid (read n) = envelope env headers ulid (read' n)" for ulid
    using assms by (simp_all add: full_event_def envelope_def ingest_status_def)
  have "post_raw env headers read g = post_raw env headers read' g"
    using assms(2,3)
    by (cases "generate_contract_ulid (pe_ms env) (pe_pick env)")
      (simp_all add: post_raw_def ingest_status_def assms(1,4,5,6) eqs full_event_append Let_def)
  then show ?thesis by (simp add: do_POST_def)
qed

section \<open>Witnesses\<close>

definition post_demo :: post_env where
  "post_demo = \<lparr>pe_sha256 = (\<lambda>s. ''00''), pe_ms = 1790000000000, pe_pick = (\<lambda>n. n),
     pe_now = (\<lambda>_. \<lparr>dt_wall = 63900000000000000, dt_offset = Some 0\<rparr>), pe_dumps = (\<lambda>_. []), pe_snapshots_dir = ''s''\<rparr>"

definition length_header :: "string \<Rightarrow> string option" where
  "length_header h = (if h = ''Content-Length'' then Some ''12'' else None)"

lemma header_read: "content_length length_header = Inr 12"
  by code_simp

lemma demo_ulid: "\<exists>u. generate_contract_ulid (pe_ms post_demo) (pe_pick post_demo) = Inr u"
proof -
  have "case generate_contract_ulid (pe_ms post_demo) (pe_pick post_demo) of Inl e \<Rightarrow> False | Inr u \<Rightarrow> True" by code_simp
  then show ?thesis by (auto split: sum.splits)
qed

theorem ingest_verdict_witness:
  "\<exists>g r ev. do_POST post_demo ''/ingest'' length_header (\<lambda>_. ''x;DROP TABLE'') (start_gateway 0) = (g, Inr r)
     \<and> rs_code r = 202 \<and> get_recent 1 (gw_ring g) = [ev] \<and> map_of ev ''ingest_status'' = Some (PStr ''QUARANTINED'')"
proof -
  obtain u where u: "generate_contract_ulid (pe_ms post_demo) (pe_pick post_demo) = Inr u" using demo_ulid by blast
  have c: "0 < rb_capacity (gw_ring (start_gateway 0))" by (simp add: start_gateway_def new_buffer_def)
  have b: "\<exists>a b. ''x;DROP TABLE'' = a @ ''DROP TABLE'' @ b" by (intro exI [of _ "''x;''"] exI [of _ "[]"]) simp
  obtain g o' where p: "do_POST post_demo ''/ingest'' length_header (\<lambda>_. ''x;DROP TABLE'') (start_gateway 0) = (g, o')"
    by fastforce
  from ingest_verdict [OF _ header_read u c, of "''/ingest''" "\<lambda>_. ''x;DROP TABLE''"] p b show ?thesis
    by (cases o') (auto simp: Let_def)
qed

theorem ingest_keeps_only_digest_witness:
  "do_POST post_demo ''/ingest'' length_header (\<lambda>_. ''transfer 100'') (start_gateway 0)
   = do_POST post_demo ''/ingest'' length_header (\<lambda>_. ''transfer 999'') (start_gateway 0)"
proof -
  have "quarantine ''transfer 100'' = quarantine ''transfer 999''" by code_simp
  then show ?thesis by (intro ingest_keeps_only_digest [OF header_read]) (simp_all add: post_demo_def)
qed

end
