(* ===== verification/Latency.thy ===== *)
theory Latency
  imports PyFloat
begin

text \<open>
  Latency percentiles and resource peaks of the benchmark harness, \<open>ml/benchmark/metrics.py\<close>, in
  binary64 arithmetic throughout. The percentiles interpolate between neighbouring samples; the
  section on interpolation shows that rounding never carries one out of its interval. Memory
  readings are a parameter.
\<close>

section \<open>Definitions\<close>

type_synonym tracker = "rat list"

definition record_latency :: "tracker \<Rightarrow> rat \<Rightarrow> tracker" where
  "record_latency samples latency_ms = samples @ [max 0 latency_ms]"

definition record_batch :: "tracker \<Rightarrow> rat list \<Rightarrow> tracker" where
  "record_batch samples latencies_ms = foldl record_latency samples latencies_ms"

text \<open>The value between the samples at \<open>base\<close> and \<open>base + 1\<close>.\<close>

definition interpolate :: "rat \<Rightarrow> rat \<Rightarrow> rat \<Rightarrow> rat" where
  "interpolate a b rest = fl (a + fl (rest * fl (b - a)))"

definition quantile :: "rat list \<Rightarrow> rat \<Rightarrow> rat" where
  "quantile sorted_s q =
     (let n = length sorted_s in
      if n = 1 then sorted_s ! 0
      else let pos = fl (q * fl (of_nat (n - 1)));
               base = nat \<lfloor>pos\<rfloor>;
               rest = fl (pos - of_nat base)
           in if base + 1 < n then interpolate (sorted_s ! base) (sorted_s ! (base + 1)) rest
              else last sorted_s)"

record latency_summary =
  ls_p50 :: rat
  ls_p90 :: rat
  ls_p99 :: rat
  ls_mean :: rat
  ls_min :: rat
  ls_max :: rat

definition summary :: "tracker \<Rightarrow> latency_summary" where
  "summary samples =
     (if samples = [] then \<lparr>ls_p50 = 0, ls_p90 = 0, ls_p99 = 0, ls_mean = 0, ls_min = 0, ls_max = 0\<rparr>
      else let sorted_s = sort samples; n = length sorted_s
           in \<lparr>ls_p50 = quantile sorted_s (fl (50 / 100)), ls_p90 = quantile sorted_s (fl (90 / 100)),
               ls_p99 = quantile sorted_s (fl (99 / 100)), ls_mean = fl (py_fsum sorted_s / of_nat n),
               ls_min = sorted_s ! 0, ls_max = last sorted_s\<rparr>)"

text \<open>The monitor: the deepest queue and the peak of the memory readings.\<close>

record ResourceMonitor =
  rm_start_time :: rat
  rm_max_queue_depth :: int
  rm_peak_memory_mb :: rat

definition new_monitor :: ResourceMonitor where
  "new_monitor = \<lparr>rm_start_time = 0, rm_max_queue_depth = 0, rm_peak_memory_mb = 1\<rparr>"

definition update_memory :: "rat \<Rightarrow> ResourceMonitor \<Rightarrow> ResourceMonitor" where
  "update_memory mem_mb m = (if mem_mb > rm_peak_memory_mb m then m\<lparr>rm_peak_memory_mb := mem_mb\<rparr> else m)"

definition update_queue_depth :: "int \<Rightarrow> ResourceMonitor \<Rightarrow> ResourceMonitor" where
  "update_queue_depth depth m = (if depth > rm_max_queue_depth m then m\<lparr>rm_max_queue_depth := depth\<rparr> else m)"

definition start_monitor :: "rat \<Rightarrow> rat \<Rightarrow> ResourceMonitor \<Rightarrow> ResourceMonitor" where
  "start_monitor now mem_mb m = update_memory mem_mb (m\<lparr>rm_start_time := now\<rparr>)"

text \<open>\<open>stop\<close>: processor time is not measured but reported as 0.\<close>

definition stop_monitor :: "rat \<Rightarrow> ResourceMonitor \<Rightarrow> ResourceMonitor \<times> rat \<times> rat \<times> int" where
  "stop_monitor mem_mb m =
     (let m' = update_memory mem_mb m in (m', 0, rm_peak_memory_mb m', rm_max_queue_depth m'))"

section \<open>Interpolation\<close>

text \<open>A double is a multiple of its own last place.\<close>

lemma double_multiple:
  assumes "fl x = x"
  obtains m where "x = of_int m * 2 powi ulp_exp x"
proof (cases "x = 0")
  case True
  then show ?thesis using that [of 0] by simp
next
  case False
  with assms show ?thesis
    by (metis fl_def that)
qed

lemma double_multiple_finer:
  fixes x :: rat
  assumes "x = of_int m * 2 powi e" "d \<le> e"
  obtains k where "x = of_int k * 2 powi d"
proof (rule that)
  have "(2 :: rat) powi e = 2 powi (e - d) * 2 powi d" by (simp add: power_int_diff)
  also have "2 powi (e - d) = (of_int (2 ^ nat (e - d)) :: rat)" using assms(2) by (simp add: power_int_def)
  finally show "x = of_int (m * 2 ^ nat (e - d)) * 2 powi d" using assms(1) by simp
qed

lemma double_multiple_tiny:
  assumes "fl x = x"
  obtains m where "x = of_int m * 2 powi (- 1074)"
  using double_multiple [OF assms] double_multiple_finer [of x _ "ulp_exp x" "- 1074"] by (auto simp: ulp_exp_def)

text \<open>The largest double below 1.\<close>

abbreviation below_one :: rat where
  "below_one \<equiv> 1 - 2 powi (- 53)"

lemma below_one_double: "fl below_one = below_one"
proof -
  have "below_one = of_int (2 ^ 53 - 1) * 2 powi (- 53)" by (simp add: power_int_minus)
  then show ?thesis using fl_exact [of "2 ^ 53 - 1" "- 53"] by simp
qed

lemma fraction_below_one:
  assumes "fl x = x" "0 \<le> x"
  shows "x - of_int \<lfloor>x\<rfloor> \<le> below_one"
proof -
  obtain m where m: "x = of_int m * 2 powi ulp_exp x" using double_multiple [OF assms(1)] .
  consider "0 \<le> ulp_exp x" | "ulp_exp x < - 53" | "- 53 \<le> ulp_exp x" "ulp_exp x < 0" by linarith
  then show ?thesis
  proof cases
    case 1
    then have "(2 :: rat) powi ulp_exp x = of_int (2 ^ nat (ulp_exp x))" by (simp add: power_int_def)
    then have "x = of_int (m * 2 ^ nat (ulp_exp x))" using m by simp
    then have "x - of_int \<lfloor>x\<rfloor> = 0" by (metis diff_self floor_of_int)
    then show ?thesis by (simp add: power_int_minus)
  next
    case 2
    show ?thesis
    proof (cases "x = 0")
      case False
      with assms(2) have "0 < x" by simp
      from scaled_upper [OF this] have "x < 2 ^ 53 * 2 powi ulp_exp x" by (simp add: pos_divide_less_eq)
      also have "\<dots> \<le> 2 ^ 53 * 2 powi (- 54)" using 2 by (intro mult_left_mono powi_two_mono) simp_all
      also have "\<dots> = 1 / 2" by (simp add: power_int_minus)
      finally have "x < 1 / 2" .
      with assms(2) have "\<lfloor>x\<rfloor> = 0" by linarith
      with \<open>x < 1 / 2\<close> show ?thesis by (simp add: power_int_minus)
    qed (simp add: power_int_minus)
  next
    case 3
    define p :: int where "p = 2 ^ nat (- ulp_exp x)"
    have p: "0 < p" "(2 :: rat) powi ulp_exp x = 1 / of_int p"
      using 3 by (simp_all add: p_def power_int_def field_simps)
    have "x - of_int \<lfloor>x\<rfloor> = of_int (m - \<lfloor>x\<rfloor> * p) / of_int p" using m p by (simp add: field_simps)
    moreover have "x - of_int \<lfloor>x\<rfloor> < 1" by linarith
    ultimately have "(of_int (m - \<lfloor>x\<rfloor> * p) :: rat) < of_int p" using p(1) by (simp add: pos_divide_less_eq)
    then have "m - \<lfloor>x\<rfloor> * p \<le> p - 1" by linarith
    then have "(of_int (m - \<lfloor>x\<rfloor> * p) :: rat) \<le> of_int (p - 1)" using of_int_le_iff by blast
    then have "x - of_int \<lfloor>x\<rfloor> \<le> of_int (p - 1) / of_int p"
      using \<open>x - of_int \<lfloor>x\<rfloor> = of_int (m - \<lfloor>x\<rfloor> * p) / of_int p\<close> p(1) by (simp add: divide_right_mono)
    also have "\<dots> = 1 - 2 powi ulp_exp x" using p by (simp add: field_simps)
    also have "\<dots> \<le> below_one" using 3 powi_two_mono [of "- 53" "ulp_exp x"] by simp
    finally show ?thesis .
  qed
qed

lemma round_half_even_down:
  assumes "of_int k \<le> y" "y < of_int k + 1 / 2"
  shows "round_half_even y = k"
proof -
  have "\<lfloor>y\<rfloor> = k" using assms by (intro floor_unique) linarith+
  with assms(2) show ?thesis by (simp add: round_half_even_def Let_def)
qed

text \<open>Scaling a rounded distance by a factor below 1 does not exceed the exact distance.\<close>

lemma scaled_distance:
  assumes d: "d = of_int j * 2 powi (- 1074)" "0 \<le> d" and r: "0 \<le> r" "r \<le> below_one"
  shows "fl (r * fl d) \<le> d"
proof (cases "fl d \<le> d")
  case True
  have "r * fl d \<le> 1 * fl d"
    using r fl_nonneg [OF d(2)] powi_two_pos [of "- 53"] by (intro mult_right_mono) linarith+
  then have "fl (r * fl d) \<le> fl (fl d)" by (intro fl_mono) simp
  with True show ?thesis by (simp add: fl_idem)
next
  case False
  then have pos: "0 < d" using d(2) by (cases "d = 0") auto
  define e where "e = ulp_exp d"
  define k where "k = \<lfloor>d / 2 powi e\<rfloor>"
  have e: "- 1074 < e"
  proof (rule ccontr)
    assume "\<not> - 1074 < e"
    then have "e = - 1074" by (simp add: e_def ulp_exp_def)
    then have "d / 2 powi e = of_int j" using d(1) by simp
    then have "fl d = d" using pos \<open>e = - 1074\<close> d(1) by (simp add: fl_def flip: e_def)
    with False show False by simp
  qed
  have fl_d: "fl d = of_int (round_half_even (d / 2 powi e)) * 2 powi e" using pos by (simp add: fl_def e_def)
  have kd: "of_int k * 2 powi e \<le> d"
    unfolding k_def using pos_le_divide_eq [OF powi_two_pos, THEN iffD1, OF of_int_floor_le] .
  have up: "fl d = of_int (k + 1) * 2 powi e"
    using round_half_even_cases [of "d / 2 powi e"] kd False by (auto simp: fl_d k_def)
  have "2 ^ 52 \<le> d / 2 powi e" "d / 2 powi e < 2 ^ 53"
    using scaled_lower [OF pos] scaled_upper [OF pos] e by (simp_all add: e_def)
  then have kb: "2 ^ 52 \<le> k" "k < 2 ^ 53" by (simp_all add: k_def le_floor_iff floor_less_iff)
  have bound: "r * fl d \<le> (of_int (k + 1) - of_int (k + 1) * 2 powi (- 53)) * 2 powi e"
  proof -
    have distribute: "(1 - u) * (c * b) = (c - c * u) * b" for u b c :: rat by (simp add: algebra_simps)
    have "r * fl d \<le> below_one * fl d" using r(2) fl_nonneg [OF d(2)] by (intro mult_right_mono)
    also have "below_one * fl d = (of_int (k + 1) - of_int (k + 1) * 2 powi (- 53)) * 2 powi e"
      unfolding up by (rule distribute)
    finally show ?thesis .
  qed
  have "(1 / 2 :: rat) < of_int (k + 1) * 2 powi (- 53)"
  proof -
    have "(of_int (2 ^ 52) :: rat) < of_int (k + 1)" using kb(1) by (simp only: of_int_less_iff)
    then show ?thesis by (simp add: power_int_minus)
  qed
  then have "of_int (k + 1) - of_int (k + 1) * 2 powi (- 53) < (of_int k + 1 / 2 :: rat)" by simp
  then have "(of_int (k + 1) - of_int (k + 1) * 2 powi (- 53)) * 2 powi e < (of_int k + 1 / 2 :: rat) * 2 powi e"
    by (intro mult_strict_right_mono powi_two_pos)
  with bound have less: "r * fl d < (of_int k + 1 / 2) * 2 powi e" by linarith
  have exact: "fl (of_int k * 2 powi e) = of_int k * 2 powi e" using kb e by (intro fl_exact) simp_all
  have "fl (r * fl d) \<le> of_int k * 2 powi e"
  proof (cases "r * fl d \<le> of_int k * 2 powi e")
    case True
    then show ?thesis using fl_mono exact by metis
  next
    case False
    define x where "x = r * fl d"
    have x: "of_int k * 2 powi e < x" "x < (of_int k + 1 / 2) * 2 powi e" using False less by (simp_all add: x_def)
    have "(2 :: rat) powi (e + 52) \<le> of_int k * 2 powi e"
      using kb(1) power_int_add [of "2 :: rat" e 52] of_int_le_iff [of "2 ^ 52" k, where ?'a = rat] by simp
    moreover have "x < (2 :: rat) powi (e + 53)"
    proof -
      have "(of_int k + 1 / 2 :: rat) \<le> 2 ^ 53" using kb(2) of_int_le_iff [of "k + 1" "2 ^ 53", where ?'a = rat] by simp
      then have up: "(of_int k + 1 / 2) * 2 powi e \<le> (2 :: rat) ^ 53 * 2 powi e"
        by (rule mult_right_mono) simp
      note x(2)
      also note up
      also have "(2 :: rat) ^ 53 * 2 powi e = 2 powi (e + 53)"
        using power_int_add [of "2 :: rat" e 53] by simp
      finally show ?thesis .
    qed
    ultimately have "ilog2 x = e + 52" using x(1) by (intro ilog2_unique) (simp_all add: add.assoc)
    have "0 < of_int k * (2 :: rat) powi e" using kb(1) by simp
    then have "0 < x" using x(1) by linarith
    then have ux: "ulp_exp x = e" using \<open>ilog2 x = e + 52\<close> e by (simp add: ulp_exp_def)
    have "of_int k < x / 2 powi e" "x / 2 powi e < of_int k + 1 / 2"
      using x by (simp_all add: pos_less_divide_eq pos_divide_less_eq)
    then have "round_half_even (x / 2 powi e) = k" by (rule round_half_even_down [OF less_imp_le])
    then have "fl x = of_int k * 2 powi e" using \<open>0 < x\<close> ux by (simp add: fl_def)
    then show ?thesis by (simp add: x_def)
  qed
  with kd show ?thesis by linarith
qed

section \<open>Percentiles\<close>

definition doubles :: "rat list \<Rightarrow> bool" where
  "doubles xs \<longleftrightarrow> list_all (\<lambda>x. fl x = x \<and> 0 \<le> x) xs"

lemma interpolate_between:
  assumes "fl a = a" "fl b = b" "0 \<le> a" "a \<le> b" "0 \<le> r" "r \<le> below_one"
  shows "a \<le> interpolate a b r" "interpolate a b r \<le> b"
proof -
  have "0 \<le> fl (r * fl (b - a))" using assms by (intro fl_nonneg mult_nonneg_nonneg) simp_all
  then have "fl a \<le> interpolate a b r" unfolding interpolate_def by (intro fl_mono) simp
  then show "a \<le> interpolate a b r" by (simp add: assms(1))
  obtain i where i: "a = of_int i * 2 powi (- 1074)" using double_multiple_tiny [OF assms(1)] .
  obtain j where j: "b = of_int j * 2 powi (- 1074)" using double_multiple_tiny [OF assms(2)] .
  have "b - a = of_int (j - i) * 2 powi (- 1074)" by (simp only: i j of_int_diff left_diff_distrib)
  then have "fl (r * fl (b - a)) \<le> b - a" using assms(4-6) by (intro scaled_distance [of "b - a" "j - i"]) simp_all
  then have "interpolate a b r \<le> fl b" unfolding interpolate_def by (intro fl_mono) simp
  then show "interpolate a b r \<le> b" by (simp add: assms(2))
qed

lemma interpolate_mono:
  assumes "a \<le> b" "r \<le> r'"
  shows "interpolate a b r \<le> interpolate a b r'"
  unfolding interpolate_def using assms fl_nonneg [of "b - a"]
  by (intro fl_mono add_left_mono mult_right_mono) simp_all

text \<open>Position and remainder of a quantile.\<close>

definition position :: "nat \<Rightarrow> rat \<Rightarrow> rat" where
  "position n q = fl (q * fl (of_nat (n - 1)))"

definition remainder :: "nat \<Rightarrow> rat \<Rightarrow> rat" where
  "remainder n q = fl (position n q - of_nat (nat \<lfloor>position n q\<rfloor>))"

lemma position_mono: "q \<le> q' \<Longrightarrow> position n q \<le> position n q'"
  unfolding position_def using fl_nonneg [of "of_nat (n - 1)"] by (intro fl_mono mult_right_mono) simp_all

lemma position_nonneg: "0 \<le> q \<Longrightarrow> 0 \<le> position n q"
  unfolding position_def by (intro fl_nonneg mult_nonneg_nonneg) (simp_all add: fl_nonneg)

lemma remainder_bounds:
  assumes "0 \<le> q"
  shows "0 \<le> remainder n q" "remainder n q \<le> below_one"
proof -
  have p: "0 \<le> position n q" "fl (position n q) = position n q"
    using position_nonneg [OF assms] by (simp_all add: position_def fl_idem)
  have f: "(of_nat (nat \<lfloor>position n q\<rfloor>) :: rat) = of_int \<lfloor>position n q\<rfloor>" using p(1) by simp
  show "0 \<le> remainder n q" unfolding remainder_def f by (rule fl_nonneg) simp
  have "remainder n q \<le> fl below_one"
    unfolding remainder_def f using fraction_below_one [OF p(2,1)] by (rule fl_mono)
  then show "remainder n q \<le> below_one" by (simp only: below_one_double)
qed

lemma quantile_eq:
  "quantile s q = (if length s = 1 then s ! 0
     else let base = nat \<lfloor>position (length s) q\<rfloor>
          in if base + 1 < length s then interpolate (s ! base) (s ! (base + 1)) (remainder (length s) q) else last s)"
  unfolding quantile_def position_def remainder_def Let_def ..

lemma doubles_nth: "doubles s \<Longrightarrow> i < length s \<Longrightarrow> fl (s ! i) = s ! i \<and> 0 \<le> s ! i"
  by (simp add: doubles_def list_all_length)

lemma quantile_step:
  assumes "sorted s" "doubles s" "0 \<le> q" "base = nat \<lfloor>position (length s) q\<rfloor>" "base + 1 < length s"
  shows "s ! base \<le> quantile s q" "quantile s q \<le> s ! (base + 1)"
proof -
  have o: "s ! base \<le> s ! (base + 1)" using assms(1,5) by (simp add: sorted_nth_mono)
  note a = doubles_nth [OF assms(2), of base] and b = doubles_nth [OF assms(2), of "base + 1"]
  have "quantile s q = interpolate (s ! base) (s ! (base + 1)) (remainder (length s) q)"
    using assms(4,5) by (simp add: quantile_eq Let_def)
  with interpolate_between [OF _ _ _ o remainder_bounds [OF assms(3)]] a b assms(5)
  show "s ! base \<le> quantile s q" "quantile s q \<le> s ! (base + 1)" by simp_all
qed

lemma nth_le_last: "sorted s \<Longrightarrow> i < length s \<Longrightarrow> s ! i \<le> last s"
  by (cases s rule: rev_cases) (auto simp: nth_append sorted_append)

lemma quantile_range:
  assumes "sorted s" "s \<noteq> []" "doubles s" "0 \<le> q"
  shows "s ! 0 \<le> quantile s q" "quantile s q \<le> last s"
proof -
  let ?base = "nat \<lfloor>position (length s) q\<rfloor>"
  have first: "s ! 0 \<le> s ! i" if "i < length s" for i using assms(1) that by (simp add: sorted_nth_mono)
  consider "length s = 1" | "length s \<noteq> 1" "?base + 1 < length s" | "length s \<noteq> 1" "\<not> ?base + 1 < length s" by blast
  then have "s ! 0 \<le> quantile s q \<and> quantile s q \<le> last s"
  proof cases
    case 1
    then show ?thesis using assms(1) by (simp add: quantile_eq nth_le_last)
  next
    case 2
    then show ?thesis
      using quantile_step [OF assms(1,3,4) refl 2(2)] first [of ?base] nth_le_last [OF assms(1), of "?base + 1"] by simp
  next
    case 3
    then show ?thesis using nth_le_last [OF assms(1), of 0] assms(2) by (simp add: quantile_eq)
  qed
  then show "s ! 0 \<le> quantile s q" "quantile s q \<le> last s" by simp_all
qed

lemma quantile_mono:
  assumes "sorted s" "s \<noteq> []" "doubles s" "0 \<le> q" "q \<le> q'"
  shows "quantile s q \<le> quantile s q'"
proof -
  define b where "b = nat \<lfloor>position (length s) q\<rfloor>"
  define b' where "b' = nat \<lfloor>position (length s) q'\<rfloor>"
  have pos: "position (length s) q \<le> position (length s) q'" using assms(5) by (rule position_mono)
  then have le: "b \<le> b'" unfolding b_def b'_def by (intro nat_mono floor_mono)
  have q': "0 \<le> q'" using assms(4,5) by simp
  consider "length s = 1" | "length s \<noteq> 1" "\<not> b' + 1 < length s" | "length s \<noteq> 1" "b' + 1 < length s" "b = b'"
    | "length s \<noteq> 1" "b' + 1 < length s" "b < b'" using le by linarith
  then show ?thesis
  proof cases
    case 1
    then show ?thesis by (simp add: quantile_eq)
  next
    case 2
    then have "quantile s q' = last s" by (simp add: quantile_eq b'_def)
    then show ?thesis using quantile_range(2) [OF assms(1-4)] by simp
  next
    case 3
    have "remainder (length s) q \<le> remainder (length s) q'"
      unfolding remainder_def using pos 3(3) by (intro fl_mono) (simp add: b_def b'_def)
    moreover have "s ! b \<le> s ! (b + 1)" using assms(1) 3 by (simp add: sorted_nth_mono)
    ultimately show ?thesis
      using 3 by (simp add: quantile_eq Let_def interpolate_mono flip: b_def b'_def)
  next
    case 4
    have "quantile s q \<le> s ! (b + 1)" using 4 by (intro quantile_step [OF assms(1,3,4) b_def]) simp
    also have "\<dots> \<le> s ! b'" using assms(1) 4 by (simp add: sorted_nth_mono)
    also have "\<dots> \<le> quantile s q'" using quantile_step(1) [OF assms(1,3) q' b'_def 4(2)] .
    finally show ?thesis .
  qed
qed

lemma record_batch_samples: "record_batch samples xs = samples @ map (max 0) xs"
  by (induction xs arbitrary: samples) (simp_all add: record_batch_def record_latency_def)

lemma doubles_sort: "doubles (sort xs) = doubles xs"
  by (simp add: doubles_def list_all_iff)

lemma recorded_doubles: "list_all (\<lambda>x. fl x = x) xs \<Longrightarrow> doubles (record_batch [] xs)"
  by (auto simp: record_batch_samples doubles_def list_all_iff max_def)

lemma summary_ordered:
  assumes "list_all (\<lambda>x. fl x = x) latencies" "latencies \<noteq> []"
  defines "s \<equiv> summary (record_batch [] latencies)"
  shows "0 \<le> ls_min s \<and> ls_min s \<le> ls_p50 s \<and> ls_p50 s \<le> ls_p90 s \<and> ls_p90 s \<le> ls_p99 s \<and> ls_p99 s \<le> ls_max s
    \<and> {ls_min s, ls_max s} \<subseteq> max 0 ` set latencies"
proof -
  define t where "t = sort (record_batch [] latencies)"
  have t: "sorted t" "doubles t" "set t = max 0 ` set latencies"
    using recorded_doubles [OF assms(1)] by (simp_all add: t_def doubles_sort record_batch_samples)
  then have "t \<noteq> []" using assms(2) by auto
  note t = t(1) this t(2,3)
  have n: "record_batch [] latencies \<noteq> []" using t(2) by (auto simp: t_def)
  have q: "0 \<le> fl (50 / 100)" "fl (50 / 100) \<le> fl (90 / 100)" "fl (90 / 100) \<le> fl (99 / 100)" "0 \<le> fl (90 / 100)"
    "0 \<le> fl (99 / 100)"
    by (simp_all add: fl_mono fl_nonneg)
  have "{t ! 0, last t} \<subseteq> set t" using t(2) by simp
  moreover have "0 \<le> t ! 0" using doubles_nth [OF t(3)] t(2) by simp
  ultimately show ?thesis
    using quantile_range(1) [OF t(1-3) q(1)] quantile_mono [OF t(1-3) q(1,2)] quantile_mono [OF t(1-3) q(4,3)]
      quantile_range(2) [OF t(1-3) q(5)] n
    by (simp add: s_def summary_def Let_def t(4) flip: t_def)
qed

section \<open>Properties\<close>

text \<open>
  The percentiles are in order although every step of the interpolation rounds: for any
  measured latencies that are doubles, the minimum, p50, p90, p99 and the maximum of the summary
  ascend, and minimum and maximum are measured samples.
\<close>

theorem percentiles_ordered:
  assumes "list_all (\<lambda>x. fl x = x) latencies" "latencies \<noteq> []"
  shows "let s = summary (record_batch [] latencies)
     in 0 \<le> ls_min s \<and> ls_min s \<le> ls_p50 s \<and> ls_p50 s \<le> ls_p90 s \<and> ls_p90 s \<le> ls_p99 s \<and> ls_p99 s \<le> ls_max s
      \<and> {ls_min s, ls_max s} \<subseteq> max 0 ` set latencies"
  unfolding Let_def using summary_ordered [OF assms] .

theorem percentiles_ordered_witness:
  "let s = summary (record_batch [] [3, 1, 2 :: rat]) in ls_min s \<le> ls_p50 s \<and> ls_p50 s \<le> ls_p90 s \<and> ls_p99 s \<le> ls_max s"
proof -
  have "list_all (\<lambda>x. fl x = x) [3, 1, 2 :: rat]"
    using fl_of_int [of 3] fl_of_int [of 1] fl_of_int [of 2] by simp
  from percentiles_ordered [OF this] show ?thesis by (simp add: Let_def)
qed

end
