(* ===== verification/Harness.thy ===== *)
theory Harness
  imports Latency LoadGen Runner
begin

text \<open>
  The benchmark harness, \<open>ml/benchmark/harness.py\<close>: both runs over a workload, their measurements
  and the report with its throughput claim. The readings of the clock and of the memory, the
  hardware profile and the report time are parameters; the workers of a concurrent run bring their
  own readings, and \<open>executor.map\<close> returns their outcomes in the order of the workload. The text of
  the evidence is kept as its case with the numbers it shows.
\<close>

section \<open>Definitions\<close>

record bench_env =
  be_t0 :: rat
  be_t1 :: rat
  be_event_times :: "nat \<Rightarrow> rat \<times> rat"
  be_memory :: "nat \<Rightarrow> rat"
  be_hardware :: pyval
  be_now :: datetime
  be_stamp :: string

text \<open>What a run accumulates; \<open>bs_reads\<close> counts the readings of the memory.\<close>

record harness_state =
  bs_tracker :: tracker
  bs_monitor :: ResourceMonitor
  bs_reads :: nat
  bs_processed :: nat
  bs_errors :: nat

definition read_memory :: "bench_env \<Rightarrow> harness_state \<Rightarrow> harness_state" where
  "read_memory env st = st\<lparr>bs_monitor := update_memory (be_memory env (bs_reads st)) (bs_monitor st), bs_reads := bs_reads st + 1\<rparr>"

definition start_state :: "bench_env \<Rightarrow> harness_state" where
  "start_state env = read_memory env \<lparr>bs_tracker = [], bs_monitor = new_monitor, bs_reads = 0, bs_processed = 0, bs_errors = 0\<rparr>"

definition elapsed_ms :: "rat \<times> rat \<Rightarrow> rat" where
  "elapsed_ms reading = fl (fl (snd reading - fst reading) * 1000)"

definition count_outcome :: "bench_env \<Rightarrow> nat \<Rightarrow> bool \<Rightarrow> harness_state \<Rightarrow> harness_state" where
  "count_outcome env idx is_err st =
     st\<lparr>bs_tracker := record_latency (bs_tracker st) (elapsed_ms (be_event_times env idx)),
        bs_processed := bs_processed st + 1, bs_errors := bs_errors st + (if is_err then 1 else 0)\<rparr>"

text \<open>The sequential loop reads the memory after every hundredth event.\<close>

definition sequential_event :: "bench_env \<Rightarrow> ('e \<Rightarrow> bool) \<Rightarrow> harness_state \<Rightarrow> nat \<times> 'e \<Rightarrow> harness_state" where
  "sequential_event env fails st entry = (case entry of (idx, ev) \<Rightarrow>
     let st' = count_outcome env idx (fails ev) st
     in if (idx + 1) mod 100 = 0 then read_memory env st' else st')"

definition concurrent_event :: "bench_env \<Rightarrow> ('e \<Rightarrow> bool) \<Rightarrow> harness_state \<Rightarrow> nat \<times> 'e \<Rightarrow> harness_state" where
  "concurrent_event env fails st entry = (case entry of (idx, ev) \<Rightarrow> count_outcome env idx (fails ev) st)"

definition timed_run :: "bench_env \<Rightarrow> ('e \<Rightarrow> bool) \<Rightarrow> int \<Rightarrow> 'e list \<Rightarrow> harness_state" where
  "timed_run env fails concurrency workload =
     foldl (if concurrency > 1 then concurrent_event env fails else sequential_event env fails)
       (start_state env) (enumerate 0 workload)"

datatype evidence_text =
    Verified_throughput rat
  | Not_verified rat nat rat

record harness_report =
  br_report_id :: string
  br_timestamp :: string
  br_hardware :: pyval
  br_component :: string
  br_parser_id :: string
  br_parser_version :: string
  br_event_count :: nat
  br_duration_seconds :: rat
  br_concurrency :: int
  br_batch_size :: int
  br_target_eps :: "rat option"
  br_measured_eps :: rat
  br_total_errors :: nat
  br_parse_success_rate :: rat
  br_latency :: latency_summary
  br_memory_peak_mb :: rat
  br_queue_depth_max :: int
  br_5k_claimed :: bool
  br_5k_verified :: bool
  br_evidence :: evidence_text

definition conclude ::
    "bench_env \<Rightarrow> harness_state \<Rightarrow> string \<Rightarrow> string \<Rightarrow> string \<Rightarrow> int \<Rightarrow> int \<Rightarrow> rat option \<Rightarrow> string option \<Rightarrow> harness_report" where
  "conclude env st component parser_id parser_version batch_size concurrency target_eps report_id =
     (let duration = max (fl (1 / 10000)) (fl (be_t1 env - be_t0 env));
          total = bs_processed st;
          measured_eps = py_round (fl (fl (of_nat total) / duration)) 2;
          success_rate = (if 0 < total
             then py_round (fl (fl (of_nat (total - bs_errors st)) / fl (of_nat total))) 4 else 0);
          (_, _, peak, depth) = stop_monitor (be_memory env (bs_reads st)) (bs_monitor st);
          verified = (5000 \<le> measured_eps)
      in \<lparr>br_report_id = (case report_id of
             Some r \<Rightarrow> if r \<noteq> [] then r else ''BENCH-'' @ be_stamp env | None \<Rightarrow> ''BENCH-'' @ be_stamp env),
          br_timestamp = str_replace ''+00:00'' ''Z'' (isoformat (be_now env)),
          br_hardware = be_hardware env, br_component = component,
          br_parser_id = parser_id, br_parser_version = parser_version,
          br_event_count = total, br_duration_seconds = py_round duration 4,
          br_concurrency = concurrency, br_batch_size = batch_size, br_target_eps = target_eps,
          br_measured_eps = measured_eps, br_total_errors = bs_errors st, br_parse_success_rate = success_rate,
          br_latency = summary (bs_tracker st), br_memory_peak_mb = peak, br_queue_depth_max = depth,
          br_5k_claimed = (case target_eps of None \<Rightarrow> False | Some t \<Rightarrow> t \<noteq> 0 \<and> 5000 \<le> t),
          br_5k_verified = verified,
          br_evidence = (if verified then Verified_throughput measured_eps else Not_verified measured_eps total duration)\<rparr>)"

text \<open>A parse counts as an error when it raises or gives the empty dictionary.\<close>

definition parse_fails :: "(pyval \<Rightarrow> dict result) \<Rightarrow> pyval \<Rightarrow> bool" where
  "parse_fails parse ev = (case parse ev of Inl _ \<Rightarrow> True | Inr d \<Rightarrow> d = [])"

definition resolve_workload :: "pyval list option \<Rightarrow> int \<Rightarrow> string \<Rightarrow> pyval list result" where
  "resolve_workload events event_count format_type = (case events of
       Some evs \<Rightarrow> Inr evs
     | None \<Rightarrow> res_bind (generate_batch event_count (new_generator format_type None)) (\<lambda>(evs, _). Inr (map PStr evs)))"

definition run_parser_benchmark ::
    "bench_env \<Rightarrow> (dict \<Rightarrow> pyval \<Rightarrow> dict result) \<Rightarrow> dict \<Rightarrow> pyval list option \<Rightarrow> int \<Rightarrow> string \<Rightarrow> int \<Rightarrow> rat option
     \<Rightarrow> int \<Rightarrow> string \<Rightarrow> string option \<Rightarrow> harness_report result" where
  "run_parser_benchmark env parse parser_spec events event_count format_type batch_size target_eps concurrency
     component_name report_id =
     res_bind (resolve_workload events event_count format_type) (\<lambda>workload.
       if workload = [] then Inl (ValueError ''Workload event count must be at least 1.'')
       else let parser_info = dict_get parser_spec ''parser'' (PDict [])
         in res_bind (py_get parser_info ''id'' (PStr ''benchmark.parser'')) (\<lambda>parser_id.
            res_bind (py_get parser_info ''version'' (PStr ''1.0.0'')) (\<lambda>parser_version.
              Inr (conclude env (timed_run env (parse_fails (parse parser_spec)) concurrency workload)
                     component_name (py_str parser_id) (py_str parser_version) batch_size concurrency target_eps report_id))))"

definition run_callable_benchmark ::
    "bench_env \<Rightarrow> ('e \<Rightarrow> 'r result) \<Rightarrow> 'e list \<Rightarrow> string \<Rightarrow> string \<Rightarrow> string \<Rightarrow> int \<Rightarrow> rat option \<Rightarrow> int
     \<Rightarrow> string option \<Rightarrow> harness_report result" where
  "run_callable_benchmark env target events component_name parser_id parser_version batch_size target_eps concurrency report_id =
     (if events = [] then Inl (ValueError ''Events list cannot be empty.'')
      else Inr (conclude env (timed_run env (\<lambda>ev. case target ev of Inl _ \<Rightarrow> True | Inr _ \<Rightarrow> False) concurrency events)
                  component_name parser_id parser_version batch_size concurrency target_eps report_id))"

section \<open>Lemmas\<close>

lemma read_memory_keeps [simp]:
  "bs_tracker (read_memory env st) = bs_tracker st" "bs_processed (read_memory env st) = bs_processed st"
  "bs_errors (read_memory env st) = bs_errors st"
  by (simp_all add: read_memory_def)

definition latencies_from :: "bench_env \<Rightarrow> nat \<Rightarrow> nat \<Rightarrow> rat list" where
  "latencies_from env i n = map (\<lambda>k. elapsed_ms (be_event_times env k)) [i..<i + n]"

lemma timed_events:
  fixes step :: "harness_state \<Rightarrow> nat \<times> 'e \<Rightarrow> harness_state" and fails :: "'e \<Rightarrow> bool"
  assumes step: "\<And>st idx ev. bs_tracker (step st (idx, ev)) = record_latency (bs_tracker st) (elapsed_ms (be_event_times env idx))
     \<and> bs_processed (step st (idx, ev)) = bs_processed st + 1
     \<and> bs_errors (step st (idx, ev)) = bs_errors st + (if fails ev then 1 else 0)"
  shows "bs_tracker (foldl step st (enumerate i evs)) = record_batch (bs_tracker st) (latencies_from env i (length evs))
     \<and> bs_processed (foldl step st (enumerate i evs)) = bs_processed st + length evs
     \<and> bs_errors (foldl step st (enumerate i evs)) = bs_errors st + length (filter fails evs)"
proof (induction evs arbitrary: st i)
  case (Cons ev evs)
  have "latencies_from env i (length (ev # evs)) = elapsed_ms (be_event_times env i) # latencies_from env (Suc i) (length evs)"
    by (simp add: latencies_from_def upt_conv_Cons del: upt_Suc)
  then show ?case using Cons.IH [of "step st (i, ev)" "Suc i"] step [of st i ev] by (simp add: record_batch_def)
qed (simp add: latencies_from_def record_batch_def)

lemma timed_run_measures:
  "bs_tracker (timed_run env fails concurrency evs) = record_batch [] (latencies_from env 0 (length evs))"
  "bs_processed (timed_run env fails concurrency evs) = length evs"
  "bs_errors (timed_run env fails concurrency evs) = length (filter fails evs)"
proof -
  have "bs_tracker (timed_run env fails concurrency evs) = record_batch (bs_tracker (start_state env)) (latencies_from env 0 (length evs))
     \<and> bs_processed (timed_run env fails concurrency evs) = bs_processed (start_state env) + length evs
     \<and> bs_errors (timed_run env fails concurrency evs) = bs_errors (start_state env) + length (filter fails evs)"
    unfolding timed_run_def
    by (intro timed_events) (simp add: concurrent_event_def sequential_event_def count_outcome_def Let_def)
  then show "bs_tracker (timed_run env fails concurrency evs) = record_batch [] (latencies_from env 0 (length evs))"
    "bs_processed (timed_run env fails concurrency evs) = length evs"
    "bs_errors (timed_run env fails concurrency evs) = length (filter fails evs)"
    by (simp_all add: start_state_def)
qed

text \<open>Which events fail changes nothing but the number of errors.\<close>

lemma timed_event_fails:
  "(if c > 1 then concurrent_event env fails else sequential_event env fails) (st\<lparr>bs_errors := m\<rparr>) (i, x)
   = ((if c > 1 then concurrent_event env fails' else sequential_event env fails') st (i, y))
       \<lparr>bs_errors := m + (if fails x then 1 else 0)\<rparr>"
  by (simp add: concurrent_event_def sequential_event_def count_outcome_def read_memory_def Let_def)

lemma timed_fold_fails:
  assumes "length xs = length ys"
  shows "\<exists>n. foldl (if c > 1 then concurrent_event env fails else sequential_event env fails) (st\<lparr>bs_errors := m\<rparr>) (enumerate i xs)
    = (foldl (if c > 1 then concurrent_event env fails' else sequential_event env fails') st (enumerate i ys))\<lparr>bs_errors := n\<rparr>"
  using assms
proof (induction xs ys arbitrary: st m i rule: list_induct2)
  case Nil
  then show ?case by auto
next
  case (Cons x xs y ys)
  show ?case
    unfolding enumerate_simps foldl_Cons timed_event_fails [where fails' = fails' and y = y] by (rule Cons.IH)
qed

lemma timed_run_fails:
  assumes "length xs = length ys"
  obtains n where "timed_run env fails c xs = (timed_run env fails' c ys)\<lparr>bs_errors := n\<rparr>"
  using timed_fold_fails [OF assms, where c = c and env = env and fails = fails and fails' = fails' and i = 0
      and st = "start_state env" and m = "bs_errors (start_state env)"]
  by (auto simp: timed_run_def)

lemma success_rate_unit:
  "b \<le> n \<Longrightarrow> 0 < n \<Longrightarrow> 0 \<le> py_round (fl (fl (of_nat (n - b)) / fl (of_nat n))) 4
     \<and> py_round (fl (fl (of_nat (n - b)) / fl (of_nat n))) 4 \<le> 1"
proof -
  assume "b \<le> n" "0 < n"
  have "(0 :: rat) < fl (of_nat n)" using ieee.ge_one [of "of_nat n"] \<open>0 < n\<close> by (simp add: less_le_trans [OF zero_less_one])
  moreover have "fl (of_nat (n - b)) \<le> (fl (of_nat n) :: rat)" by (intro fl_mono) simp
  moreover have "(0 :: rat) \<le> fl (of_nat (n - b))" by (intro fl_nonneg) simp
  ultimately have "0 \<le> fl (of_nat (n - b)) / (fl (of_nat n) :: rat)" "fl (of_nat (n - b)) / (fl (of_nat n) :: rat) \<le> 1"
    by (simp_all add: divide_le_eq_1)
  then show ?thesis by (intro round4.unit_interval) (simp_all add: float_bounds)
qed

lemma conclude_claims:
  "br_5k_verified (conclude env st c p v bs conc target rid) \<longleftrightarrow> 5000 \<le> br_measured_eps (conclude env st c p v bs conc target rid)"
  by (simp add: conclude_def Let_def case_prod_unfold)

lemma conclude_errors:
  "conclude env (st\<lparr>bs_errors := n\<rparr>) c p v bs conc target rid
   = (conclude env st c p v bs conc target rid)
       \<lparr>br_total_errors := n, br_parse_success_rate := (if 0 < bs_processed st
          then py_round (fl (fl (of_nat (bs_processed st - n)) / fl (of_nat (bs_processed st)))) 4 else 0)\<rparr>"
  by (simp add: conclude_def Let_def case_prod_unfold)

lemma run_parser_benchmark_Inr:
  assumes "run_parser_benchmark env parse spec (Some evs) n fmt bs target c component rid = Inr r"
  obtains i v where "evs \<noteq> []" "py_get (dict_get spec ''parser'' (PDict [])) ''id'' (PStr ''benchmark.parser'') = Inr i"
    "py_get (dict_get spec ''parser'' (PDict [])) ''version'' (PStr ''1.0.0'') = Inr v"
    "r = conclude env (timed_run env (parse_fails (parse spec)) c evs) component (py_str i) (py_str v) bs c target rid"
  using assms unfolding run_parser_benchmark_def resolve_workload_def
  by (auto simp: result_simps Let_def split: if_splits)

section \<open>Properties\<close>

text \<open>
  What a report says was measured: every event of the workload is counted, the errors are the
  events whose parse raised or gave nothing, the success rate lies between 0 and 1, the latency
  percentiles ascend, and the 5000 EPS are verified exactly when the reported throughput reaches
  them, whatever was claimed.
\<close>

theorem report_is_measured:
  assumes "run_parser_benchmark env parse spec (Some evs) event_count format_type batch_size target_eps concurrency component rid = Inr r"
  shows "br_event_count r = length evs \<and> br_total_errors r = length (filter (parse_fails (parse spec)) evs)
    \<and> 0 \<le> br_parse_success_rate r \<and> br_parse_success_rate r \<le> 1
    \<and> ls_min (br_latency r) \<le> ls_p50 (br_latency r) \<and> ls_p50 (br_latency r) \<le> ls_p90 (br_latency r)
    \<and> ls_p90 (br_latency r) \<le> ls_p99 (br_latency r) \<and> ls_p99 (br_latency r) \<le> ls_max (br_latency r)
    \<and> (br_5k_verified r \<longleftrightarrow> 5000 \<le> br_measured_eps r)"
proof -
  from assms obtain i v where e: "evs \<noteq> []"
    and r: "r = conclude env (timed_run env (parse_fails (parse spec)) concurrency evs) component (py_str i) (py_str v)
              batch_size concurrency target_eps rid"
    by (rule run_parser_benchmark_Inr)
  let ?l = "latencies_from env 0 (length evs)"
  have "list_all (\<lambda>x. fl x = x) ?l" "?l \<noteq> []"
    using e by (simp_all add: latencies_from_def list_all_iff elapsed_ms_def fl_idem)
  note lat = summary_ordered [OF this]
  have fields: "br_event_count r = length evs" "br_total_errors r = length (filter (parse_fails (parse spec)) evs)"
    "br_latency r = summary (record_batch [] ?l)"
    "br_parse_success_rate r = py_round (fl (fl (of_nat (length evs - length (filter (parse_fails (parse spec)) evs)))
       / fl (of_nat (length evs)))) 4"
    using e by (simp_all add: r conclude_def timed_run_measures Let_def case_prod_unfold)
  show ?thesis
    using lat success_rate_unit [of "length (filter (parse_fails (parse spec)) evs)" "length evs"] e
      conclude_claims [of env _ component "py_str i" "py_str v" batch_size concurrency target_eps rid]
    by (simp add: fields) (simp add: r)
qed

text \<open>
  The claim ignores failures: with the same readings of clock and memory, the reports of two
  parsers on workloads of equal length agree in everything but the number of errors and the success
  rate, so a parser that fails on every event is verified for 5000 EPS like one that never fails.
\<close>

theorem verification_ignores_failures:
  assumes "run_parser_benchmark env parse spec (Some evs) event_count format_type batch_size target_eps concurrency component rid = Inr r"
    and "run_parser_benchmark env parse' spec (Some evs') event_count format_type batch_size target_eps concurrency component rid = Inr r'"
    and "length evs = length evs'"
  shows "r = r'\<lparr>br_total_errors := br_total_errors r, br_parse_success_rate := br_parse_success_rate r\<rparr>"
proof -
  from assms(1) obtain i v where r: "py_get (dict_get spec ''parser'' (PDict [])) ''id'' (PStr ''benchmark.parser'') = Inr i"
    "py_get (dict_get spec ''parser'' (PDict [])) ''version'' (PStr ''1.0.0'') = Inr v"
    "r = conclude env (timed_run env (parse_fails (parse spec)) concurrency evs) component (py_str i) (py_str v)
       batch_size concurrency target_eps rid"
    by (rule run_parser_benchmark_Inr)
  from assms(2) r(1,2) have r': "r' = conclude env (timed_run env (parse_fails (parse' spec)) concurrency evs') component
       (py_str i) (py_str v) batch_size concurrency target_eps rid"
    by (elim run_parser_benchmark_Inr) simp
  obtain n where "timed_run env (parse_fails (parse spec)) concurrency evs
      = (timed_run env (parse_fails (parse' spec)) concurrency evs')\<lparr>bs_errors := n\<rparr>"
    using timed_run_fails [OF assms(3)] .
  then show ?thesis by (simp add: r(3) r' conclude_errors)
qed

section \<open>Witnesses\<close>

definition bench_demo :: bench_env where
  "bench_demo = \<lparr>be_t0 = 0, be_t1 = 1 / 16384, be_event_times = (\<lambda>_. (0, 1 / 16384)), be_memory = (\<lambda>_. 64),
     be_hardware = PDict [], be_now = \<lparr>dt_wall = 63900000000000000, dt_offset = Some 0\<rparr>, be_stamp = ''x''\<rparr>"

definition failing_run :: "harness_report result" where
  "failing_run = run_parser_benchmark bench_demo (\<lambda>_ _. Inl TypeError) [] (Some [PStr ''a'']) 1 ''kv'' 100 None 1 ''parser_runtime'' None"

definition passing_run :: "harness_report result" where
  "passing_run = run_parser_benchmark bench_demo (\<lambda>_ _. Inr [(''a'', PNone)]) [] (Some [PStr ''b'']) 1 ''kv'' 100 None 1 ''parser_runtime'' None"

lemma demo_runs:
  "case failing_run of Inl e \<Rightarrow> False | Inr r \<Rightarrow> br_5k_verified r \<and> br_total_errors r = 1"
  "case passing_run of Inl e \<Rightarrow> False | Inr r \<Rightarrow> br_total_errors r = 0"
  by code_simp+

theorem report_is_measured_witness:
  "\<exists>r. failing_run = Inr r \<and> br_event_count r = 1 \<and> br_parse_success_rate r \<le> 1 \<and> 5000 \<le> br_measured_eps r"
proof -
  obtain r where r: "failing_run = Inr r" "br_5k_verified r" using demo_runs(1) by (auto split: sum.splits)
  with report_is_measured [OF r(1) [unfolded failing_run_def]] show ?thesis by auto
qed

theorem verification_ignores_failures_witness:
  "\<exists>r r'. failing_run = Inr r \<and> passing_run = Inr r' \<and> br_total_errors r = 1 \<and> br_total_errors r' = 0
     \<and> br_5k_verified r = br_5k_verified r' \<and> br_measured_eps r = br_measured_eps r'"
proof -
  obtain r r' where r: "failing_run = Inr r" "br_total_errors r = 1" "passing_run = Inr r'" "br_total_errors r' = 0"
    using demo_runs by (auto split: sum.splits)
  have "r = r'\<lparr>br_total_errors := br_total_errors r, br_parse_success_rate := br_parse_success_rate r\<rparr>"
    by (rule verification_ignores_failures [OF r(1) [unfolded failing_run_def] r(3) [unfolded passing_run_def]]) simp
  from arg_cong [OF this, of br_5k_verified] arg_cong [OF this, of br_measured_eps]
  have "br_5k_verified r = br_5k_verified r'" "br_measured_eps r = br_measured_eps r'" by simp_all
  with r show ?thesis by blast
qed

end
