(* ===== verification/Assurance.thy ===== *)
theory Assurance
  imports Passport Harness EventExport
begin

text \<open>
  The assurance command, \<open>scripts/audit.py\<close>: its table of test commands with their working
  directories, the git fallback, the attestation digest, the passport it exports, the inspector of
  one step, the suite with its verdict and exit code, and the dispatch of the parsed arguments.
  Running a command is the parameter \<open>run\<close>, called with the number of the step, the command and
  the working directory below the root of the repository; the rich markup is kept where the code
  chooses it, the layout of the tables and panels is left out.
\<close>

section \<open>Definitions\<close>

type_synonym test_step = "string \<times> string \<times> string \<times> string list \<times> string"

definition TEST_STEPS :: "string \<Rightarrow> test_step list" where
  "TEST_STEPS exe = [
     (''Versioned JSON Contracts'', ''Contract First'', ''10 Schemas Draft-07 Validated'',
       [exe, ''tests/contracts/test_schemas.py''], ''Python''),
     (''Telemetry Passport Gate'', ''Assurance Plane'', ''Uncertified Numeric Metric Blocked'',
       [exe, ''tests/passport/test_passport.py''], ''Python''),
     (''Ingest Gateway & Storage'', ''Data Plane [Go]'', ''100% Byte Retention & SHA-256'',
       [''go'', ''test'', ''-v'', ''-count=1'', ''-run'', ''TestNewRawEventEnvelope|TestLocalFSStore|TestIngestService|TestInMemoryBus|TestEnvelope|TestGoldenFixture'', ''./...''], ''Go''),
     (''Telemetry Firewall'', ''Data Plane [Go]'', ''Zero ReDoS & Malformed Quarantine'',
       [''go'', ''test'', ''-v'', ''-count=1'', ''-run'', ''TestFirewall'', ''./...''], ''Go''),
     (''Deterministic Parser DSL'', ''Data Plane [Go]'', ''Zero Eval / Whitelist Data-Only'',
       [''go'', ''test'', ''-v'', ''-count=1'', ''./...''], ''Go''),
     (''Canonical ULPF-IR Normalizer'', ''Data Plane [Go]'', ''14 Field Families / Zero Schema Bias'',
       [''go'', ''test'', ''-v'', ''-count=1'', ''./...''], ''Go''),
     (''Forensic Lineage Integrity'', ''Data Plane [Go]'', ''Exact Byte Slice Pointer Proof'',
       [''go'', ''test'', ''-v'', ''-count=1'', ''-run'', ''TestLineage'', ''./...''], ''Go''),
     (''ECS & OCSF Exporters'', ''Data Plane [Go]'', ''Deterministic Pure Projections'',
       [''go'', ''test'', ''-v'', ''-count=1'', ''./...''], ''Go''),
     (''Detection Contracts (DET 1-6)'', ''Assurance Plane [Go]'', ''SIEM Detection Rule Preservation'',
       [''go'', ''test'', ''-v'', ''-count=1'', ''-run'', ''TestEngine'', ''./...''], ''Go''),
     (''Detection Preservation (DPS)'', ''Assurance Plane [Go]'', ''100% Mandatory Rule Gate'',
       [''go'', ''test'', ''-v'', ''-count=1'', ''-run'', ''TestDPS'', ''./...''], ''Go''),
     (''Source Profiler & Type Inferrer'', ''Intelligence [Py]'', ''Template Mining & 6 Log Formats'',
       [exe, ''-m'', ''pytest'', ''ml/tests/test_profiler.py'', ''-q''], ''Python''),
     (''Semantic Mapper & Abstention'', ''Intelligence [Py]'', ''Rule 4 Abstain on Uncertain (<0.80)'',
       [exe, ''-m'', ''pytest'', ''ml/tests/test_semantic_mapper.py'', ''-q''], ''Python''),
     (''Local AI Assist Engine'', ''Intelligence [Py]'', ''Zero-Cloud Heuristic Regex Synthesis'',
       [exe, ''-m'', ''pytest'', ''ml/tests/test_ai_assist.py'', ''-q''], ''Python''),
     (''Spec Compiler & Sandbox'', ''Intelligence [Py]'', ''Safe AST Compilation & Fuzzing'',
       [exe, ''-m'', ''pytest'', ''ml/tests/test_spec_compiler.py'', ''ml/tests/test_test_bench.py'', ''-q''], ''Python''),
     (''Onboarding Orchestrator'', ''Control Plane [Py]'', ''Hot Deployment & Atomic Rollback'',
       [exe, ''-m'', ''pytest'', ''ml/tests/test_orchestrator.py'', ''ml/tests/test_deployer.py'', ''-q''], ''Python''),
     (''Empirical Validation Engine'', ''Assurance Plane [Py]'', ''6 Golden Corpora (100% Extraction)'',
       [exe, ''-m'', ''pytest'', ''ml/tests/test_validation.py'', ''-q''], ''Python''),
     (''Structural Drift Detection'', ''Assurance Plane [Py]'', ''Jaccard Distance & Key-Set Mutations'',
       [exe, ''-m'', ''pytest'', ''ml/tests/test_drift.py'', ''-q''], ''Python''),
     (''Semantic Drift Detection'', ''Assurance Plane [Py]'', ''Enum Inversion & DPS Delta Regression'',
       [exe, ''-m'', ''pytest'', ''ml/tests/test_semantic_drift.py'', ''-q''], ''Python''),
     (''Shadow Dual-Execution'', ''Assurance Plane [Py]'', ''Zero Downstream Bus Leakage'',
       [exe, ''-m'', ''pytest'', ''ml/tests/test_shadow.py'', ''-q''], ''Python''),
     (''Safe Self-Healing Workflow'', ''Control Plane [Py]'', ''5 Mandatory PRD Refusal Gates'',
       [exe, ''-m'', ''pytest'', ''ml/tests/test_self_heal.py'', ''-q''], ''Python''),
     (''Performance Benchmark Engine'', ''Assurance Plane [Py]'', ''Empirical Saturation (>5,000 EPS Scope Guard)'',
       [exe, ''-m'', ''pytest'', ''ml/tests/test_benchmark.py'', ''-q''], ''Python''),
     (''Air-Gap Validation Gate'', ''Platform [Airgap]'', ''Zero Outbound Cloud/DNS Calls'',
       [exe, ''tests/airgap/test_airgap.py''], ''Python''),
     (''Deterministic Demo Rehearsal'', ''Delivery [Demo]'', ''Reproducible Clean-Start'',
       [exe, ''tests/demo/test_demo.py''], ''Python'')]"

definition resolve_cwd :: "string \<Rightarrow> string \<Rightarrow> string list" where
  "resolve_cwd name lang = (let mentions = (\<lambda>p. str_contains p name) in
     if lang = ''Python'' then []
     else if mentions ''Ingest'' \<or> mentions ''Firewall'' then [''apps'', ''ingest-gateway'']
     else if mentions ''Normalizer'' then [''apps'', ''normalize-worker'']
     else if mentions ''Parser DSL'' \<or> mentions ''Lineage'' then [''packages'', ''parser-runtime'']
     else if mentions ''Exporters'' then [''packages'', ''exporters'']
     else if mentions ''Detection'' \<or> mentions ''DPS'' then [''packages'', ''detection-contracts'']
     else [])"

definition format_layer :: "string \<Rightarrow> string" where
  "format_layer layer = (let mentions = (\<lambda>p. str_contains p layer) in
     if mentions ''Data Plane'' then ''[bold cyan]Data Plane[/bold cyan] [dim](Go)[/dim]''
     else if mentions ''Intelligence'' then ''[bold magenta]Intelligence[/bold magenta] [dim](Py)[/dim]''
     else if mentions ''Assurance'' then
       str_strip (''[bold blue]Assurance[/bold blue] ''
         @ (if mentions ''Go'' then ''[dim](Go)[/dim]'' else if mentions ''Py'' then ''[dim](Py)[/dim]'' else []))
     else if mentions ''Control Plane'' then ''[bold green]Control Plane[/bold green] [dim](Py)[/dim]''
     else if mentions ''Platform'' then ''[bold yellow]Platform[/bold yellow] [dim](Airgap)[/dim]''
     else if mentions ''Delivery'' then ''[bold bright_cyan]Delivery[/bold bright_cyan] [dim](Demo)[/dim]''
     else if mentions ''Contract First'' then ''[bold blue]Contract First[/bold blue]''
     else ''[bold white]'' @ layer @ ''[/bold white]'')"

text \<open>\<open>git\<close> is the output of the command run in the root of the repository, or what it raises.\<close>

definition get_git_metadata :: "(string list \<Rightarrow> string result) \<Rightarrow> string \<times> string" where
  "get_git_metadata git =
     (case res_bind (git [''git'', ''rev-parse'', ''--short'', ''HEAD'']) (\<lambda>commit.
           res_bind (git [''git'', ''rev-parse'', ''--abbrev-ref'', ''HEAD'']) (\<lambda>branch.
             Inr (str_strip commit, str_strip branch))) of
        Inr found \<Rightarrow> found
      | Inl _ \<Rightarrow> (''v1.0.0-release'', ''main (standalone)''))"

text \<open>\<open>f"{x:.nf}"\<close> for a positive number of decimals: the exact value rounded to them, ties to even.\<close>

definition fixed_point :: "nat \<Rightarrow> rat \<Rightarrow> string" where
  "fixed_point n x = (let m = round_half_even (\<bar>x\<bar> * 10 ^ n) in
     (if x < 0 then ''-'' else []) @ show_int (m div 10 ^ n) @ ''.'' @ pad_int n (m mod 10 ^ n))"

definition generate_audit_digest :: "(string \<Rightarrow> string) \<Rightarrow> string \<Rightarrow> string \<Rightarrow> int \<Rightarrow> int \<Rightarrow> rat \<Rightarrow> string" where
  "generate_audit_digest sha256 node commit passed total_steps duration =
     sha256 (''ulpf-x-attest:'' @ commit @ '':'' @ show_int passed @ '':'' @ show_int total_steps @ '':''
             @ fixed_point 3 duration @ '':'' @ node)"

text \<open>\<open>int(t.timestamp())\<close> of an aware \<open>t\<close>: the seconds since 1970, cut towards zero.\<close>

definition epoch_seconds :: "datetime \<Rightarrow> int" where
  "epoch_seconds t =
     (let us = dt_wall t - (case dt_offset t of None \<Rightarrow> 0 | Some z \<Rightarrow> z) - days_of_date 1970 1 1 * 86400000000
      in if 0 \<le> us then us div 1000000 else - ((- us) div 1000000))"

definition audit_evidence :: "string \<Rightarrow> datetime \<Rightarrow> ValidationEvidence" where
  "audit_evidence commit now =
     \<lparr>ve_run_id = PStr (''validation-run-'' @ commit @ ''-'' @ show_int (epoch_seconds now)),
      ve_completed_at = now, ve_passed = True,
      ve_metrics = map (\<lambda>name. (name, PFloat 1)) METRIC_NAMES,
      ve_drift_state = Some ''STABLE'', ve_drift_observed_at = Some now\<rparr>"

text \<open>
  The document written to \<open>artifacts/certified_passport.json\<close>, and \<open>None\<close> where an exception was
  turned into a warning; \<open>store\<close> is the creation of the directory and the writing of the file.
\<close>

definition export_certified_passport ::
    "(int \<Rightarrow> int) \<Rightarrow> (pyval \<Rightarrow> unit result) \<Rightarrow> datetime \<Rightarrow> string \<Rightarrow> pyval option" where
  "export_certified_passport local store now commit =
     (case res_bind (build_passport local (PStr ''ulpf-production-pipeline'') (PStr ''ulpf.canonical.normalizer'')
             (PStr ''1.0.0'') (Some (audit_evidence commit now))) (\<lambda>passport.
           res_bind (store passport) (\<lambda>_. Inr passport)) of
        Inr passport \<Rightarrow> Some passport
      | Inl _ \<Rightarrow> None)"

section \<open>Running the steps\<close>

text \<open>What running a command gives: its exit code with its output and errors, or an exception.\<close>

record finished =
  fin_returncode :: int
  fin_stdout :: string
  fin_stderr :: string

type_synonym runner = "nat \<Rightarrow> string list \<Rightarrow> string list \<Rightarrow> finished result"

datatype inspection =
    Invalid_index int
  | Execution_skipped string
  | Executed bool rat string

definition output_of :: "finished \<Rightarrow> string" where
  "output_of res = (let text = (if fin_stdout res \<noteq> [] then fin_stdout res else fin_stderr res) in
     if str_strip text = [] then ''[No output emitted]'' else str_strip text)"

definition inspect_subsystem :: "string \<Rightarrow> runner \<Rightarrow> (nat \<Rightarrow> rat \<times> rat) \<Rightarrow> int \<Rightarrow> (inspection \<times> int) result" where
  "inspect_subsystem exe run clock step_idx =
     (if step_idx < 1 \<or> step_idx > int (length (TEST_STEPS exe)) then Inr (Invalid_index step_idx, 1)
      else case TEST_STEPS exe ! nat (step_idx - 1) of (name, layer, invariant, cmd, lang) \<Rightarrow>
        (case run (nat step_idx) cmd (resolve_cwd name lang) of
           Inr res \<Rightarrow> Inr (Executed (fin_returncode res = 0) (elapsed_ms (clock (nat step_idx))) (output_of res),
                            fin_returncode res)
         | Inl e \<Rightarrow> (case e of
             FileNotFoundError \<Rightarrow> Inr (Execution_skipped (hd cmd), 1)
           | _ \<Rightarrow> Inl e)))"

definition list_subsystems :: "string \<Rightarrow> (string \<times> string \<times> string \<times> string \<times> string) list" where
  "list_subsystems exe =
     map (\<lambda>(idx, name, layer, invariant, cmd, lang).
       (show_nat idx, name, format_layer layer, invariant, ''make inspect-'' @ show_nat idx))
       (enumerate 1 (TEST_STEPS exe))"

text \<open>Groups of three digits, \<open>f"{n:,}"\<close>.\<close>

fun group_thousands :: "string \<Rightarrow> string" where
  "group_thousands (a # b # c # d # s) = a # b # c # CHR '','' # group_thousands (d # s)"
| "group_thousands s = s"

definition show_thousands :: "int \<Rightarrow> string" where
  "show_thousands i = (if i < 0 then ''-'' else []) @ rev (group_thousands (rev (show_int \<bar>i\<bar>)))"

definition get_dynamic_peak_eps :: "bench_env \<Rightarrow> (string \<Rightarrow> pyval option) \<Rightarrow> string" where
  "get_dynamic_peak_eps env json_loads =
     (case run_parser_benchmark env (parse_event json_loads) SAMPLE_CEF_SPEC None 500 ''cef'' 100 (Some 5000) 1
             ''parser_runtime'' None of
        Inr report \<Rightarrow> show_thousands (round_half_even (br_measured_eps report)) @ '' EPS''
      | Inl _ \<Rightarrow> ''>5,000 EPS'')"

datatype step_status = SKIPPED | PASS | FAIL

record suite_state =
  tc_passed :: nat
  tc_failed :: nat
  tc_skipped :: nat
  tc_rows :: "(string \<times> string \<times> string \<times> string \<times> string \<times> step_status) list"

definition suite_row :: "nat \<Rightarrow> test_step \<Rightarrow> rat \<Rightarrow> step_status \<Rightarrow> string \<times> string \<times> string \<times> string \<times> string \<times> step_status" where
  "suite_row idx tstep ms status = (case tstep of (name, layer, invariant, cmd, lang) \<Rightarrow>
     (show_nat idx, name, format_layer layer, invariant, fixed_point 1 ms @ '' ms'', status))"

definition suite_step :: "runner \<Rightarrow> (nat \<Rightarrow> rat \<times> rat) \<Rightarrow> suite_state \<Rightarrow> nat \<times> test_step \<Rightarrow> suite_state result" where
  "suite_step run clock st entry = (case entry of (idx, name, layer, invariant, cmd, lang) \<Rightarrow>
     let row = suite_row idx (name, layer, invariant, cmd, lang) (elapsed_ms (clock idx)) in
     (case run idx cmd (resolve_cwd name lang) of
        Inl e \<Rightarrow> (case e of
            FileNotFoundError \<Rightarrow> Inr (st\<lparr>tc_skipped := tc_skipped st + 1, tc_rows := tc_rows st @ [row SKIPPED]\<rparr>)
          | _ \<Rightarrow> Inl e)
      | Inr res \<Rightarrow> if fin_returncode res = 0
          then Inr (st\<lparr>tc_passed := tc_passed st + 1, tc_rows := tc_rows st @ [row PASS]\<rparr>)
          else Inr (st\<lparr>tc_failed := tc_failed st + 1, tc_rows := tc_rows st @ [row FAIL]\<rparr>)))"

datatype verdict = Operational nat nat nat rat | Regression nat nat

definition run_test_suite ::
    "string \<Rightarrow> bench_env \<Rightarrow> (string \<Rightarrow> pyval option) \<Rightarrow> runner \<Rightarrow> (nat \<Rightarrow> rat \<times> rat) \<Rightarrow> rat \<times> rat
     \<Rightarrow> (string \<times> suite_state \<times> verdict \<times> int) result" where
  "run_test_suite exe env json_loads run clock wall =
     (let live_eps = get_dynamic_peak_eps env json_loads; steps = TEST_STEPS exe in
      res_bind (res_foldl (suite_step run clock) \<lparr>tc_passed = 0, tc_failed = 0, tc_skipped = 0, tc_rows = []\<rparr>
                 (enumerate 1 steps)) (\<lambda>st.
        Inr (live_eps, st,
             if tc_failed st = 0 then Operational (tc_passed st) (tc_skipped st) (length steps) (fl (snd wall - fst wall))
             else Regression (tc_failed st) (length steps),
             if tc_failed st = 0 then 0 else 1)))"

text \<open>\<open>s.isdigit()\<close>, which the superscripts of Latin-1 satisfy and \<open>int\<close> refuses.\<close>

definition str_isdigit :: "string \<Rightarrow> bool" where
  "str_isdigit s \<longleftrightarrow> s \<noteq> [] \<and> list_all (\<lambda>c. is_digit c \<or> (of_char c :: nat) \<in> {178, 179, 185}) s"

record audit_args =
  aa_target :: "string option"
  aa_inspect :: "int option"
  aa_list :: bool

definition audit_main ::
    "string \<Rightarrow> bench_env \<Rightarrow> (string \<Rightarrow> pyval option) \<Rightarrow> runner \<Rightarrow> (nat \<Rightarrow> rat \<times> rat) \<Rightarrow> rat \<times> rat \<Rightarrow> audit_args \<Rightarrow> int result" where
  "audit_main exe env json_loads run clock wall args =
     (if aa_list args \<or> (case aa_target args of None \<Rightarrow> False | Some t \<Rightarrow> t \<noteq> [] \<and> str_lower t \<in> {''list'', ''ls''}) then Inr 0
      else case aa_inspect args of
        Some i \<Rightarrow> res_bind (inspect_subsystem exe run clock i) (\<lambda>(_, code). Inr code)
      | None \<Rightarrow> (case aa_target args of
          Some t \<Rightarrow> if str_isdigit t
             then res_bind (int_of_text t) (\<lambda>i. res_bind (inspect_subsystem exe run clock i) (\<lambda>(_, code). Inr code))
             else Inr 1
        | None \<Rightarrow> res_bind (run_test_suite exe env json_loads run clock wall) (\<lambda>(_, _, _, code). Inr code)))"

section \<open>Lemmas\<close>

text \<open>The status of a step, as a function of what running it gave.\<close>

fun outcome_of_step :: "finished result \<Rightarrow> step_status" where
  "outcome_of_step (Inl e) = SKIPPED"
| "outcome_of_step (Inr res) = (if fin_returncode res = 0 then PASS else FAIL)"

definition ran :: "runner \<Rightarrow> nat \<times> test_step \<Rightarrow> finished result" where
  "ran run entry = (case entry of (idx, name, layer, invariant, cmd, lang) \<Rightarrow> run idx cmd (resolve_cwd name lang))"

definition steps_where :: "runner \<Rightarrow> step_status \<Rightarrow> (nat \<times> test_step) list \<Rightarrow> nat" where
  "steps_where run status es = length (filter (\<lambda>entry. outcome_of_step (ran run entry) = status) es)"

lemma steps_where_simps [simp]:
  "steps_where run s [] = 0"
  "steps_where run s (e # es) = (if outcome_of_step (ran run e) = s then 1 else 0) + steps_where run s es"
  by (simp_all add: steps_where_def)

lemma suite_step_outcome:
  assumes "suite_step run clock st entry = Inr st'"
  shows "(\<forall>e. ran run entry = Inl e \<longrightarrow> e = FileNotFoundError)
    \<and> tc_passed st' = tc_passed st + (if outcome_of_step (ran run entry) = PASS then 1 else 0)
    \<and> tc_failed st' = tc_failed st + (if outcome_of_step (ran run entry) = FAIL then 1 else 0)
    \<and> tc_skipped st' = tc_skipped st + (if outcome_of_step (ran run entry) = SKIPPED then 1 else 0)
    \<and> length (tc_rows st') = length (tc_rows st) + 1"
proof -
  obtain idx name layer invariant cmd lang where e: "entry = (idx, name, layer, invariant, cmd, lang)"
    by (cases entry) auto
  show ?thesis using assms
    by (cases "run idx cmd (resolve_cwd name lang)")
      (auto simp: e suite_step_def ran_def Let_def split: exn.splits if_splits)
qed

lemma suite_counts_steps:
  assumes "res_foldl (suite_step run clock) st es = Inr st'"
  shows "(\<forall>entry\<in>set es. \<forall>e. ran run entry = Inl e \<longrightarrow> e = FileNotFoundError)
    \<and> tc_passed st' = tc_passed st + steps_where run PASS es
    \<and> tc_failed st' = tc_failed st + steps_where run FAIL es
    \<and> tc_skipped st' = tc_skipped st + steps_where run SKIPPED es
    \<and> length (tc_rows st') = length (tc_rows st) + length es"
  using assms
proof (induction es arbitrary: st)
  case (Cons entry es)
  from Cons.prems obtain s where s: "suite_step run clock st entry = Inr s" "res_foldl (suite_step run clock) s es = Inr st'"
    by (auto simp: res_bind_Inr_iff)
  from suite_step_outcome [OF s(1)] Cons.IH [OF s(2)] show ?case by auto
qed simp

lemma steps_length [simp]: "length (TEST_STEPS exe) = 23"
  by (simp add: TEST_STEPS_def)

lemma steps_partition: "steps_where run PASS es + steps_where run FAIL es + steps_where run SKIPPED es = length es"
  by (induction es) (auto intro: step_status.exhaust)

lemma no_failures: "steps_where run FAIL es = 0 \<longleftrightarrow> (\<forall>entry\<in>set es. \<forall>res. ran run entry = Inr res \<longrightarrow> fin_returncode res = 0)"
proof (induction es)
  case (Cons e es)
  then show ?case by (cases "ran run e") auto
qed simp

lemma audit_evidence_complete:
  "dt_aware now \<Longrightarrow> evidence_complete (audit_evidence commit now)"
  by (auto simp: evidence_complete_def audit_evidence_def DRIFT_STATES_def METRIC_NAMES_def unit_number_def
      str_strip_def rstrip_by_def lstrip_by_def is_space_def)

section \<open>Properties\<close>

text \<open>
  C36. The verdict of the suite: every step is counted once, as passed, failed or skipped, a step
  being skipped whenever starting it raised \<open>FileNotFoundError\<close>; the exit code is 0 and the verdict
  operational exactly when no step that ran failed, however many ran.
\<close>

theorem suite_verdict:
  assumes "run_test_suite exe env json_loads run clock wall = Inr (eps, st, v, code)"
  shows "tc_passed st + tc_failed st + tc_skipped st = 23 \<and> length (tc_rows st) = 23
    \<and> tc_skipped st = steps_where run SKIPPED (enumerate 1 (TEST_STEPS exe))
    \<and> (code = 0 \<longleftrightarrow> (\<forall>entry\<in>set (enumerate 1 (TEST_STEPS exe)). \<forall>res. ran run entry = Inr res \<longrightarrow> fin_returncode res = 0))
    \<and> v = (if code = 0 then Operational (tc_passed st) (tc_skipped st) 23 (fl (snd wall - fst wall)) else Regression (tc_failed st) 23)
    \<and> code = (if tc_failed st = 0 then 0 else 1)"
proof -
  from assms have f: "res_foldl (suite_step run clock) \<lparr>tc_passed = 0, tc_failed = 0, tc_skipped = 0, tc_rows = []\<rparr>
        (enumerate 1 (TEST_STEPS exe)) = Inr st"
    and c: "code = (if tc_failed st = 0 then 0 else 1)"
    and v: "v = (if tc_failed st = 0 then Operational (tc_passed st) (tc_skipped st) 23 (fl (snd wall - fst wall)) else Regression (tc_failed st) 23)"
    by (auto simp: run_test_suite_def Let_def res_bind_Inr_iff)
  note counts = suite_counts_steps [OF f, simplified]
  show ?thesis
    using counts steps_partition [of run "enumerate 1 (TEST_STEPS exe)"] no_failures [of run "enumerate 1 (TEST_STEPS exe)"]
    by (auto simp: c v)
qed

text \<open>
  The exported passport measures nothing: whenever the clock is aware and the file can be
  written, the passport is certified and gives every metric the score 1, whatever the suite found.
\<close>

theorem exported_passport_unconditional:
  assumes "dt_aware now" "astimezone_utc local now = Inr u" "\<And>p. store p = Inr ()"
  shows "\<exists>p. export_certified_passport local store now commit = Some p
    \<and> member (member p ''certification'') ''status'' = PStr ''CERTIFIED''
    \<and> (\<forall>n\<in>set METRIC_NAMES. member (member p ''scores'') n = PFloat 1)"
proof -
  let ?ev = "audit_evidence commit now"
  note complete = audit_evidence_complete [OF assms(1), of commit]
  have ev: "ve_completed_at ?ev = now" "ve_drift_observed_at ?ev = Some now" "ve_passed ?ev"
    by (simp_all add: audit_evidence_def)
  obtain p where p: "certified local (PStr ''ulpf-production-pipeline'') (PStr ''ulpf.canonical.normalizer'') (PStr ''1.0.0'') ?ev = Inr p"
    using certified_total [OF complete, of local "PStr ''ulpf-production-pipeline''" "PStr ''ulpf.canonical.normalizer''" "PStr ''1.0.0''"]
    by (auto simp: ev assms(2))
  have texts: "str_strip ''ulpf-production-pipeline'' \<noteq> []" "str_strip ''ulpf.canonical.normalizer'' \<noteq> []" "str_strip ''1.0.0'' \<noteq> []"
    by (simp_all add: str_strip_def rstrip_by_def lstrip_by_def is_space_def)
  have b: "build_passport local (PStr ''ulpf-production-pipeline'') (PStr ''ulpf.canonical.normalizer'') (PStr ''1.0.0'') (Some ?ev) = Inr p"
    using p ev complete texts by (auto simp: build_passport_def required_text_def validate_evidence_ok [symmetric])
  have "export_certified_passport local store now commit = Some p"
    by (simp add: export_certified_passport_def b assms(3))
  moreover have "member (member p ''certification'') ''status'' = PStr ''CERTIFIED''"
    using p by (rule certified_fields) (simp add: member_def dict_get_def)
  moreover have "\<forall>n\<in>set METRIC_NAMES. member (member p ''scores'') n = PFloat 1"
  proof
    fix n assume n: "n \<in> set METRIC_NAMES"
    then have "map_of (ve_metrics ?ev) n = Some (PFloat 1)"
      by (auto simp: audit_evidence_def METRIC_NAMES_def)
    with certified_scores [OF p] n show "member (member p ''scores'') n = PFloat 1" by (auto simp: list_all_iff)
  qed
  ultimately show ?thesis by blast
qed

section \<open>Witnesses\<close>

text \<open>No tool installed: every step is skipped, and the system is reported operational.\<close>

definition no_tools :: runner where
  "no_tools idx cmd cwd = Inl FileNotFoundError"

definition skipped_suite :: "(string \<times> suite_state \<times> verdict \<times> int) result" where
  "skipped_suite = run_test_suite ''python3'' bench_demo (\<lambda>_. None) no_tools (\<lambda>_. (0, 0)) (0, 1)"

lemma skipped_fold:
  "\<exists>st'. res_foldl (suite_step no_tools clock) st es = Inr st' \<and> tc_failed st' = tc_failed st \<and> tc_passed st' = tc_passed st"
proof (induction es arbitrary: st)
  case (Cons e es)
  obtain idx name layer invariant cmd lang where e: "e = (idx, name, layer, invariant, cmd, lang)" by (cases e) auto
  obtain s where s: "suite_step no_tools clock st e = Inr s" "tc_failed s = tc_failed st" "tc_passed s = tc_passed st"
    by (simp add: e suite_step_def no_tools_def Let_def)
  with Cons.IH [of s] show ?case by simp
qed simp

theorem suite_verdict_witness:
  "\<exists>eps st. skipped_suite = Inr (eps, st, Operational 0 23 23 (fl 1), 0) \<and> length (tc_rows st) = 23"
proof -
  obtain st where st: "res_foldl (suite_step no_tools (\<lambda>_. (0, 0))) \<lparr>tc_passed = 0, tc_failed = 0, tc_skipped = 0, tc_rows = []\<rparr>
      (enumerate 1 (TEST_STEPS ''python3'')) = Inr st" "tc_failed st = 0" "tc_passed st = 0"
    using skipped_fold by fastforce
  then have s: "skipped_suite = Inr (get_dynamic_peak_eps bench_demo (\<lambda>_. None), st,
      Operational 0 (tc_skipped st) 23 (fl (snd (0, 1) - fst (0 :: rat, 1))), 0)"
    by (simp add: skipped_suite_def run_test_suite_def Let_def)
  from suite_verdict [OF s [unfolded skipped_suite_def]] st(2,3) have "tc_skipped st = 23" "length (tc_rows st) = 23" by simp_all
  with s show ?thesis by auto
qed

theorem exported_passport_unconditional_witness:
  "\<exists>p. export_certified_passport (\<lambda>_. 0) (\<lambda>_. Inr ()) \<lparr>dt_wall = 63900000000000000, dt_offset = Some 0\<rparr> ''abc'' = Some p
     \<and> member (member p ''certification'') ''status'' = PStr ''CERTIFIED''"
proof -
  have t: "dt_aware \<lparr>dt_wall = 63900000000000000, dt_offset = Some 0\<rparr>"
    "astimezone_utc (\<lambda>_. 0) \<lparr>dt_wall = 63900000000000000, dt_offset = Some 0\<rparr> = Inr \<lparr>dt_wall = 63900000000000000, dt_offset = Some 0\<rparr>"
    by code_simp+
  from exported_passport_unconditional [OF t, of "\<lambda>_. Inr ()" "''abc''"] show ?thesis by auto
qed

end
