(* ===== verification/Daemon.thy ===== *)
theory Daemon
  imports PyConv
begin

text \<open>
  The background daemon of \<open>scripts/cli.py\<close>: rotation of its log, the PID file, and the commands
  start, stop, status and restart on a POSIX host. The processes of the host are those that
  \<open>os.kill(pid, 0)\<close> finds. A signal only marks its process, which ends at some later time, and a
  launched daemon serves only once it has bound its port, so the old and the new daemon of a
  restart overlap. Whether a signal can be sent or the PID file removed, which renames are refused
  and what number \<open>Popen\<close> gives are parameters. A command is one step, so two commands that
  interleave between reading and writing the PID file are not modelled, nor is a home directory
  that cannot be written.
\<close>

section \<open>Log rotation\<close>

type_synonym files = "string \<Rightarrow> string option"

definition backup_name :: "string \<Rightarrow> nat \<Rightarrow> string" where
  "backup_name name i = name @ ''.'' @ show_nat i"

definition move_file :: "string \<Rightarrow> string \<Rightarrow> files \<Rightarrow> files" where
  "move_file s d fs = (fs(d := fs s))(s := None)"

text \<open>The loop from \<open>backups - 1\<close> down to 1, and whether it ended without an exception.\<close>

fun rotate_backups :: "(string \<Rightarrow> string \<Rightarrow> bool) \<Rightarrow> string \<Rightarrow> nat \<Rightarrow> files \<Rightarrow> files \<times> bool" where
  "rotate_backups denied name 0 fs = (fs, True)"
| "rotate_backups denied name (Suc i) fs =
     (let s = backup_name name (Suc i); d = backup_name name (Suc (Suc i)) in
      if fs s \<noteq> None
      then (if denied s d then (fs, False) else rotate_backups denied name i (move_file s d fs))
      else rotate_backups denied name i fs)"

definition rotate_file_if_needed :: "(string \<Rightarrow> string \<Rightarrow> bool) \<Rightarrow> string \<Rightarrow> nat \<Rightarrow> int \<Rightarrow> files \<Rightarrow> files" where
  "rotate_file_if_needed denied name max_bytes backups fs = (case fs name of
       None \<Rightarrow> fs
     | Some content \<Rightarrow>
         if length content < max_bytes then fs
         else (case rotate_backups denied name (nat (backups - 1)) fs of (fs', ok) \<Rightarrow>
           if \<not> ok \<or> denied name (backup_name name 1) then fs'
           else move_file name (backup_name name 1) fs'))"

section \<open>Processes and the PID file\<close>

text \<open>
  A daemon that was launched and has not bound its port yet, one that serves it, or a process that
  has nothing to do with the program; and whether SIGTERM was sent to it.
\<close>

datatype role = Launched int | Serving int | Foreign

record process =
  pr_role :: role
  pr_told :: bool

type_synonym processes = "int \<Rightarrow> process option"

record host =
  h_pid_file :: "string option"
  h_processes :: processes
  h_logs :: files

record os_env =
  oe_group_alive :: "int \<Rightarrow> bool"
  oe_group_term :: "int \<Rightarrow> processes \<Rightarrow> processes"
  oe_delivered :: "int \<Rightarrow> bool"
  oe_unlink_ok :: bool
  oe_denied :: "string \<Rightarrow> string \<Rightarrow> bool"
  oe_spawn :: "int result"

text \<open>\<open>os.kill(pid, 0)\<close> asks for one process, or for a group when the number is not positive.\<close>

definition is_pid_alive :: "os_env \<Rightarrow> processes \<Rightarrow> int \<Rightarrow> bool" where
  "is_pid_alive env ps pid \<longleftrightarrow> (if 0 < pid then ps pid \<noteq> None else oe_group_alive env pid)"

definition sigterm :: "os_env \<Rightarrow> int \<Rightarrow> processes \<Rightarrow> processes" where
  "sigterm env pid ps =
     (if 0 < pid then (if oe_delivered env pid then ps(pid := map_option (\<lambda>pr. pr\<lparr>pr_told := True\<rparr>) (ps pid)) else ps)
      else oe_group_term env pid ps)"

definition get_daemon_pid :: "os_env \<Rightarrow> host \<Rightarrow> int option" where
  "get_daemon_pid env h = (case h_pid_file h of
       None \<Rightarrow> None
     | Some content \<Rightarrow> (case int_of_text (str_strip content) of
         Inl e \<Rightarrow> None
       | Inr pid \<Rightarrow> if is_pid_alive env (h_processes h) pid then Some pid else None))"

definition stop_daemon_process :: "os_env \<Rightarrow> host \<Rightarrow> host \<times> int option" where
  "stop_daemon_process env h =
     (let pid = get_daemon_pid env h;
          ps = (case pid of None \<Rightarrow> h_processes h | Some p \<Rightarrow> sigterm env p (h_processes h))
      in (h\<lparr>h_processes := ps, h_pid_file := if oe_unlink_ok env then None else h_pid_file h\<rparr>, pid))"

text \<open>The log is rotated and opened before the process starts; a failed start leaves the PID file.\<close>

definition start_daemon_process :: "os_env \<Rightarrow> int \<Rightarrow> host \<Rightarrow> host \<times> int option result" where
  "start_daemon_process env port h = (case get_daemon_pid env h of
       Some pid \<Rightarrow> (h, Inr (Some pid))
     | None \<Rightarrow>
         let logs = rotate_file_if_needed (oe_denied env) ''daemon.log'' 10485760 3 (h_logs h);
             h1 = h\<lparr>h_logs := (if logs ''daemon.log'' = None then logs(''daemon.log'' := Some []) else logs)\<rparr>
         in (case oe_spawn env of
               Inl e \<Rightarrow> (h1, Inl e)
             | Inr pid \<Rightarrow> (h1\<lparr>h_processes := (h_processes h1)(pid := Some \<lparr>pr_role = Launched port, pr_told = False\<rparr>),
                              h_pid_file := Some (show_int pid)\<rparr>, Inr (Some pid))))"

datatype daemon_action = Start | Stop | Status | Restart

datatype daemon_report = Stopped int | None_found | Already_running int | Started "int option" | Running int | Inactive

text \<open>\<open>if pid:\<close>\<close>

definition pid_truth :: "int option \<Rightarrow> bool" where
  "pid_truth pid \<longleftrightarrow> (case pid of None \<Rightarrow> False | Some p \<Rightarrow> p \<noteq> 0)"

definition handle_start :: "os_env \<Rightarrow> int \<Rightarrow> daemon_report list \<Rightarrow> host \<Rightarrow> host \<times> daemon_report list result" where
  "handle_start env port out h =
     (let existing = get_daemon_pid env h in
      if pid_truth existing then (h, Inr (out @ [Already_running (the existing)]))
      else case start_daemon_process env port h of (h', r) \<Rightarrow>
        (h', res_bind r (\<lambda>pid. Inr (out @ [Started pid]))))"

definition handle_daemon :: "os_env \<Rightarrow> daemon_action \<Rightarrow> int \<Rightarrow> host \<Rightarrow> host \<times> daemon_report list result" where
  "handle_daemon env action port h =
     (if action = Stop \<or> action = Restart then
        (case stop_daemon_process env h of (h', pid) \<Rightarrow>
          let out = [if pid_truth pid then Stopped (the pid) else None_found]
          in if action = Stop then (h', Inr out) else handle_start env port out h')
      else if action = Start then handle_start env port [] h
      else let pid = get_daemon_pid env h
           in (h, Inr [if pid_truth pid then Running (the pid) else Inactive]))"

text \<open>
  What a launched daemon does: \<open>ThreadingHTTPServer\<close> binds the port, and when another process serves
  it, the exception ends the daemon.
\<close>

definition port_taken :: "processes \<Rightarrow> int \<Rightarrow> bool" where
  "port_taken ps port \<longleftrightarrow> (\<exists>p pr. ps p = Some pr \<and> pr_role pr = Serving port)"

definition bind_port :: "int \<Rightarrow> host \<Rightarrow> host" where
  "bind_port p h = (case h_processes h p of
       None \<Rightarrow> h
     | Some pr \<Rightarrow> (case pr_role pr of
         Launched port \<Rightarrow> h\<lparr>h_processes := (h_processes h)(p :=
           if port_taken (h_processes h) port then None else Some (pr\<lparr>pr_role := Serving port\<rparr>))\<rparr>
       | _ \<Rightarrow> h))"



text \<open>A daemon that nobody asked to end.\<close>

definition kept_daemon :: "host \<Rightarrow> int \<Rightarrow> bool" where
  "kept_daemon h p \<longleftrightarrow> (\<exists>pr. h_processes h p = Some pr \<and> pr_role pr \<noteq> Foreign \<and> \<not> pr_told pr)"

text \<open>
  A host over time: commands whose signals can be sent and whose new process gets a free number,
  launched daemons that bind or fail to, processes that end (by themselves or some time after the
  signal), and other processes that start, possibly under a number that a daemon had.
\<close>

definition signals_delivered :: "os_env \<Rightarrow> bool" where
  "signals_delivered env \<longleftrightarrow> (\<forall>p. oe_delivered env p)"

definition free_spawn :: "os_env \<Rightarrow> host \<Rightarrow> bool" where
  "free_spawn env h \<longleftrightarrow> (case oe_spawn env of
       Inl e \<Rightarrow> True | Inr p \<Rightarrow> 0 < p \<and> p < 2 ^ 31 \<and> h_processes h p = None)"

inductive host_reachable :: "host \<Rightarrow> bool" where
  fresh: "(\<forall>p pr. ps p = Some pr \<longrightarrow> pr_role pr = Foreign)
     \<Longrightarrow> host_reachable \<lparr>h_pid_file = None, h_processes = ps, h_logs = fs\<rparr>"
| command: "host_reachable h \<Longrightarrow> signals_delivered env \<Longrightarrow> free_spawn env h
     \<Longrightarrow> host_reachable (fst (handle_daemon env action port h))"
| binds: "host_reachable h \<Longrightarrow> host_reachable (bind_port p h)"
| exits: "host_reachable h \<Longrightarrow> host_reachable (h\<lparr>h_processes := (h_processes h)(p := None)\<rparr>)"
| starts: "host_reachable h \<Longrightarrow> h_processes h p = None
     \<Longrightarrow> host_reachable (h\<lparr>h_processes := (h_processes h)(p := Some \<lparr>pr_role = Foreign, pr_told = False\<rparr>)\<rparr>)"

section \<open>Decimal numbers\<close>

definition read_digits :: "string \<Rightarrow> nat" where
  "read_digits s = foldl (\<lambda>a c. 10 * a + digit_val c) 0 s"

lemma digit_char_val: "d < 10 \<Longrightarrow> is_digit (digit_char d) \<and> digit_val (digit_char d) = d"
  by (simp add: is_digit_def digit_val_def digit_char_def)

lemma show_nat_digits: "list_all is_digit (show_nat n) \<and> show_nat n \<noteq> [] \<and> read_digits (show_nat n) = n"
proof (induction n rule: show_nat.induct)
  case (1 n)
  show ?case
  proof (cases "n < 10")
    case True
    then show ?thesis by (subst (1 2 3) show_nat.simps) (simp add: digit_char_val read_digits_def)
  next
    case False
    with 1 have ih: "list_all is_digit (show_nat (n div 10))" "read_digits (show_nat (n div 10)) = n div 10" by auto
    have "n mod 10 < 10" by simp
    from False ih digit_char_val [OF this] show ?thesis
      by (subst (1 2 3) show_nat.simps) (simp add: read_digits_def)
  qed
qed

lemma show_nat_inj [simp]: "show_nat m = show_nat n \<longleftrightarrow> m = n"
  using show_nat_digits [of m] show_nat_digits [of n] by metis

lemma parse_digits_all:
  "list_all is_digit s \<Longrightarrow> s \<noteq> [] \<or> after \<Longrightarrow> parse_digits acc after s = Some (foldl (\<lambda>a c. 10 * a + digit_val c) acc s)"
  by (induction s arbitrary: acc after) auto

lemma digit_not_space: "is_digit c \<Longrightarrow> \<not> is_space c \<and> c \<noteq> CHR ''-'' \<and> c \<noteq> CHR ''+''"
  by (auto simp: is_digit_def is_space_def Let_def)

lemma strip_digits: "list_all is_digit s \<Longrightarrow> str_strip s = s"
proof -
  have d: "list_all is_digit t \<Longrightarrow> dropWhile is_space t = t" for t
    by (cases t) (auto simp: digit_not_space)
  assume "list_all is_digit s"
  with d [of s] d [of "rev s"] show ?thesis by (simp add: str_strip_def rstrip_by_def lstrip_by_def)
qed

lemma show_nat_length: "n < 10 ^ k \<Longrightarrow> 0 < k \<Longrightarrow> length (show_nat n) \<le> k"
proof (induction n arbitrary: k rule: show_nat.induct)
  case (1 n)
  show ?case
  proof (cases "n < 10")
    case True
    then show ?thesis using 1(3) by (subst show_nat.simps) simp
  next
    case False
    then obtain j where j: "k = Suc j" "0 < j" using 1(2) by (cases k; cases "k = 1") auto
    then have "length (show_nat (n div 10)) \<le> j" using 1(1) [OF False, of j] 1(2) by (simp add: less_mult_imp_div_less)
    with j False show ?thesis by (subst show_nat.simps) simp
  qed
qed

lemma int_of_shown:
  assumes "0 < p" "p < 2 ^ 31"
  shows "int_of_text (str_strip (show_int p)) = Inr p"
proof -
  note digits = show_nat_digits [of "nat p"]
  have "nat p < 10 ^ 10" using assms by simp
  from show_nat_length [OF this] have len: "length (show_nat (nat p)) \<le> 10" by simp
  have strip: "str_strip (show_nat (nat p)) = show_nat (nat p)" using digits by (simp add: strip_digits)
  obtain c r where c: "show_nat (nat p) = c # r" "is_digit c" using digits by (cases "show_nat (nat p)") auto
  have "parse_int (show_nat (nat p)) = Some p"
    using digits digit_not_space [OF c(2)] parse_digits_all [of "show_nat (nat p)" False 0] assms(1)
    by (simp add: parse_int_def strip [unfolded c(1)] c(1) read_digits_def)
  moreover have "length (filter is_digit (show_nat (nat p))) \<le> 4300"
    using len length_filter_le [of is_digit "show_nat (nat p)"] by linarith
  ultimately show ?thesis using assms(1) by (simp add: int_of_text_def show_int_def strip)
qed

section \<open>Rotation\<close>

lemma backup_name_inj [simp]: "backup_name name i = backup_name name j \<longleftrightarrow> i = j"
  by (simp add: backup_name_def)

lemma backup_name_new [simp]: "backup_name name i \<noteq> name" "name \<noteq> backup_name name i"
  by (simp_all add: backup_name_def)

lemma rotate_backups_shift:
  assumes "rotate_backups (\<lambda>_ _. False) name k fs = (fs', ok)"
  shows "ok \<and> (\<forall>i\<in>{1..k}. fs' (backup_name name (i + 1)) =
        (if fs (backup_name name i) \<noteq> None then fs (backup_name name i)
         else if i < k then None else fs (backup_name name (i + 1))))
    \<and> (0 < k \<longrightarrow> fs' (backup_name name 1) = None)
    \<and> (\<forall>f. f \<notin> backup_name name ` {1..k + 1} \<longrightarrow> fs' f = fs f)"
  using assms
proof (induction k arbitrary: fs)
  case (Suc k)
  let ?s = "backup_name name (Suc k)" and ?d = "backup_name name (Suc (Suc k))"
  define fs1 where "fs1 = (if fs ?s \<noteq> None then move_file ?s ?d fs else fs)"
  have r: "rotate_backups (\<lambda>_ _. False) name k fs1 = (fs', ok)"
    using Suc.prems by (simp add: fs1_def Let_def split: if_splits)
  note ih = Suc.IH [OF r]
  have fs1: "fs1 ?s = None" "fs1 ?d = (if fs ?s \<noteq> None then fs ?s else fs ?d)"
    "f \<noteq> ?s \<Longrightarrow> f \<noteq> ?d \<Longrightarrow> fs1 f = fs f" for f
    by (simp_all add: fs1_def move_file_def)
  show ?case
  proof (intro conjI ballI impI allI)
    fix i assume i: "i \<in> {1..Suc k}"
    show "fs' (backup_name name (i + 1)) =
        (if fs (backup_name name i) \<noteq> None then fs (backup_name name i)
         else if i < Suc k then None else fs (backup_name name (i + 1)))"
    proof (cases "i = Suc k")
      case True
      have "?d \<notin> backup_name name ` {1..k + 1}" by auto
      then have "fs' ?d = fs1 ?d" using ih by blast
      then show ?thesis using True fs1(2) by simp
    next
      case False
      then have k: "i \<in> {1..k}" using i by auto
      then have "fs1 (backup_name name i) = fs (backup_name name i)" by (intro fs1(3)) auto
      then show ?thesis using ih k fs1(1) fs1(3) [of "backup_name name (i + 1)"] by (auto simp: less_Suc_eq)
    qed
  next
    show "fs' (backup_name name 1) = None"
      using ih fs1(1) r by (cases "k = 0") auto
  next
    fix f assume f: "f \<notin> backup_name name ` {1..Suc k + 1}"
    then have "f \<notin> backup_name name ` {1..k + 1}" "f \<noteq> ?s" "f \<noteq> ?d" by auto
    then show "fs' f = fs f" using ih fs1(3) by simp
  qed (use ih in simp)
qed auto

section \<open>Invariant of the host\<close>

text \<open>The PID file names every daemon that nobody asked to end, and no port is served twice.\<close>

definition host_ok :: "host \<Rightarrow> bool" where
  "host_ok h \<longleftrightarrow> (case h_pid_file h of
       None \<Rightarrow> \<forall>p. \<not> kept_daemon h p
     | Some content \<Rightarrow> \<exists>p. content = show_int p \<and> 0 < p \<and> p < 2 ^ 31 \<and> (\<forall>q. kept_daemon h q \<longrightarrow> q = p))"

definition ports_ok :: "host \<Rightarrow> bool" where
  "ports_ok h \<longleftrightarrow> (\<forall>p q pr qr port. h_processes h p = Some pr \<and> pr_role pr = Serving port
     \<and> h_processes h q = Some qr \<and> pr_role qr = Serving port \<longrightarrow> p = q)"

lemma get_recorded:
  "h_pid_file h = Some (show_int p) \<Longrightarrow> 0 < p \<Longrightarrow> p < 2 ^ 31
   \<Longrightarrow> get_daemon_pid env h = (if h_processes h p = None then None else Some p)"
  by (simp add: get_daemon_pid_def int_of_shown is_pid_alive_def)

lemma get_cases:
  assumes "host_ok h"
  obtains (absent) "get_daemon_pid env h = None" "\<forall>p. \<not> kept_daemon h p"
  | (found) p where "get_daemon_pid env h = Some p" "0 < p" "p < 2 ^ 31" "h_pid_file h = Some (show_int p)" "h_processes h p \<noteq> None"
      "\<forall>q. kept_daemon h q \<longrightarrow> q = p"
proof (cases "h_pid_file h")
  case None
  then show ?thesis using assms absent by (simp add: host_ok_def get_daemon_pid_def)
next
  case (Some content)
  with assms obtain p where p: "h_pid_file h = Some (show_int p)" "0 < p" "p < 2 ^ 31"
    "\<forall>q. kept_daemon h q \<longrightarrow> q = p" by (auto simp: host_ok_def)
  show ?thesis
  proof (cases "h_processes h p = None")
    case True
    then have "\<forall>q. \<not> kept_daemon h q" using p(4) by (fastforce simp: kept_daemon_def)
    then show ?thesis using absent get_recorded [OF p(1-3)] True by simp
  next
    case False
    then show ?thesis using found get_recorded [OF p(1-3)] p by simp
  qed
qed

text \<open>A host with no more kept daemons than before and the same PID file is as good.\<close>

lemma host_ok_fewer:
  "host_ok h \<Longrightarrow> h_pid_file h' = h_pid_file h \<Longrightarrow> (\<And>q. kept_daemon h' q \<Longrightarrow> kept_daemon h q) \<Longrightarrow> host_ok h'"
  unfolding host_ok_def by (auto split: option.splits)

lemma host_ok_no_daemon:
  "\<forall>p. \<not> kept_daemon h p \<Longrightarrow> h_pid_file h = None \<or> (\<exists>p. h_pid_file h = Some (show_int p) \<and> 0 < p \<and> p < 2 ^ 31)
   \<Longrightarrow> host_ok h"
  by (auto simp: host_ok_def)

lemma host_ok_file:
  "host_ok h \<Longrightarrow> h_pid_file h = None \<or> (\<exists>p. h_pid_file h = Some (show_int p) \<and> 0 < p \<and> p < 2 ^ 31)"
  by (auto simp: host_ok_def split: option.splits)

text \<open>Stopping tells the recorded process and leaves all others; the table keeps its numbers and roles.\<close>

lemma stop_effect:
  assumes "host_ok h" "signals_delivered env"
  shows "\<forall>p. \<not> kept_daemon (fst (stop_daemon_process env h)) p"
    and "host_ok (fst (stop_daemon_process env h))"
    and "snd (stop_daemon_process env h) = get_daemon_pid env h"
    and "map_option pr_role (h_processes (fst (stop_daemon_process env h)) p) = map_option pr_role (h_processes h p)"
    and "oe_unlink_ok env \<Longrightarrow> get_daemon_pid env' (fst (stop_daemon_process env h)) = None"
proof -
  let ?h = "fst (stop_daemon_process env h)"
  have *: "(\<forall>p. \<not> kept_daemon ?h p) \<and> (\<forall>p. map_option pr_role (h_processes ?h p) = map_option pr_role (h_processes h p))"
    using assms(1)
  proof (cases rule: get_cases [where env = env])
    case absent
    then show ?thesis by (auto simp: stop_daemon_process_def kept_daemon_def)
  next
    case (found p)
    then have "h_processes ?h = (h_processes h)(p := map_option (\<lambda>pr. pr\<lparr>pr_told := True\<rparr>) (h_processes h p))"
      using assms(2) by (simp add: stop_daemon_process_def sigterm_def signals_delivered_def)
    with found(6) show ?thesis by (auto simp: kept_daemon_def option.map_comp comp_def split: if_splits)
  qed
  have recorded: "h_pid_file ?h = (if oe_unlink_ok env then None else h_pid_file h)"
    by (simp add: stop_daemon_process_def Let_def)
  show "\<forall>p. \<not> kept_daemon ?h p" "map_option pr_role (h_processes ?h p) = map_option pr_role (h_processes h p)"
    using * by blast+
  show "host_ok ?h" using * recorded host_ok_file [OF assms(1)] by (intro host_ok_no_daemon) auto
  show "snd (stop_daemon_process env h) = get_daemon_pid env h" by (simp add: stop_daemon_process_def Let_def)
  show "get_daemon_pid env' ?h = None" if "oe_unlink_ok env" using recorded that by (simp add: get_daemon_pid_def)
qed

text \<open>What starting leaves, when no daemon is found and a free number is given.\<close>

lemma handle_start_found:
  "get_daemon_pid env h = Some p \<Longrightarrow> p \<noteq> 0 \<Longrightarrow> handle_start env port out h = (h, Inr (out @ [Already_running p]))"
  by (simp add: handle_start_def pid_truth_def)

lemma handle_start_absent:
  assumes "get_daemon_pid env h = None" "oe_spawn env = Inr p"
  shows "h_pid_file (fst (handle_start env port out h)) = Some (show_int p)
    \<and> h_processes (fst (handle_start env port out h)) = (h_processes h)(p := Some \<lparr>pr_role = Launched port, pr_told = False\<rparr>)
    \<and> snd (handle_start env port out h) = Inr (out @ [Started (Some p)])"
  using assms by (simp add: handle_start_def pid_truth_def start_daemon_process_def Let_def)

lemma ports_ok_fewer:
  assumes "ports_ok h" "\<And>p pr. h_processes h' p = Some pr \<Longrightarrow> h_processes h p = Some pr \<or> (\<forall>port. pr_role pr \<noteq> Serving port)"
  shows "ports_ok h'"
  unfolding ports_ok_def
proof (intro allI impI, elim conjE)
  fix p q pr qr port
  assume "h_processes h' p = Some pr" "pr_role pr = Serving port" "h_processes h' q = Some qr" "pr_role qr = Serving port"
  with assms(2) have "h_processes h p = Some pr" "h_processes h q = Some qr" by blast+
  with \<open>pr_role pr = Serving port\<close> \<open>pr_role qr = Serving port\<close> assms(1) show "p = q" unfolding ports_ok_def by blast
qed

lemma handle_start_failed:
  assumes "get_daemon_pid env h = None" "oe_spawn env = Inl e"
  shows "h_pid_file (fst (handle_start env port out h)) = h_pid_file h
    \<and> h_processes (fst (handle_start env port out h)) = h_processes h"
  using assms by (simp add: handle_start_def pid_truth_def start_daemon_process_def Let_def)

lemma handle_start_ok:
  assumes "host_ok h" "ports_ok h" "free_spawn env h"
  shows "host_ok (fst (handle_start env port out h)) \<and> ports_ok (fst (handle_start env port out h))"
  using assms(1)
proof (cases rule: get_cases [where env = env])
  case absent
  show ?thesis
  proof (cases "oe_spawn env")
    case (Inl e)
    note same = handle_start_failed [OF absent(1) Inl, of port out]
    then have "host_ok (fst (handle_start env port out h))"
      by (intro host_ok_fewer [OF assms(1)]) (simp_all add: kept_daemon_def)
    with same show ?thesis using assms(2) by (simp add: ports_ok_def)
  next
    case (Inr p)
    note new = handle_start_absent [OF absent(1) Inr, of port out]
    have "q = p" if "kept_daemon (fst (handle_start env port out h)) q" for q
      using that new absent(2) by (auto simp: kept_daemon_def split: if_splits)
    then have "host_ok (fst (handle_start env port out h))"
      using new assms(3) Inr by (auto simp: host_ok_def free_spawn_def)
    moreover have "ports_ok (fst (handle_start env port out h))"
      by (rule ports_ok_fewer [OF assms(2)]) (use new in \<open>auto split: if_splits\<close>)
    ultimately show ?thesis ..
  qed
next
  case (found p)
  then show ?thesis using assms by (simp add: handle_start_found)
qed

lemma ports_ok_roles:
  assumes "ports_ok h" "\<And>p. map_option pr_role (h_processes h' p) = map_option pr_role (h_processes h p)"
  shows "ports_ok h'"
proof -
  have "\<exists>pr0. h_processes h p = Some pr0 \<and> pr_role pr0 = Serving port"
    if "h_processes h' p = Some pr" "pr_role pr = Serving port" for p pr port
    using assms(2) [of p] that by (cases "h_processes h p") simp_all
  with assms(1) show ?thesis unfolding ports_ok_def by meson
qed

lemma free_after_stop:
  assumes "host_ok h" "signals_delivered env" "free_spawn env h"
  shows "free_spawn env (fst (stop_daemon_process env h))"
  using assms(3) stop_effect(4) [OF assms(1,2)] by (auto simp: free_spawn_def split: sum.splits) (metis map_option_is_None)

lemma handle_daemon_ok:
  assumes "host_ok h" "ports_ok h" "signals_delivered env" "free_spawn env h"
  shows "host_ok (fst (handle_daemon env action port h)) \<and> ports_ok (fst (handle_daemon env action port h))"
proof -
  let ?h = "fst (stop_daemon_process env h)"
  have stop: "fst (handle_daemon env Stop port h) = ?h"
    by (simp add: handle_daemon_def Let_def case_prod_unfold)
  have restart: "\<exists>out. fst (handle_daemon env Restart port h) = fst (handle_start env port out ?h)"
    by (auto simp: handle_daemon_def Let_def case_prod_unfold)
  have stopped: "host_ok ?h" "ports_ok ?h"
    using stop_effect(2,4) [OF assms(1,3)] ports_ok_roles [OF assms(2)] by blast+
  show ?thesis
  proof (cases action)
    case Start
    then show ?thesis using assms handle_start_ok by (simp add: handle_daemon_def)
  next
    case Stop
    then show ?thesis using stop stopped by simp
  next
    case Status
    then show ?thesis using assms by (simp add: handle_daemon_def Let_def)
  next
    case Restart
    then show ?thesis using restart handle_start_ok [OF stopped free_after_stop [OF assms(1,3,4)]] by metis
  qed
qed

lemma bind_port_ok:
  assumes "host_ok h" "ports_ok h"
  shows "host_ok (bind_port p h) \<and> ports_ok (bind_port p h)"
proof -
  have "host_ok (bind_port p h)"
    by (rule host_ok_fewer [OF assms(1)])
      (auto simp: bind_port_def kept_daemon_def split: option.splits role.splits if_splits)
  moreover have "ports_ok (bind_port p h)"
    using assms(2) unfolding bind_port_def
    by (auto simp: ports_ok_def port_taken_def split: option.splits role.splits)
  ultimately show ?thesis ..
qed

lemma reachable_ok: "host_reachable h \<Longrightarrow> host_ok h \<and> ports_ok h"
proof (induction rule: host_reachable.induct)
  case (fresh ps fs)
  then show ?case by (auto simp: host_ok_def ports_ok_def kept_daemon_def)
next
  case (exits h p)
  let ?h = "h\<lparr>h_processes := (h_processes h)(p := None)\<rparr>"
  have "host_ok ?h" by (rule host_ok_fewer [OF conjunct1 [OF exits.IH]]) (auto simp: kept_daemon_def split: if_splits)
  moreover have "ports_ok ?h" by (rule ports_ok_fewer [OF conjunct2 [OF exits.IH]]) (simp split: if_splits)
  ultimately show ?case ..
next
  case (starts h p)
  let ?h = "h\<lparr>h_processes := (h_processes h)(p := Some \<lparr>pr_role = Foreign, pr_told = False\<rparr>)\<rparr>"
  have "host_ok ?h" by (rule host_ok_fewer [OF conjunct1 [OF starts.IH]]) (auto simp: kept_daemon_def split: if_splits)
  moreover have "ports_ok ?h" by (rule ports_ok_fewer [OF conjunct2 [OF starts.IH]]) (auto split: if_splits)
  ultimately show ?case ..
qed (simp_all add: handle_daemon_ok bind_port_ok)

section \<open>Properties\<close>

text \<open>
  C37. A daemon is never lost or doubled unless it was told to end: on a host where signals can be
  sent, however commands, binding, exits and the reuse of process numbers interleave, at most one
  daemon was not sent SIGTERM, the PID file leads to it, so that no start launches a second and a
  stop reaches it, and no port is ever served by two processes. A daemon that was told may still
  run beside it for a while.
\<close>

theorem single_daemon:
  assumes "host_reachable h" "h_processes h p = Some pr" "pr_role pr \<noteq> Foreign" "\<not> pr_told pr"
  shows "get_daemon_pid env h = Some p
    \<and> (\<forall>q qr. h_processes h q = Some qr \<and> pr_role qr \<noteq> Foreign \<and> \<not> pr_told qr \<longrightarrow> q = p)
    \<and> handle_daemon env Start port h = (h, Inr [Already_running p])
    \<and> (\<forall>q r qr rr port'. h_processes h q = Some qr \<and> pr_role qr = Serving port'
         \<and> h_processes h r = Some rr \<and> pr_role rr = Serving port' \<longrightarrow> q = r)"
proof -
  have k: "kept_daemon h p" using assms(2-4) by (simp add: kept_daemon_def)
  have "host_ok h" "ports_ok h" using reachable_ok [OF assms(1)] by simp_all
  from this(1) show ?thesis
  proof (cases rule: get_cases [where env = env])
    case (found p')
    then have "p' = p" using k by blast
    moreover have "\<forall>q qr. h_processes h q = Some qr \<and> pr_role qr \<noteq> Foreign \<and> \<not> pr_told qr \<longrightarrow> q = p'"
      using found(6) by (auto simp: kept_daemon_def)
    ultimately show ?thesis using found(1,2) \<open>ports_ok h\<close>
      by (simp add: handle_daemon_def handle_start_found ports_ok_def)
  qed (use k in simp)
qed


text \<open>
  The PID file is trusted blindly: when a daemon ended and its number went to another process,
  status and start take that process for the daemon, start launches nothing, and stop ends it.
\<close>

theorem foreign_process_ended:
  assumes "host_reachable h" "h_pid_file h = Some (show_int p)" "0 < p" "p < 2 ^ 31"
    and "h_processes h p = Some \<lparr>pr_role = Foreign, pr_told = False\<rparr>" "signals_delivered env"
  shows "handle_daemon env Status port h = (h, Inr [Running p])
    \<and> handle_daemon env Start port h = (h, Inr [Already_running p])
    \<and> (case handle_daemon env Stop port h of (h', r) \<Rightarrow>
         r = Inr [Stopped p] \<and> h_processes h' p = Some \<lparr>pr_role = Foreign, pr_told = True\<rparr>)"
proof -
  have g: "get_daemon_pid env h = Some p" using get_recorded [OF assms(2-4)] assms(5) by simp
  then show ?thesis using assms(3,5,6)
    by (auto simp: handle_daemon_def handle_start_found pid_truth_def stop_daemon_process_def sigterm_def
        signals_delivered_def)
qed

text \<open>
  C39. Rotation: when the log has reached the limit and no rename is refused, the log becomes
  backup 1 and every backup the next one; only the last backup can be overwritten, and no other
  file changes.
\<close>

theorem rotation_shifts:
  assumes "fs name = Some content" "max_bytes \<le> length content" "0 < backups"
    and "fs' = rotate_file_if_needed (\<lambda>_ _. False) name max_bytes (int backups) fs"
  shows "fs' name = None \<and> fs' (backup_name name 1) = Some content
    \<and> (\<forall>i\<in>{1..<backups}. fs' (backup_name name (i + 1)) =
        (if fs (backup_name name i) \<noteq> None then fs (backup_name name i)
         else if i + 1 < backups then None else fs (backup_name name (i + 1))))
    \<and> (\<forall>f. f \<noteq> name \<longrightarrow> f \<notin> backup_name name ` {1..backups} \<longrightarrow> fs' f = fs f)"
proof -
  obtain fs1 ok where r: "rotate_backups (\<lambda>_ _. False) name (backups - 1) fs = (fs1, ok)" by fastforce
  note shift = rotate_backups_shift [OF r]
  have k: "nat (int backups - 1) = backups - 1" by simp
  have fs': "fs' = move_file name (backup_name name 1) fs1"
    using assms(1,2,4) r shift by (simp add: rotate_file_if_needed_def k)
  have "name \<notin> backup_name name ` {1..backups - 1 + 1}" by auto
  then have "fs1 name = Some content" using shift assms(1) by metis
  moreover have "{1..backups - 1 + 1} = {1..backups}" "{1..backups - 1} = {1..<backups}" using assms(3) by auto
  ultimately show ?thesis using shift by (auto simp: fs' move_file_def)
qed

section \<open>Witnesses\<close>

definition os_demo :: "int \<Rightarrow> os_env" where
  "os_demo p = \<lparr>oe_group_alive = (\<lambda>_. False), oe_group_term = (\<lambda>_ ps. ps), oe_delivered = (\<lambda>_. True), oe_unlink_ok = True,
     oe_denied = (\<lambda>_ _. False), oe_spawn = Inr p\<rparr>"

definition empty_host :: host where
  "empty_host = \<lparr>h_pid_file = None, h_processes = (\<lambda>_. None), h_logs = (\<lambda>_. None)\<rparr>"

definition running_host :: host where
  "running_host = fst (handle_daemon (os_demo 7) Start 8080 empty_host)"

lemma running_host_reachable: "host_reachable running_host" "signals_delivered (os_demo p)"
  unfolding running_host_def
  by (rule host_reachable.command)
    (auto simp: empty_host_def os_demo_def signals_delivered_def free_spawn_def intro: host_reachable.fresh)

lemma running_host_fields:
  "h_processes running_host = [7 \<mapsto> \<lparr>pr_role = Launched 8080, pr_told = False\<rparr>]" "h_pid_file running_host = Some (show_int 7)"
proof -
  have "get_daemon_pid (os_demo 7) empty_host = None" by (simp add: empty_host_def get_daemon_pid_def)
  from handle_start_absent [OF this, of 7 8080 "[]"]
  show "h_processes running_host = [7 \<mapsto> \<lparr>pr_role = Launched 8080, pr_told = False\<rparr>]" "h_pid_file running_host = Some (show_int 7)"
    by (simp_all add: running_host_def handle_daemon_def os_demo_def empty_host_def)
qed

theorem single_daemon_witness:
  "handle_daemon (os_demo 8) Start 9090 running_host = (running_host, Inr [Already_running 7])"
  using single_daemon [OF running_host_reachable(1), of 7 "\<lparr>pr_role = Launched 8080, pr_told = False\<rparr>"] running_host_fields by simp




definition reused_host :: host where
  "reused_host = (let h = running_host\<lparr>h_processes := (h_processes running_host)(7 := None)\<rparr>
     in h\<lparr>h_processes := (h_processes h)(7 := Some \<lparr>pr_role = Foreign, pr_told = False\<rparr>)\<rparr>)"

theorem foreign_process_ended_witness:
  "host_reachable reused_host \<and> h_processes reused_host 7 = Some \<lparr>pr_role = Foreign, pr_told = False\<rparr>
   \<and> h_processes (fst (handle_daemon (os_demo 8) Stop 8080 reused_host)) 7 = Some \<lparr>pr_role = Foreign, pr_told = True\<rparr>"
proof -
  have r: "host_reachable reused_host"
    unfolding reused_host_def Let_def
    by (intro host_reachable.starts host_reachable.exits running_host_reachable) simp
  have f: "h_pid_file reused_host = Some (show_int 7)" "h_processes reused_host 7 = Some \<lparr>pr_role = Foreign, pr_told = False\<rparr>"
    by (simp_all add: reused_host_def Let_def running_host_fields)
  from foreign_process_ended [OF r f(1) _ _ f(2) running_host_reachable(2), of 8 8080] r f(2)
  show ?thesis by (auto simp: case_prod_unfold)
qed

theorem rotation_shifts_witness:
  "\<exists>fs'. fs' = rotate_file_if_needed (\<lambda>_ _. False) ''d'' 2 3 [''d'' \<mapsto> ''new'', ''d.1'' \<mapsto> ''old'', ''d.3'' \<mapsto> ''lost'']
    \<and> fs' ''d'' = None \<and> fs' ''d.1'' = Some ''new'' \<and> fs' ''d.2'' = Some ''old''"
proof -
  define fs :: files where "fs = [''d'' \<mapsto> ''new'', ''d.1'' \<mapsto> ''old'', ''d.3'' \<mapsto> ''lost'']"
  define fs' where "fs' = rotate_file_if_needed (\<lambda>_ _. False) ''d'' 2 (int 3) fs"
  have n: "backup_name ''d'' 1 = ''d.1''" "backup_name ''d'' (1 + 1) = ''d.2''" by code_simp+
  have f: "fs ''d'' = Some ''new''" "fs ''d.1'' = Some ''old''" by (simp_all add: fs_def)
  have "2 \<le> length ''new''" "0 < (3 :: nat)" by simp_all
  note shifted = rotation_shifts [OF f(1) this fs'_def]
  have "1 \<in> {1..<3 :: nat}" by simp
  with shifted have "fs' ''d'' = None" "fs' (backup_name ''d'' 1) = Some ''new''"
    "fs' (backup_name ''d'' (1 + 1)) = (if fs (backup_name ''d'' 1) \<noteq> None then fs (backup_name ''d'' 1)
       else if 1 + 1 < (3 :: nat) then None else fs (backup_name ''d'' (1 + 1)))" by blast+
  with f(2) have "fs' ''d'' = None" "fs' ''d.1'' = Some ''new''" "fs' ''d.2'' = Some ''old''" unfolding n by simp_all
  then show ?thesis by (simp add: fs'_def fs_def)
qed

end
