(* ===== verification/Observer.thy ===== *)
theory Observer
  imports Gateway Daemon
begin

text \<open>
  The observer window, \<open>handle_watch\<close> of \<open>scripts/cli.py\<close>: one round polls the daemon or feeds
  itself from the load generator, refreshes the display unless it is paused, decides whether to
  leave, and handles a key. The answers of the daemon, the clock, the file content of an event and
  the keys are parameters. What the terminal shows is left out, with the formatting of the counts
  that could still raise there; so is the interrupt by the keyboard.
\<close>

section \<open>Definitions\<close>

text \<open>A line of the display, without its markup and the ellipses.\<close>

record shown_row =
  sr_time :: string
  sr_id :: string
  sr_action :: string
  sr_src :: string
  sr_dst :: string
  sr_proto :: string
  sr_sha256 :: string
  sr_verified :: bool

definition clock_text :: "datetime \<Rightarrow> string" where
  "clock_text t = rstrip_by (\<lambda>c. c = CHR ''Z'') (tl (dropWhile (\<lambda>c. c \<noteq> CHR ''T'') (strftime_z t)))"

text \<open>The time of day of an ISO text, or the present one when it has no \<open>T\<close>.\<close>

definition row_time :: "datetime \<Rightarrow> pyval \<Rightarrow> string result" where
  "row_time now v = res_bind (py_in ''T'' v) (\<lambda>timed.
     if timed then (case v of
         PStr s \<Rightarrow> Inr (rstrip_by (\<lambda>c. c = CHR ''Z'') (str_split (CHR ''T'') s ! 1))
       | _ \<Rightarrow> Inl AttributeError)
     else Inr (clock_text now))"

definition endpoint_text :: "pyval \<Rightarrow> string result" where
  "endpoint_text v = res_bind (py_get v ''ip'' (PStr ''0.0.0.0'')) (\<lambda>ip. res_bind (py_get v ''port'' (PInt 0)) (\<lambda>port.
     Inr (py_str ip @ '':'' @ py_str port)))"

definition prefix_text :: "nat \<Rightarrow> pyval \<Rightarrow> string result" where
  "prefix_text n v = res_bind (py_prefix n v) (\<lambda>p. case p of PStr s \<Rightarrow> Inr s | _ \<Rightarrow> Inl TypeError)"

definition row_of :: "datetime \<Rightarrow> pyval \<Rightarrow> shown_row result" where
  "row_of now ev =
     res_bind (py_get ev ''event'' (PDict [])) (\<lambda>ev_info.
     res_bind (py_get ev_info ''action'' (PStr ''allowed'')) (\<lambda>action.
     res_bind (res_bind (py_get ev ''raw'' (PDict [])) (\<lambda>r. py_get r ''sha256'' (PStr (replicate 64 (CHR ''0''))))) (\<lambda>raw_sha.
     res_bind (py_get ev ''src'' (PDict [])) (\<lambda>src. res_bind (py_get ev ''dst'' (PDict [])) (\<lambda>dst.
     res_bind (endpoint_text src) (\<lambda>src_str. res_bind (endpoint_text dst) (\<lambda>dst_str.
     res_bind (res_bind (py_get ev_info ''time'' (PStr [])) (row_time now)) (\<lambda>ev_time.
     res_bind (res_bind (py_get ev ''event_id'' (PStr [])) (prefix_text 14)) (\<lambda>ident.
     res_bind (res_bind (py_get ev ''network'' (PDict [])) (\<lambda>n. res_bind (py_get n ''protocol'' (PStr ''TCP'')) py_upper)) (\<lambda>proto.
     res_bind (py_prefix 12 raw_sha) (\<lambda>sha.
     res_bind (res_bind (py_get ev ''quality'' (PDict [])) (\<lambda>q. py_get q ''status'' PNone)) (\<lambda>status.
       Inr \<lparr>sr_time = ev_time, sr_id = ident, sr_action = str_upper (py_str action), sr_src = src_str, sr_dst = dst_str,
            sr_proto = proto, sr_sha256 = py_str sha, sr_verified = (status = PStr ''VERIFIED'')\<rparr>))))))))))))"

datatype notice =
    Stream_paused
  | Stream_resumed
  | Snapshot_generated pyval string
  | Daemon_stopped int
  | Daemon_started "int option"
  | Display_cleared

record watch_args =
  wa_port :: int
  wa_count :: int
  wa_interactive :: bool

record observer =
  ob_history :: "shown_row list"
  ob_paused :: bool
  ob_notification :: "(notice \<times> rat) option"
  ob_total :: int
  ob_generator :: LoadGenerator
  ob_ring :: EventRingBuffer
  ob_host :: host
  ob_files :: "(string \<times> string) list"

definition new_observer :: "rat \<Rightarrow> host \<Rightarrow> observer" where
  "new_observer now h = \<lparr>ob_history = [], ob_paused = False, ob_notification = None, ob_total = 0,
     ob_generator = new_generator ''cef'' None, ob_ring = new_buffer 5000 now, ob_host = h, ob_files = []\<rparr>"

text \<open>An answer of the daemon is its status with the decoded body, or what the request raised.\<close>

record round_env =
  re_os :: os_env
  re_recent :: "(nat \<times> pyval) result"
  re_stats :: "(nat \<times> pyval) result"
  re_snapshot :: "(nat \<times> pyval) result"
  re_time :: "nat \<Rightarrow> rat"
  re_clock :: datetime
  re_export :: export_env
  re_index :: nat
  re_dumps :: "pyval \<Rightarrow> string"
  re_snapshots_dir :: string
  re_key :: "char option"

text \<open>Whether the daemon answered, the events and the statistics.\<close>

definition poll_daemon :: "round_env \<Rightarrow> bool \<times> pyval list \<times> pyval" where
  "poll_daemon env = (case re_recent env of
       Inl e \<Rightarrow> (False, [], PDict [])
     | Inr (status, data) \<Rightarrow>
         let (linked, evs) = (case data of PList evs \<Rightarrow> if status = 200 then (True, evs) else (False, []) | _ \<Rightarrow> (False, []))
         in (case re_stats env of
               Inl e \<Rightarrow> (False, evs, PDict [])
             | Inr (s_status, stats) \<Rightarrow> (linked, evs, if s_status = 200 then stats else PDict [])))"

definition ring_document :: "rat \<Rightarrow> EventRingBuffer \<Rightarrow> pyval" where
  "ring_document now r = (let s = rb_stats now r in PDict [
     (''events_received'', PInt (int (st_events_received s))), (''bytes_ingested'', PInt (st_bytes_ingested s)),
     (''quarantined'', PInt (int (st_quarantined s))), (''ring_buffer_count'', PInt (int (st_ring_buffer_count s))),
     (''ring_buffer_capacity'', PInt (int (st_ring_buffer_capacity s))), (''eps_rate'', PFloat (st_eps_rate s)),
     (''dps_ratio'', PFloat (st_dps_ratio s))])"

text \<open>The own feed: one generated event goes into the buffer of this process.\<close>

definition feed_local :: "round_env \<Rightarrow> observer \<Rightarrow> observer \<times> (pyval list \<times> pyval) result" where
  "feed_local env st = (case generate_single None (ob_generator st) of
       Inl e \<Rightarrow> (st, Inl e)
     | Inr (raw, g) \<Rightarrow> let st1 = st\<lparr>ob_generator := g\<rparr> in
         (case live_event (re_export env) (re_index env) raw of
            Inl e \<Rightarrow> (st1, Inl e)
          | Inr ev \<Rightarrow> (case rb_append ev (ob_ring st1) of (ring, err) \<Rightarrow>
              (st1\<lparr>ob_ring := ring\<rparr>,
               case err of Some e \<Rightarrow> Inl e
               | None \<Rightarrow> Inr (map PDict (get_recent 12 ring), ring_document (re_time env 0) ring)))))"

text \<open>\<open>daemon_stats.get("events_received", total_observed + 1)\<close>\<close>

definition events_received :: "pyval \<Rightarrow> int \<Rightarrow> int result" where
  "events_received stats total_observed =
     res_bind (py_get stats ''events_received'' (PInt (total_observed + 1))) (\<lambda>v.
       case v of PInt n \<Rightarrow> Inr n | _ \<Rightarrow> Inl OutsideModel)"

definition refresh :: "round_env \<Rightarrow> pyval list \<Rightarrow> pyval \<Rightarrow> observer \<Rightarrow> observer result" where
  "refresh env new_events stats st =
     (if \<not> ob_paused st \<and> new_events \<noteq> [] then
        res_bind (res_map (row_of (re_clock env)) (last_n 12 new_events)) (\<lambda>rows.
        res_bind (events_received stats (ob_total st)) (\<lambda>n.
          Inr (st\<lparr>ob_history := rows, ob_total := n\<rparr>)))
      else Inr st)"

definition expire :: "rat \<Rightarrow> observer \<Rightarrow> observer" where
  "expire now st = (case ob_notification st of
       None \<Rightarrow> st
     | Some (n, expiry) \<Rightarrow> if now < expiry then st else st\<lparr>ob_notification := None\<rparr>)"

definition local_snapshot :: "round_env \<Rightarrow> string \<Rightarrow> observer \<Rightarrow> observer \<times> pyval" where
  "local_snapshot env file st =
     (case snapshot (re_dumps env) (ob_ring st) of (content, n) \<Rightarrow>
        (st\<lparr>ob_files := AList.update file content (ob_files st)\<rparr>, PInt (int n)))"

text \<open>The snapshot key: the daemon writes its own file, and any exception falls back to this process.\<close>

definition take_snapshot :: "round_env \<Rightarrow> bool \<Rightarrow> observer \<Rightarrow> observer" where
  "take_snapshot env linked st =
     (let file = re_snapshots_dir env @ ''/snapshot_'' @ stamp (re_clock env) @ ''.jsonl'';
          (st1, saved, shown) = (if linked then
             (case re_snapshot env of
                Inr (status, doc) \<Rightarrow>
                  if status = 200 then (case doc of
                      PDict d \<Rightarrow> (case dict_get d ''snapshot_file'' (PStr file) of
                          PStr f \<Rightarrow> (st, dict_get d ''events_count'' (PInt 0), f)
                        | _ \<Rightarrow> (case local_snapshot env file st of (s, n) \<Rightarrow> (s, n, file)))
                    | _ \<Rightarrow> (case local_snapshot env file st of (s, n) \<Rightarrow> (s, n, file)))
                  else (st, PInt 0, file)
              | Inl e \<Rightarrow> (case local_snapshot env file st of (s, n) \<Rightarrow> (s, n, file)))
           else (case local_snapshot env file st of (s, n) \<Rightarrow> (s, n, file)))
      in st1\<lparr>ob_notification := Some (Snapshot_generated saved shown, fl (re_time env 2 + 4))\<rparr>)"

datatype outcome = Go_on | Finished | Crashed exn

definition handle_key :: "watch_args \<Rightarrow> round_env \<Rightarrow> bool \<Rightarrow> char \<Rightarrow> observer \<Rightarrow> observer \<times> outcome" where
  "handle_key args env linked key st =
     (let note = (\<lambda>n secs. Some (n, fl (re_time env 2 + secs))) in
      if key = CHR '' '' then
        (st\<lparr>ob_paused := \<not> ob_paused st,
            ob_notification := (if ob_paused st then note Stream_resumed 2 else note Stream_paused 3)\<rparr>, Go_on)
      else if key \<in> set ''sS'' then (take_snapshot env linked st, Go_on)
      else if key \<in> set ''oO'' then
        (let cur = get_daemon_pid (re_os env) (ob_host st) in
         if pid_truth cur then
           (st\<lparr>ob_host := fst (stop_daemon_process (re_os env) (ob_host st)),
               ob_notification := note (Daemon_stopped (the cur)) 3\<rparr>, Go_on)
         else (case start_daemon_process (re_os env) (wa_port args) (ob_host st) of
             (h, Inl e) \<Rightarrow> (st\<lparr>ob_host := h\<rparr>, Crashed e)
           | (h, Inr pid) \<Rightarrow> (st\<lparr>ob_host := h, ob_notification := note (Daemon_started pid) 3\<rparr>, Go_on)))
      else if key \<in> set ''cC'' then (st\<lparr>ob_history := [], ob_notification := note Display_cleared 2\<rparr>, Go_on)
      else if key \<in> set [CHR ''q'', CHR ''Q'', char_of (3 :: nat)] then (st, Finished)
      else (st, Go_on))"

text \<open>What a round observes, and the rest of the round.\<close>

definition observe :: "round_env \<Rightarrow> observer \<Rightarrow> bool \<times> observer \<times> (pyval list \<times> pyval) result" where
  "observe env st =
     (let (linked, evs, stats) =
        (if pid_truth (get_daemon_pid (re_os env) (ob_host st)) then poll_daemon env else (False, [], PDict []))
      in if linked then (True, st, Inr (evs, stats))
         else (case feed_local env st of (st', r) \<Rightarrow> (False, st', r)))"

definition watch_round :: "watch_args \<Rightarrow> round_env \<Rightarrow> observer \<Rightarrow> observer \<times> outcome" where
  "watch_round args env st =
     (case observe env st of (linked, st1, r) \<Rightarrow>
       (case res_bind r (\<lambda>(evs, stats). refresh env evs stats st1) of
          Inl e \<Rightarrow> (st1, Crashed e)
        | Inr st2 \<Rightarrow>
            let st3 = expire (re_time env 1) st2 in
            if wa_count args > 0 \<and> ob_total st3 \<ge> wa_count args then (st3, Finished)
            else if \<not> wa_interactive args then
              (st3, if wa_count args = 0 \<and> ob_total st3 \<ge> 2 then Finished else Go_on)
            else (case re_key env of None \<Rightarrow> (st3, Go_on) | Some key \<Rightarrow> handle_key args env linked key st3)))"

fun watch :: "watch_args \<Rightarrow> round_env list \<Rightarrow> observer \<Rightarrow> observer \<times> outcome" where
  "watch args [] st = (st, Go_on)"
| "watch args (env # envs) st = (case watch_round args env st of
     (st', out) \<Rightarrow> if out = Go_on then watch args envs st' else (st', out))"

section \<open>Lemmas\<close>

lemma expire_keeps [simp]:
  "ob_history (expire now st) = ob_history st" "ob_paused (expire now st) = ob_paused st"
  "ob_total (expire now st) = ob_total st" "ob_generator (expire now st) = ob_generator st"
  "ob_ring (expire now st) = ob_ring st" "ob_host (expire now st) = ob_host st"
  by (simp_all add: expire_def split: option.splits prod.splits)

lemma take_snapshot_keeps [simp]:
  "ob_history (take_snapshot env c st) = ob_history st" "ob_total (take_snapshot env c st) = ob_total st"
  "ob_ring (take_snapshot env c st) = ob_ring st"
  by (auto simp: take_snapshot_def local_snapshot_def Let_def split: sum.splits pyval.splits prod.splits)

lemma handle_key_keeps:
  "ob_total (fst (handle_key args env c key st)) = ob_total st"
  "ob_ring (fst (handle_key args env c key st)) = ob_ring st"
  "key \<notin> set ''cC'' \<Longrightarrow> ob_history (fst (handle_key args env c key st)) = ob_history st"
  "key \<in> set ''cC'' \<Longrightarrow> ob_history (fst (handle_key args env c key st)) = []"
  by (auto simp: handle_key_def Let_def split: prod.splits sum.splits)

text \<open>An event is showable when its row can be formed at any time.\<close>

definition showable :: "pyval \<Rightarrow> bool" where
  "showable v \<longleftrightarrow> (\<forall>now. \<exists>row. row_of now v = Inr row)"

lemma live_event_showable:
  assumes "live_event xenv k raw = Inr ev"
  shows "showable (PDict ev)"
proof -
  from assms obtain ulid t pr sp dp ref sha a parsed where
    e: "ev = event_head ulid a t pr sp dp ref sha
       @ [(''raw_length_bytes'', PInt (utf8_length raw)), (''quality'', verified_quality),
          (''dps'', PFloat 1), (''ingest_status'', PStr ''ACCEPTED''), (''extensions'', extensions_of parsed)]"
    unfolding live_event_def parsed_head_def res_bind_Inr_iff by (auto simp: res_bind_Inr_iff)
  obtain v p i where pr: "pr = (v, p, i)" by (cases pr)
  have t: "\<exists>s. row_time now (PStr t) = Inr s" for now by (simp add: row_time_def)
  show ?thesis unfolding showable_def
  proof
    fix now
    obtain s where s: "row_time now (PStr t) = Inr s" using t by blast
    show "\<exists>row. row_of now (PDict ev) = Inr row"
      by (simp add: e pr row_of_def event_head_def dict_get_def endpoint_text_def prefix_text_def verified_quality_def s)
  qed
qed

lemma showable_rows:
  "list_all showable vs \<Longrightarrow> \<exists>rows. res_map (row_of now) vs = Inr rows \<and> length rows = length vs"
proof (induction vs)
  case (Cons v vs)
  then obtain rows where "res_map (row_of now) vs = Inr rows" "length rows = length vs" by auto
  moreover obtain row where "row_of now v = Inr row" using Cons.prems by (auto simp: showable_def)
  ultimately show ?case by simp
qed simp

lemma list_all_drop: "list_all P xs \<Longrightarrow> list_all P (drop n xs)"
  by (auto simp: list_all_iff dest: in_set_dropD)

lemma deque_append_all: "list_all P d \<Longrightarrow> P x \<Longrightarrow> list_all P (deque_append n x d)"
  unfolding deque_append_def by (intro list_all_drop) simp

section \<open>The own feed\<close>

text \<open>Reading a line by the sample specification never raises: every value is a text.\<close>

definition texts :: "dict \<Rightarrow> bool" where
  "texts d \<longleftrightarrow> list_all (\<lambda>(k, v). is_PStr v) d"

lemma texts_update: "texts d \<Longrightarrow> is_PStr v \<Longrightarrow> texts (AList.update k v d)"
  by (induction d) (auto simp: texts_def)

lemma texts_get: "texts d \<Longrightarrow> is_PStr (dict_get d k (PStr t)) \<and> (dict_get d k (PInt n) = PInt n \<or> is_PStr (dict_get d k (PInt n)))"
  by (induction d) (auto simp: texts_def dict_get_def)

lemma parse_cef_texts: "parse_cef line = Some d \<Longrightarrow> texts d"
proof -
  assume p: "parse_cef line = Some d"
  have ext: "texts (foldl (\<lambda>result m. let k = f m; v = g m in AList.update k (PStr v) result) r ms)"
    if "texts r" for f g :: "rstate \<Rightarrow> string" and r ms
    using that by (induction ms arbitrary: r) (auto simp: texts_update Let_def)
  have upd: "texts (dict_update a b)" if "texts a" "texts b" for a b
    using that by (induction b arbitrary: a) (auto simp: dict_update_def texts_def intro!: texts_update [unfolded texts_def])
  have nil: "texts []" by (simp add: texts_def)
  from p show "texts d"
    by (auto simp: parse_cef_def parse_cef_extension_def Let_def texts_def split: option.splits if_splits
        intro!: upd [unfolded texts_def] ext [unfolded texts_def Let_def] nil [unfolded texts_def])
qed

definition plain_field :: "pyval \<Rightarrow> bool" where
  "plain_field f_def \<longleftrightarrow> (case f_def of
       PDict d \<Rightarrow> is_PStr (dict_get d ''map_to'' (PStr [])) \<and> map_of d ''map_to'' \<noteq> None
         \<and> (case dict_get d ''enum'' (PDict []) of PDict e \<Rightarrow> texts e | _ \<Rightarrow> False)
     | _ \<Rightarrow> False)"

lemma sample_fields:
  obtains f where "dict_get SAMPLE_CEF_SPEC ''fields'' (PDict []) = PDict f" "list_all (\<lambda>(k, d). plain_field d) f"
  by (simp add: SAMPLE_CEF_SPEC_def dict_get_def plain_field_def texts_def)

lemma apply_plain_field:
  assumes "plain_field d" "map_of f k = Some d"
  shows "\<exists>canon_k t. apply_field (PDict f) k (PStr s) = Inr (canon_k, PStr t)"
proof -
  obtain dd where d: "d = PDict dd" using assms(1) by (cases d) (auto simp: plain_field_def)
  obtain e where e: "dict_get dd ''enum'' (PDict []) = PDict e" "texts e"
    using assms(1) by (auto simp: plain_field_def d split: pyval.splits)
  obtain c where c: "map_of dd ''map_to'' = Some (PStr c)"
    using assms(1) by (auto simp: plain_field_def d dict_get_def is_PStr.simps elim!: is_PStr.elims)
  have "\<exists>t. apply_enum d (PStr s) = Inr (PStr t)"
  proof (cases "map_of e s")
    case None
    then show ?thesis by (simp add: apply_enum_def d e)
  next
    case (Some v)
    with e(2) have "is_PStr v" by (auto simp: texts_def list_all_iff dest!: map_of_SomeD)
    with Some show ?thesis by (cases v) (simp_all add: apply_enum_def d e)
  qed
  then show ?thesis using assms(2) by (auto simp: apply_field_def d dict_get_def c)
qed

lemma split_entry_sample:
  assumes "texts event" "is_PStr v"
  shows "\<exists>event' unk'. split_entry (dict_get SAMPLE_CEF_SPEC ''fields'' (PDict [])) (event, unk) (k, v) = Inr (event', unk') \<and> texts event'"
proof -
  obtain s where v: "v = PStr s" using assms(2) by (cases v) auto
  obtain f where f: "dict_get SAMPLE_CEF_SPEC ''fields'' (PDict []) = PDict f" "list_all (\<lambda>(k, d). plain_field d) f"
    by (rule sample_fields)
  show ?thesis
  proof (cases "map_of f k")
    case None
    then show ?thesis using assms(1) by (simp add: split_entry_def f)
  next
    case (Some d)
    with f(2) have "plain_field d" by (auto simp: list_all_iff dest!: map_of_SomeD)
    from apply_plain_field [OF this Some, of s] show ?thesis
      using assms(1) Some by (auto simp: split_entry_def f v intro!: texts_update)
  qed
qed

lemma split_entries_sample:
  "texts extracted \<Longrightarrow> texts event \<Longrightarrow>
   \<exists>event' unk'. res_foldl (split_entry (dict_get SAMPLE_CEF_SPEC ''fields'' (PDict []))) (event, unk) extracted = Inr (event', unk') \<and> texts event'"
proof (induction extracted arbitrary: event unk)
  case (Cons p extracted)
  obtain k v where p: "p = (k, v)" by (cases p)
  with Cons.prems have "is_PStr v" "texts extracted" by (simp_all add: texts_def)
  with split_entry_sample [OF Cons.prems(2), of v unk k] p Cons.IH show ?case by fastforce
qed simp

lemma parse_sample_total: "\<exists>event unk. parse_event json_loads SAMPLE_CEF_SPEC (PStr raw) = Inr (with_unknowns event unk) \<and> texts event"
proof -
  have hint: "format_hint (str_lower ''cef'') = Some LF_CEF" by code_simp
  have "\<exists>d. extract_fields json_loads SAMPLE_CEF_SPEC raw = Inr d \<and> texts d"
    using parse_cef_texts [of "str_strip raw"]
    by (auto simp: extract_fields_def SAMPLE_CEF_SPEC_def dict_get_def py_str_def hint parse_record_def settle_def Let_def texts_def
        split: option.splits)
  then obtain d where "extract_fields json_loads SAMPLE_CEF_SPEC raw = Inr d" "texts d" by blast
  moreover have "texts []" by (simp add: texts_def)
  ultimately show ?thesis
    using split_entries_sample [of d "[]" "[]"]
    by (simp add: parse_event_def parse_text_event_def py_str_def) fastforce
qed

lemma port_of_total: "texts event \<Longrightarrow> k \<noteq> ''unknown_fields'' \<Longrightarrow> \<exists>n. port_of (with_unknowns event unk) k d = Inr n"
proof -
  assume t: "texts event" "k \<noteq> ''unknown_fields''"
  have "dict_get (with_unknowns event unk) k (PInt d) = dict_get event k (PInt d)"
    using t(2) by (simp add: with_unknowns_def dict_get_def update_conv')
  with texts_get [OF t(1), where k = k and n = d] show ?thesis
    by (cases "dict_get event k (PInt d)") (auto simp: port_of_def int_of_text_def split: option.splits)
qed

lemma live_event_total:
  assumes "generate_contract_ulid (ee_ms xenv k) (ee_pick xenv k) = Inr u"
  shows "\<exists>ev. live_event xenv k raw = Inr ev"
proof -
  from parse_sample_total obtain event unk where
    p: "parse_event (ee_json_loads xenv) SAMPLE_CEF_SPEC (PStr raw) = Inr (with_unknowns event unk)" "texts event" by blast
  obtain m n where "port_of (with_unknowns event unk) ''source.port'' 49152 = Inr m"
    "port_of (with_unknowns event unk) ''destination.port'' 443 = Inr n"
    using port_of_total [OF p(2), of "''source.port''" unk 49152] port_of_total [OF p(2), of "''destination.port''" unk 443] by auto
  then show ?thesis by (simp add: live_event_def assms p(1) parsed_head_def)
qed

text \<open>The state after \<open>k\<close> rounds without a daemon.\<close>

definition fed :: "host \<Rightarrow> nat \<Rightarrow> observer \<Rightarrow> bool" where
  "fed h k st \<longleftrightarrow> ob_generator st = (new_generator ''cef'' None)\<lparr>lg_index := int k\<rparr>
     \<and> rb_total_ingested (ob_ring st) = k \<and> rb_capacity (ob_ring st) = 5000
     \<and> length (rb_buffer (ob_ring st)) = min 5000 k \<and> list_all (\<lambda>ev. showable (PDict ev)) (rb_buffer (ob_ring st))
     \<and> ob_total st = int k \<and> \<not> ob_paused st \<and> ob_host st = h \<and> length (ob_history st) = min 12 k"

definition ulid_ready :: "round_env \<Rightarrow> bool" where
  "ulid_ready env \<longleftrightarrow> (case generate_contract_ulid (ee_ms (re_export env) (re_index env)) (ee_pick (re_export env) (re_index env)) of
     Inl e \<Rightarrow> False | Inr u \<Rightarrow> True)"

lemma ready_live: "ulid_ready env \<Longrightarrow> \<exists>ev. live_event (re_export env) (re_index env) raw = Inr ev"
  by (auto simp: ulid_ready_def intro!: live_event_total split: sum.splits)

lemma feed_local_live:
  assumes "ob_generator st = (new_generator ''cef'' None)\<lparr>lg_index := int k\<rparr>"
    and "live_event (re_export env) (re_index env) (event_at (new_generator ''cef'' None) (int k)) = Inr ev"
  shows "feed_local env st =
    (let ring = fst (rb_append ev (ob_ring st)) in
     (st\<lparr>ob_generator := (new_generator ''cef'' None)\<lparr>lg_index := int k + 1\<rparr>, ob_ring := ring\<rparr>,
      Inr (map PDict (get_recent 12 ring), ring_document (re_time env 0) ring)))"
proof -
  have "snd (rb_append ev (ob_ring st)) = None"
    using live_event_Inr [OF assms(2)] by (simp add: rb_append_completes measurable_def)
  then show ?thesis
    using assms by (simp add: feed_local_def generate_single_event Let_def case_prod_unfold)
qed

lemma fed_step:
  assumes "fed h k st" "\<not> pid_truth (get_daemon_pid (re_os env) h)"
    and "live_event (re_export env) (re_index env) (event_at (new_generator ''cef'' None) (int k)) = Inr ev"
  shows "\<exists>st1 evs stats st2. observe env st = (False, st1, Inr (evs, stats)) \<and> refresh env evs stats st1 = Inr st2 \<and> fed h (Suc k) st2"
proof -
  define ring where "ring = fst (rb_append ev (ob_ring st))"
  define st1 where "st1 = st\<lparr>ob_generator := (new_generator ''cef'' None)\<lparr>lg_index := int k + 1\<rparr>, ob_ring := ring\<rparr>"
  define evs where "evs = map PDict (get_recent 12 ring)"
  note inv = assms(1) [unfolded fed_def]
  have g: "ob_generator st = (new_generator ''cef'' None)\<lparr>lg_index := int k\<rparr>" using inv by blast
  have obs: "observe env st = (False, st1, Inr (evs, ring_document (re_time env 0) ring))"
    using assms(2) inv feed_local_live [OF g assms(3)] by (simp add: observe_def st1_def evs_def ring_def Let_def)
  have buffer: "rb_buffer ring = deque_append 5000 ev (rb_buffer (ob_ring st))" "rb_capacity ring = 5000"
    "rb_total_ingested ring = Suc k"
    using inv by (simp_all add: ring_def rb_append_fields)
  have len: "length (rb_buffer ring) = min 5000 (Suc k)" using inv by (simp add: buffer deque_append_def)
  have all: "list_all (\<lambda>ev. showable (PDict ev)) (rb_buffer ring)"
    unfolding buffer using inv live_event_showable [OF assms(3)] by (intro deque_append_all) simp_all
  then have "list_all showable (last_n 12 evs)"
    unfolding evs_def get_recent_def last_n_def by (auto simp: list_all_iff dest!: in_set_dropD)
  then obtain rows where rows: "res_map (row_of (re_clock env)) (last_n 12 evs) = Inr rows" "length rows = length (last_n 12 evs)"
    using showable_rows by blast
  have elen: "length evs = min 12 (Suc k)" using len by (simp add: evs_def get_recent_def)
  have total: "events_received (ring_document (re_time env 0) ring) n = Inr (int (Suc k))" for n
    by (simp add: events_received_def ring_document_def Let_def dict_get_def rb_stats_def buffer)
  have "refresh env evs (ring_document (re_time env 0) ring) st1 = Inr (st1\<lparr>ob_history := rows, ob_total := int (Suc k)\<rparr>)"
    using rows elen total inv by (auto simp: refresh_def st1_def)
  moreover have "fed h (Suc k) (st1\<lparr>ob_history := rows, ob_total := int (Suc k)\<rparr>)"
    using inv buffer len all rows(2) elen by (simp add: fed_def st1_def)
  ultimately show ?thesis using obs by blast
qed

definition rounds_wanted :: "watch_args \<Rightarrow> nat" where
  "rounds_wanted args = (if wa_count args = 0 then 2 else nat (wa_count args))"

lemma fed_round:
  assumes "fed h k st" "\<not> pid_truth (get_daemon_pid (re_os env) h)" "\<not> wa_interactive args"
    and "ulid_ready env"
  shows "\<exists>st'. fed h (Suc k) st' \<and> watch_round args env st =
    (st', if 0 \<le> wa_count args \<and> rounds_wanted args \<le> Suc k then Finished else Go_on)"
proof -
  obtain ev where "live_event (re_export env) (re_index env) (event_at (new_generator ''cef'' None) (int k)) = Inr ev"
    using ready_live [OF assms(4)] by blast
  from fed_step [OF assms(1,2) this] obtain st1 evs stats st2 where
    o: "observe env st = (False, st1, Inr (evs, stats))" "refresh env evs stats st1 = Inr st2" "fed h (Suc k) st2" by blast
  then have t: "fed h (Suc k) (expire (re_time env 1) st2)" "ob_total (expire (re_time env 1) st2) = int (Suc k)"
    by (simp_all add: fed_def)
  have "(0 \<le> wa_count args \<and> rounds_wanted args \<le> Suc k)
    = (wa_count args > 0 \<and> int (Suc k) \<ge> wa_count args \<or> wa_count args = 0 \<and> int (Suc k) \<ge> 2)"
    by (auto simp: rounds_wanted_def)
  with o(1,2) t assms(3) show ?thesis by (auto simp: watch_round_def Let_def)
qed

lemma fed_watch:
  assumes "fed h k st" "\<not> wa_interactive args"
    and "\<forall>env\<in>set envs. \<not> pid_truth (get_daemon_pid (re_os env) h) \<and> ulid_ready env"
    and "0 \<le> wa_count args \<longrightarrow> k < rounds_wanted args"
  shows "if 0 \<le> wa_count args \<and> rounds_wanted args \<le> k + length envs
    then fed h (rounds_wanted args) (fst (watch args envs st)) \<and> snd (watch args envs st) = Finished
    else fed h (k + length envs) (fst (watch args envs st)) \<and> snd (watch args envs st) = Go_on"
  using assms
proof (induction envs arbitrary: k st)
  case (Cons env envs)
  from fed_round [OF Cons.prems(1) _ Cons.prems(2)] Cons.prems(3)
  obtain st' where st': "fed h (Suc k) st'" "watch_round args env st =
    (st', if 0 \<le> wa_count args \<and> rounds_wanted args \<le> Suc k then Finished else Go_on)" by auto
  show ?case
  proof (cases "0 \<le> wa_count args \<and> rounds_wanted args \<le> Suc k")
    case True
    with Cons.prems(4) have "rounds_wanted args = Suc k" by simp
    then show ?thesis using True st' by simp
  next
    case False
    have "\<forall>env\<in>set envs. \<not> pid_truth (get_daemon_pid (re_os env) h) \<and> ulid_ready env" "0 \<le> wa_count args \<longrightarrow> Suc k < rounds_wanted args"
      using Cons.prems(3) False by auto
    then show ?thesis using Cons.IH [OF st'(1) Cons.prems(2)] False st'(2) by auto
  qed
next
  case Nil
  then show ?case by auto
qed

lemma fed_new: "fed h 0 (new_observer now h)"
  by (simp add: fed_def new_observer_def new_buffer_def new_generator_def)

section \<open>Properties\<close>

text \<open>
  C40. An unattended observer ends: without a terminal and without a daemon, as long as identifiers
  can be generated, no generated line makes it crash and it leaves after exactly the requested
  number of events, showing the last twelve at most. The count 0, which the help text calls
  continuous, makes it leave after two events; with a negative count it never leaves.
\<close>

theorem unattended_watch_ends:
  assumes "\<not> wa_interactive args"
    and "\<forall>env\<in>set envs. \<not> pid_truth (get_daemon_pid (re_os env) h) \<and> ulid_ready env"
  shows "case watch args envs (new_observer now h) of (st, out) \<Rightarrow>
    let wanted = (if wa_count args = 0 then 2 else nat (wa_count args));
        ends = (0 \<le> wa_count args \<and> wanted \<le> length envs);
        seen = (if ends then wanted else length envs)
    in out = (if ends then Finished else Go_on) \<and> ob_total st = int seen
      \<and> rb_total_ingested (ob_ring st) = seen \<and> length (ob_history st) = min 12 seen"
proof -
  have w: "rounds_wanted args = (if wa_count args = 0 then 2 else nat (wa_count args))"
    "0 \<le> wa_count args \<longrightarrow> 0 < rounds_wanted args" by (auto simp: rounds_wanted_def)
  note watched = fed_watch [OF fed_new assms(1,2) w(2), of now]
  show ?thesis
  proof (cases "0 \<le> wa_count args \<and> rounds_wanted args \<le> length envs")
    case True
    then show ?thesis using watched unfolding w(1) [symmetric] by (simp add: case_prod_unfold fed_def Let_def)
  next
    case False
    then have "\<not> (0 \<le> wa_count args \<and> rounds_wanted args \<le> 0 + length envs)" by simp
    with watched have "fed h (length envs) (fst (watch args envs (new_observer now h)))"
      "snd (watch args envs (new_observer now h)) = Go_on" by (simp_all only: if_False add_0)
    then show ?thesis using False unfolding w(1) [symmetric] by (auto simp: case_prod_unfold fed_def Let_def)
  qed
qed

text \<open>
  A paused display is frozen while ingestion continues: without a daemon a round that does not
  crash adds exactly one event to the buffer, and leaves the rows and the count shown as they
  were, except that the clear key empties the rows.
\<close>

theorem paused_display_frozen:
  assumes "ob_paused st" "\<not> pid_truth (get_daemon_pid (re_os env) (ob_host st))"
    and "watch_round args env st = (st', out)" "\<forall>e. out \<noteq> Crashed e"
  shows "ob_total st' = ob_total st \<and> rb_total_ingested (ob_ring st') = rb_total_ingested (ob_ring st) + 1
    \<and> (ob_history st' = ob_history st \<or> wa_interactive args \<and> re_key env \<in> Some ` set ''cC'' \<and> ob_history st' = [])"
proof -
  obtain st1 r where o: "observe env st = (False, st1, r)" and f: "feed_local env st = (st1, r)"
    using assms(2) by (cases "feed_local env st") (auto simp: observe_def)
  obtain evs stats where r: "r = Inr (evs, stats)"
    using assms(3,4) o by (cases r) (auto simp: watch_round_def)
  have app: "rb_append e ring = (ring', err) \<Longrightarrow> rb_total_ingested ring' = Suc (rb_total_ingested ring)" for e ring ring' err
    using rb_append_fields(3) [of e ring] by simp
  have st1: "ob_paused st1" "ob_total st1 = ob_total st" "ob_history st1 = ob_history st"
    "rb_total_ingested (ob_ring st1) = rb_total_ingested (ob_ring st) + 1"
    using f assms(1) by (auto simp: r feed_local_def Let_def app split: sum.splits prod.splits option.splits)
  have "refresh env evs stats st1 = Inr st1" by (simp add: refresh_def st1(1))
  then have round: "watch_round args env st = (let st3 = expire (re_time env 1) st1 in
            if wa_count args > 0 \<and> ob_total st3 \<ge> wa_count args then (st3, Finished)
            else if \<not> wa_interactive args then
              (st3, if wa_count args = 0 \<and> ob_total st3 \<ge> 2 then Finished else Go_on)
            else (case re_key env of None \<Rightarrow> (st3, Go_on) | Some key \<Rightarrow> handle_key args env False key st3))"
    by (simp add: watch_round_def o r)
  show ?thesis
  proof (cases "st' = expire (re_time env 1) st1")
    case True
    then show ?thesis using st1 by simp
  next
    case False
    with round assms(3) obtain key where "wa_interactive args" "re_key env = Some key"
      "(st', out) = handle_key args env False key (expire (re_time env 1) st1)"
      by (auto simp: Let_def split: if_splits option.splits)
    moreover then have "st' = fst (handle_key args env False key (expire (re_time env 1) st1))" by (metis fst_conv)
    ultimately show ?thesis
      using st1 handle_key_keeps [where args = args and env = env and c = False and key = key and st = "expire (re_time env 1) st1"] by (cases "key \<in> set ''cC''") auto
  qed
qed

text \<open>
  Connected, the requested number is compared with what the daemon received since it started:
  an observer asked to leave after some events leaves in its first round, with at most twelve rows
  shown, when the daemon had received that many before.
\<close>

theorem connected_count_is_lifetime:
  assumes "pid_truth (get_daemon_pid (re_os env) (ob_host st))" "poll_daemon env = (True, evs, PDict stats)"
    and "evs \<noteq> []" "list_all showable evs" "\<not> ob_paused st"
    and "map_of stats ''events_received'' = Some (PInt received)" "0 < wa_count args" "wa_count args \<le> received"
  shows "case watch_round args env st of (st', out) \<Rightarrow>
    out = Finished \<and> ob_total st' = received \<and> length (ob_history st') \<le> 12"
proof -
  have "list_all showable (last_n 12 evs)" using assms(4) by (simp add: last_n_def list_all_drop)
  then obtain rows where "res_map (row_of (re_clock env)) (last_n 12 evs) = Inr rows" "length rows = length (last_n 12 evs)"
    using showable_rows by blast
  then have "refresh env evs (PDict stats) st = Inr (st\<lparr>ob_history := rows, ob_total := received\<rparr>)" "length rows \<le> 12"
    using assms(3,5,6) by (simp_all add: refresh_def events_received_def dict_get_def)
  then show ?thesis using assms by (simp add: watch_round_def observe_def Let_def)
qed

section \<open>Witnesses\<close>

definition round_demo :: round_env where
  "round_demo = \<lparr>re_os = os_demo 8, re_recent = Inr (200, PList [PDict []]),
     re_stats = Inr (200, PDict [(''events_received'', PInt 100)]), re_snapshot = Inl TypeError, re_time = (\<lambda>_. 0),
     re_clock = \<lparr>dt_wall = 63900000000000000, dt_offset = Some 0\<rparr>, re_export = export_demo, re_index = 0,
     re_dumps = (\<lambda>_. []), re_snapshots_dir = ''s'', re_key = None\<rparr>"

lemma demo_ready: "ulid_ready round_demo"
  by code_simp

lemma empty_host_idle [simp]: "\<not> pid_truth (get_daemon_pid env empty_host)"
  by (simp add: get_daemon_pid_def empty_host_def pid_truth_def)

theorem unattended_watch_ends_witness:
  "\<exists>st. watch \<lparr>wa_port = 8080, wa_count = 1, wa_interactive = False\<rparr> [round_demo] (new_observer 0 empty_host) = (st, Finished)
     \<and> ob_total st = 1 \<and> length (ob_history st) = 1"
  using unattended_watch_ends [of "\<lparr>wa_port = 8080, wa_count = 1, wa_interactive = False\<rparr>" "[round_demo]" empty_host 0] demo_ready
  by (simp add: case_prod_unfold prod_eq_iff)

theorem paused_display_frozen_witness:
  "\<exists>st' out. watch_round \<lparr>wa_port = 8080, wa_count = 0, wa_interactive = True\<rparr> round_demo
       ((new_observer 0 empty_host)\<lparr>ob_paused := True\<rparr>) = (st', out)
     \<and> rb_total_ingested (ob_ring st') = 1 \<and> ob_history st' = []"
proof -
  let ?st = "(new_observer 0 empty_host)\<lparr>ob_paused := True\<rparr>"
  obtain ev where ev: "live_event (re_export round_demo) (re_index round_demo) (event_at (new_generator ''cef'' None) (int 0)) = Inr ev"
    using ready_live [OF demo_ready] by blast
  have g: "ob_generator ?st = (new_generator ''cef'' None)\<lparr>lg_index := int 0\<rparr>"
    by (simp add: new_observer_def new_generator_def)
  have idle: "\<not> pid_truth (get_daemon_pid (re_os round_demo) (ob_host ?st))" by (simp add: new_observer_def)
  have k: "re_key round_demo = None" by (simp add: round_demo_def)
  obtain st' where r: "watch_round \<lparr>wa_port = 8080, wa_count = 0, wa_interactive = True\<rparr> round_demo ?st = (st', Go_on)"
    using feed_local_live [OF g ev] idle k by (simp add: watch_round_def observe_def refresh_def Let_def new_observer_def)
  from paused_display_frozen [OF _ idle r] r show ?thesis by (auto simp: new_observer_def new_buffer_def)
qed

theorem connected_count_is_lifetime_witness:
  "snd (watch_round \<lparr>wa_port = 8080, wa_count = 50, wa_interactive = True\<rparr> round_demo (new_observer 0 running_host)) = Finished"
proof -
  have p: "pid_truth (get_daemon_pid (re_os round_demo) (ob_host (new_observer 0 running_host)))"
    using get_recorded [OF running_host_fields(2)] running_host_fields(1) by (simp add: new_observer_def pid_truth_def)
  have q: "poll_daemon round_demo = (True, [PDict []], PDict [(''events_received'', PInt 100)])"
    by (simp add: poll_daemon_def round_demo_def Let_def)
  have "showable (PDict [])"
    by (simp add: showable_def row_of_def dict_get_def endpoint_text_def row_time_def prefix_text_def str_startswith_def)
  then show ?thesis
    using connected_count_is_lifetime [OF p q, where args = "\<lparr>wa_port = 8080, wa_count = 50, wa_interactive = True\<rparr>" and received = 100]
    by (simp add: case_prod_unfold new_observer_def)
qed

end
