(* ===== verification/Console.thy ===== *)
theory Console
  imports EventExport
begin

text \<open>
  The export command and the dispatcher of \<open>scripts/cli.py\<close>: where an exported batch goes, the
  operations of the interactive sink inspector, and the subcommand an argument list selects. The
  environment of each generated batch, \<open>json.dumps\<close>, the answers typed at the prompts and whether
  the output is a terminal are parameters; \<open>None\<close> is the end of the input. Files are named by the
  path as given, and the panels of the inspector are left out: their lookups cannot fail on the
  events \<open>generate_normalized_batch\<close> returns, except the first event of an empty batch.
\<close>

section \<open>Definitions\<close>

record sinks =
  sk_files :: "string \<Rightarrow> string option"
  sk_stdout :: string

definition write_stdout :: "string \<Rightarrow> sinks \<Rightarrow> sinks" where
  "write_stdout content s = s\<lparr>sk_stdout := sk_stdout s @ content\<rparr>"

text \<open>\<open>open(path, "a")\<close> and \<open>open(path, "w")\<close>\<close>

definition append_file :: "string \<Rightarrow> string \<Rightarrow> sinks \<Rightarrow> sinks" where
  "append_file path content s =
     s\<lparr>sk_files := (sk_files s)(path := Some ((case sk_files s path of None \<Rightarrow> [] | Some old \<Rightarrow> old) @ content))\<rparr>"

definition overwrite_file :: "string \<Rightarrow> string \<Rightarrow> sinks \<Rightarrow> sinks" where
  "overwrite_file path content s = s\<lparr>sk_files := (sk_files s)(path := Some content)\<rparr>"

definition default_name :: "string \<Rightarrow> string" where
  "default_name fmt =
     (if fmt = ''ndjson'' then ''events.jsonl'' else if fmt = ''csv'' then ''events.csv'' else ''events.log'')"

text \<open>The path typed at the prompt, stripped; nothing typed means the default.\<close>

definition target_path :: "string \<Rightarrow> string option list \<Rightarrow> string" where
  "target_path fmt inputs = (case inputs of
       Some t # _ \<Rightarrow> if str_strip t \<noteq> [] then str_strip t else default_name fmt
     | _ \<Rightarrow> default_name fmt)"

text \<open>The inspector, one answer after the other; \<open>k\<close> counts the batches that were generated.\<close>

function render_export_ui ::
    "(nat \<Rightarrow> export_env) \<Rightarrow> (pyval \<Rightarrow> string) \<Rightarrow> string \<Rightarrow> string \<Rightarrow> nat \<Rightarrow> string option list \<Rightarrow> dict list \<Rightarrow> sinks
     \<Rightarrow> sinks \<times> unit result" where
  "render_export_ui env dumps fmt source_type k inputs events s =
     (if events = [] then (s, Inl IndexError)
      else case inputs of
        [] \<Rightarrow> (s, Inr ())
      | None # _ \<Rightarrow> (s, Inr ())
      | Some answer # more_inputs \<Rightarrow>
          let choice = str_upper (str_strip answer) in
          if choice = ''1'' then
            (case format_event_content dumps events fmt of
               Inl e \<Rightarrow> (s, Inl e)
             | Inr content \<Rightarrow> render_export_ui env dumps fmt source_type k more_inputs events (write_stdout content s))
          else if choice = ''2'' then
            (case format_event_content dumps events fmt of
               Inl e \<Rightarrow> (overwrite_file (target_path fmt more_inputs) [] s, Inl e)
             | Inr content \<Rightarrow> render_export_ui env dumps fmt source_type k (tl more_inputs) events
                                 (overwrite_file (target_path fmt more_inputs) content s))
          else if choice = ''3'' then
            (case generate_normalized_batch (env k) (int (length events)) source_type of
               Inl e \<Rightarrow> (s, Inl e)
             | Inr events' \<Rightarrow> render_export_ui env dumps fmt source_type (k + 1) more_inputs events' s)
          else if choice \<in> set [''Q'', ''EXIT'', []] then (s, Inr ())
          else render_export_ui env dumps fmt source_type k more_inputs events s)"
  by pat_completeness auto
termination
  by (relation "measure (\<lambda>(env, dumps, fmt, source_type, k, inputs, events, s). length inputs)") auto

record export_args =
  xa_format :: string
  xa_output :: "string option"
  xa_limit :: int
  xa_type :: string
  xa_raw :: bool

definition handle_export ::
    "(nat \<Rightarrow> export_env) \<Rightarrow> (pyval \<Rightarrow> string) \<Rightarrow> bool \<Rightarrow> string option list \<Rightarrow> export_args \<Rightarrow> sinks \<Rightarrow> sinks \<times> int result" where
  "handle_export env dumps is_tty inputs args s =
     (let fmt = (if xa_format args = ''json'' then ''ndjson'' else xa_format args) in
      case res_bind (generate_normalized_batch (env 0) (xa_limit args) (xa_type args)) (\<lambda>events.
             res_bind (format_event_content dumps events fmt) (\<lambda>content. Inr (events, content))) of
        Inl e \<Rightarrow> (s, Inl e)
      | Inr (events, content) \<Rightarrow>
          (case xa_output args of
             Some (c # path) \<Rightarrow> (append_file (c # path) content s, Inr 0)
           | _ \<Rightarrow>
               if xa_raw args \<or> \<not> is_tty then (write_stdout content s, Inr 0)
               else (case render_export_ui env dumps fmt (xa_type args) 1 inputs events s of
                   (s', r) \<Rightarrow> (s', res_bind r (\<lambda>_. Inr 0)))))"

text \<open>What \<open>main\<close> calls, with the arguments it passes on.\<close>

datatype cli_command =
    Demo_menu
  | Help
  | Export "string list"
  | Watch "string list"
  | Api "string list"
  | Daemon_control "string list"
  | Audit_suite
  | Unknown string

definition main_command :: "string list \<Rightarrow> cli_command" where
  "main_command argv = (case argv of
       [] \<Rightarrow> Demo_menu
     | first # args \<Rightarrow>
         let sub = str_lower first in
         if sub \<in> set [''-h'', ''--help'', ''help''] then Help
         else if sub = ''export'' then Export args
         else if sub \<in> set [''watch'', ''term'', ''tail''] then Watch args
         else if sub \<in> set [''api'', ''listen'', ''serve''] then Api args
         else if sub \<in> set [''daemon'', ''service''] then Daemon_control args
         else if sub \<in> set [''demo'', ''rehearse''] then Demo_menu
         else if sub \<in> set [''audit'', ''test''] then Audit_suite
         else Unknown sub)"

text \<open>The exit code of what does not depend on the command called.\<close>

definition fixed_exit_code :: "cli_command \<Rightarrow> int option" where
  "fixed_exit_code c = (case c of Demo_menu \<Rightarrow> Some 0 | Help \<Rightarrow> Some 0 | Unknown _ \<Rightarrow> Some 1 | _ \<Rightarrow> None)"

section \<open>Lemmas\<close>

declare render_export_ui.simps [simp del]

lemma empty_batch: "count \<le> 0 \<Longrightarrow> generate_normalized_batch env count t = Inr []"
  by (simp add: generate_normalized_batch_def generate_batch_events)

lemma batch_size:
  assumes "generate_normalized_batch env count t = Inr events"
  shows "length events = nat count"
proof -
  from assms have "res_map (normalize_raw env t)
      (enumerate 0 (map (\<lambda>k. event_at (new_generator t None) (lg_index (new_generator t None) + int k)) [0..<nat count])) = Inr events"
    by (simp add: generate_normalized_batch_def generate_batch_events)
  then show ?thesis by (auto simp: res_map_Inr_iff dest!: list_all2_lengthD)
qed

text \<open>On a terminal an export of no events raises, where a pipe gets the empty batch.\<close>

lemma empty_export_on_terminal:
  assumes "xa_limit args \<le> 0" "xa_output args = None" "\<not> xa_raw args"
    and "format_event_content dumps [] (if xa_format args = ''json'' then ''ndjson'' else xa_format args) = Inr content"
  shows "handle_export env dumps True inputs args s = (s, Inl IndexError)"
    "handle_export env dumps False inputs args s = (write_stdout content s, Inr 0)"
  using assms by (simp_all add: handle_export_def empty_batch render_export_ui.simps)

text \<open>
  Exports to a file accumulate: the file is what it was, followed by the content of the batch, and
  nothing else changes.
\<close>

lemma export_appends:
  assumes "generate_normalized_batch (env 0) (xa_limit args) (xa_type args) = Inr events"
    and "format_event_content dumps events (if xa_format args = ''json'' then ''ndjson'' else xa_format args) = Inr content"
    and "xa_output args = Some path" "path \<noteq> []"
  shows "handle_export env dumps is_tty inputs args s = (append_file path content s, Inr 0)"
  using assms by (simp add: handle_export_def split: list.splits)

text \<open>
  What the inspector leaves in files: each file it wrote holds the content of one whole batch, with
  as many events as the batch it was opened with, whichever batches were generated in between.
\<close>

lemma inspector_files:
  assumes "render_export_ui env dumps fmt t k inputs events s = (s', Inr ())"
  shows "sk_files s' p = sk_files s p \<or> (\<exists>evs content. length evs = length events
     \<and> format_event_content dumps evs fmt = Inr content \<and> sk_files s' p = Some content)"
  using assms
proof (induction env dumps fmt t k inputs events s rule: render_export_ui.induct)
  case (1 env dumps fmt t k inputs events s)
  show ?case
  proof (cases "events = [] \<or> inputs = [] \<or> hd inputs = None")
    case True
    then show ?thesis using 1(5) by (cases inputs) (auto simp: render_export_ui.simps split: if_splits)
  next
    case False
    then obtain answer r where i: "inputs = Some answer # r" "events \<noteq> []" by (cases inputs) auto
    let ?c = "str_upper (str_strip answer)"
    note run = trans [OF render_export_ui.simps [symmetric] 1(5), unfolded i(1) list.case option.case Let_def]
    consider "?c = ''1''" | "?c = ''2''" | "?c = ''3''" | "?c \<in> set [''Q'', ''EXIT'', []]"
      | "?c \<notin> set [''1'', ''2'', ''3'', ''Q'', ''EXIT'', []]" by auto
    then show ?thesis
    proof cases
      case 1
      with run i obtain content where "format_event_content dumps events fmt = Inr content"
        "render_export_ui env dumps fmt t k r events (write_stdout content s) = (s', Inr ())"
        by (auto split: sum.splits)
      with "1.IH"(1) [OF i(2) i(1) refl refl 1] show ?thesis by (simp add: write_stdout_def)
    next
      case 2
      with run i obtain content where c: "format_event_content dumps events fmt = Inr content"
        "render_export_ui env dumps fmt t k (tl r) events (overwrite_file (target_path fmt r) content s) = (s', Inr ())"
        by (auto split: sum.splits)
      with "1.IH"(2) [OF i(2) i(1) refl refl _ 2 c(1)] 2 show ?thesis
        by (auto simp: overwrite_file_def split: if_splits)
    next
      case 3
      with run i obtain events' where e: "generate_normalized_batch (env k) (int (length events)) t = Inr events'"
        "render_export_ui env dumps fmt t (k + 1) r events' s = (s', Inr ())"
        by (auto split: sum.splits)
      with "1.IH"(3) [OF i(2) i(1) refl refl _ _ 3 e(1)] 3 batch_size [OF e(1)] show ?thesis by auto
    next
      case 4
      with run i show ?thesis by auto
    next
      case 5
      with run i have "render_export_ui env dumps fmt t k r events s = (s', Inr ())" by auto
      with "1.IH"(4) [OF i(2) i(1) refl refl] 5 show ?thesis by auto
    qed
  qed
qed

end
