(* ===== verification/Hardware.thy ===== *)
theory Hardware
  imports PyConv
begin

text \<open>
  The hardware profile of benchmark reports, \<open>ml/benchmark/hardware.py\<close>. What the operating system
  answers is a parameter: the lines of \<open>/proc/cpuinfo\<close> and \<open>/proc/meminfo\<close>, or \<open>None\<close> where the file
  is missing or reading it raises, and the answers of \<open>psutil\<close>, \<open>os\<close> and \<open>platform\<close>.
\<close>

section \<open>Definitions\<close>

record host_facts =
  hf_cpuinfo :: "string list option"
  hf_meminfo :: "string list option"
  hf_psutil_total :: "int option"
  hf_cpu_count :: "int option"
  hf_processor :: string
  hf_machine :: string
  hf_platform :: string
  hf_python_version :: string

text \<open>The value of a line about the model: what follows the first colon, when it is not blank.\<close>

definition model_of_line :: "string \<Rightarrow> string option" where
  "model_of_line line =
     (if str_contains ''model name'' line then
        (let parts = str_split1 (CHR '':'') line in
         if 1 < length parts \<and> str_strip (parts ! 1) \<noteq> [] then Some (str_strip (parts ! 1)) else None)
      else None)"

fun first_some :: "('a \<Rightarrow> 'b option) \<Rightarrow> 'a list \<Rightarrow> 'b option" where
  "first_some f [] = None"
| "first_some f (x # xs) = (case f x of None \<Rightarrow> first_some f xs | Some y \<Rightarrow> Some y)"

definition get_cpu_model :: "host_facts \<Rightarrow> string" where
  "get_cpu_model h =
     (case (case hf_cpuinfo h of None \<Rightarrow> None | Some ls \<Rightarrow> first_some model_of_line ls) of
        Some m \<Rightarrow> m
      | None \<Rightarrow>
          let proc = (if hf_processor h \<noteq> [] then hf_processor h else hf_machine h)
          in if proc \<noteq> [] then proc else ''Unknown x86_64 CPU'')"

text \<open>\<open>s.split()\<close>\<close>

fun split_spaces :: "string \<Rightarrow> string \<Rightarrow> string list" where
  "split_spaces cur [] = (if cur = [] then [] else [cur])"
| "split_spaces cur (c # s) =
     (if is_space c then (if cur = [] then [] else [cur]) @ split_spaces [] s else split_spaces (cur @ [c]) s)"

definition round2 :: "pyval \<Rightarrow> rat \<Rightarrow> pyval" where
  "round2 v d = (case v of PFloat x \<Rightarrow> PFloat (py_round (fl (x / d)) 2) | _ \<Rightarrow> v)"

text \<open>The first line with a total decides; a number that does not parse ends the search.\<close>

fun memory_of_lines :: "string list \<Rightarrow> pyval option" where
  "memory_of_lines [] = None"
| "memory_of_lines (line # ls) =
     (if str_startswith line ''MemTotal:'' \<and> 2 \<le> length (split_spaces [] line)
      then (case float_of_text (split_spaces [] line ! 1) of Inl e \<Rightarrow> None | Inr kb \<Rightarrow> Some (round2 kb 1024))
      else memory_of_lines ls)"

definition get_total_memory_mb :: "host_facts \<Rightarrow> pyval" where
  "get_total_memory_mb h =
     (case hf_psutil_total h of
        Some n \<Rightarrow> round2 (PFloat (fl (of_int n))) 1048576
      | None \<Rightarrow> (case (case hf_meminfo h of None \<Rightarrow> None | Some ls \<Rightarrow> memory_of_lines ls) of
          Some v \<Rightarrow> v | None \<Rightarrow> PFloat 4096))"

definition get_hardware_profile :: "host_facts \<Rightarrow> dict" where
  "get_hardware_profile h =
     [(''cpu_model'', PStr (get_cpu_model h)),
      (''cpu_cores'', PInt (case hf_cpu_count h of None \<Rightarrow> 1 | Some n \<Rightarrow> if n = 0 then 1 else n)),
      (''memory_total_mb'', get_total_memory_mb h),
      (''os_platform'', PStr (if hf_platform h \<noteq> [] then hf_platform h else ''Linux'')),
      (''python_version'', PStr (hf_python_version h))]"

section \<open>Lemmas\<close>

lemma first_some_Some: "first_some f xs = Some y \<Longrightarrow> \<exists>x\<in>set xs. f x = Some y"
  by (induction xs) (auto split: option.splits)

lemma get_cpu_model_nonempty: "get_cpu_model h \<noteq> []"
proof (cases "case hf_cpuinfo h of None \<Rightarrow> None | Some ls \<Rightarrow> first_some model_of_line ls")
  case None
  then show ?thesis by (simp add: get_cpu_model_def Let_def)
next
  case (Some m)
  then obtain line where "model_of_line line = Some m" by (auto split: option.splits dest!: first_some_Some)
  then have "m \<noteq> []" by (auto simp: model_of_line_def Let_def split: if_splits)
  then show ?thesis by (simp add: get_cpu_model_def Some)
qed

text \<open>
  The profile never leaves a report without a processor, a core or a platform, whatever the host
  answers.
\<close>

lemma hardware_profile_complete:
  assumes "\<forall>n. hf_cpu_count h = Some n \<longrightarrow> 0 \<le> n"
  shows "\<exists>cpu cores mem os py. get_hardware_profile h =
      [(''cpu_model'', PStr cpu), (''cpu_cores'', PInt cores), (''memory_total_mb'', mem), (''os_platform'', PStr os),
       (''python_version'', PStr py)]
    \<and> cpu \<noteq> [] \<and> 1 \<le> cores \<and> os \<noteq> []"
proof -
  have "1 \<le> (case hf_cpu_count h of None \<Rightarrow> 1 | Some n \<Rightarrow> if n = 0 then 1 else n)"
    using assms by (cases "hf_cpu_count h") fastforce+
  then show ?thesis using get_cpu_model_nonempty by (simp add: get_hardware_profile_def)
qed

section \<open>Memory of the process\<close>

text \<open>
  \<open>ResourceMonitor._get_memory_mb\<close> of \<open>ml/benchmark/metrics.py\<close>: the peak that \<open>getrusage\<close> reports,
  in bytes on macOS and in kilobytes elsewhere, or the resident size that \<open>psutil\<close> reports; a
  module that is missing is \<open>None\<close>. Both counters are below \<open>2^53\<close>, where the conversion is exact.
\<close>

definition get_memory_mb :: "nat option \<Rightarrow> bool \<Rightarrow> nat option \<Rightarrow> rat result" where
  "get_memory_mb ru_maxrss darwin rss = (case ru_maxrss of
       Some peak_rss \<Rightarrow> Inr (if darwin then fl (of_nat peak_rss / (1024 * 1024)) else fl (of_nat peak_rss / 1024))
     | None \<Rightarrow> (case rss of
           Some bytes \<Rightarrow> Inr (fl (of_nat bytes / (1024 * 1024)))
         | None \<Rightarrow> Inl (RuntimeError
             ''Cannot measure process memory: install psutil on platforms without the resource module.'')))"

lemma memory_measured_iff:
  "(\<exists>mb. get_memory_mb peak darwin rss = Inr mb \<and> 0 \<le> mb) \<longleftrightarrow> peak \<noteq> None \<or> rss \<noteq> None"
  by (auto simp: get_memory_mb_def float_bounds split: option.splits)

end
