(* ===== verification/JsonSchema.thy ===== *)
theory JsonSchema
  imports Passport
begin

text \<open>
  JSON Schema, as far as the published contracts under \<open>packages/contracts\<close> use it, as a datatype
  with an evaluator. Every object schema of the contracts has \<open>additionalProperties: false\<close>. A
  \<open>date-time\<close> format is an annotation of the 2020-12 draft and constrains nothing, so a timestamp
  is \<open>J_String 0\<close>.
\<close>

datatype schema =
    J_Any
  | J_Const pyval
  | J_String nat
  | J_Enum "string list"
  | J_Semver
  | J_Number "rat option" "rat option"
  | J_Natural
  | J_Boolean
  | J_Nullable schema
  | J_Array schema
  | J_Object "string list" "(string \<times> schema) list"

definition bounded_by :: "rat option \<Rightarrow> rat option \<Rightarrow> rat \<Rightarrow> bool" where
  "bounded_by lo hi x \<longleftrightarrow> (case lo of None \<Rightarrow> True | Some l \<Rightarrow> l \<le> x) \<and> (case hi of None \<Rightarrow> True | Some h \<Rightarrow> x \<le> h)"

fun conforms :: "schema \<Rightarrow> pyval \<Rightarrow> bool"
  and conforms_members :: "(string \<times> schema) list \<Rightarrow> dict \<Rightarrow> bool" where
  "conforms J_Any v = True"
| "conforms (J_Const c) v = (v = c)"
| "conforms (J_String n) v = (case v of PStr s \<Rightarrow> n \<le> length s | _ \<Rightarrow> False)"
| "conforms (J_Enum ss) v = (case v of PStr s \<Rightarrow> s \<in> set ss | _ \<Rightarrow> False)"
| "conforms J_Semver v = is_semver v"
| "conforms (J_Number lo hi) v =
     (is_number v \<and> (case num_of v of None \<Rightarrow> False | Some x \<Rightarrow> bounded_by lo hi x))"
| "conforms J_Natural v = (case v of PInt i \<Rightarrow> 0 \<le> i | _ \<Rightarrow> False)"
| "conforms J_Boolean v = (case v of PBool b \<Rightarrow> True | _ \<Rightarrow> False)"
| "conforms (J_Nullable s) v = (v = PNone \<or> conforms s v)"
| "conforms (J_Array s) v = (case v of PList vs \<Rightarrow> list_all (conforms s) vs | _ \<Rightarrow> False)"
| "conforms (J_Object required properties) v = (case v of
       PDict d \<Rightarrow> list_all (\<lambda>k. k \<in> set (map fst d)) required
         \<and> list_all (\<lambda>k. k \<in> set (map fst properties)) (map fst d)
         \<and> conforms_members properties d
     | _ \<Rightarrow> False)"
| "conforms_members [] d = True"
| "conforms_members ((k, s) # r) d =
     ((case map_of d k of None \<Rightarrow> True | Some v \<Rightarrow> conforms s v) \<and> conforms_members r d)"

abbreviation "J_Rate \<equiv> J_Number (Some 0) (Some 1)"
abbreviation "J_Delta \<equiv> J_Number (Some (- 1)) (Some 1)"
abbreviation "J_Text \<equiv> J_String (Suc 0)"
abbreviation "J_DateTime \<equiv> J_String 0"

lemma conforms_rate [simp]: "conforms J_Rate (PFloat x) \<longleftrightarrow> 0 \<le> x \<and> x \<le> 1"
  by (simp add: bounded_by_def)

lemma conforms_delta [simp]: "conforms J_Delta (PFloat x) \<longleftrightarrow> \<bar>x\<bar> \<le> 1"
  by (auto simp: bounded_by_def)

lemma conforms_text [simp]: "conforms (J_String (Suc 0)) v \<longleftrightarrow> nonempty_str v"
  by (cases v) (auto simp: conforms.simps(3) Suc_le_eq)

declare conforms.simps(3) [simp del]

lemma conforms_string [simp]: "conforms (J_String 0) (PStr s)"
  by (simp add: conforms.simps(3))

lemma conforms_nat [simp]: "conforms J_Natural (PInt (int n))"
  by simp

lemma timestamp_conforms: "timestamp local t = Inr ts \<Longrightarrow> conforms J_DateTime ts"
  by (cases ts) (auto simp: conforms.simps(3) timestamp_def result_simps)

lemma conforms_strings [simp]: "conforms (J_Array (J_String 0)) (PList (map PStr ss))"
  by (simp add: list_all_iff)

lemma conforms_texts [simp]: "list_all (conforms (J_String 0)) (map (PStr \<circ> f) xs)"
  by (simp add: list_all_iff)

end
