(* ===== verification/Messages.thy ===== *)
theory Messages
  imports PyStr Workflow Mapper
begin

text \<open>
  The texts of the reports. The components keep a message as a value with the arguments the code
  formats; this theory writes the f-strings out: \<open>fixed x n\<close> is \<open>f"{x:.nf}"\<close>, \<open>percent x n\<close> is
  \<open>f"{x:.n%}"\<close>, and \<open>signed\<close> adds the sign of a non-negative number.
\<close>

section \<open>Number formats\<close>

definition fixed_digits :: "int \<Rightarrow> nat \<Rightarrow> string" where
  "fixed_digits m n = (let ds = show_digits m; padded = zeros (n + 1 - length ds) @ ds
     in take (length padded - n) padded @ (if n = 0 then [] else CHR ''.'' # drop (length padded - n) padded))"

definition fixed :: "rat \<Rightarrow> nat \<Rightarrow> string" where
  "fixed x n = (if x < 0 then ''-'' else []) @ fixed_digits (round_half_even (\<bar>x\<bar> * 10 ^ n)) n"

definition percent :: "rat \<Rightarrow> nat \<Rightarrow> string" where
  "percent x n = fixed (fl (x * 100)) n @ ''%''"

definition signed :: "rat \<Rightarrow> string \<Rightarrow> string" where
  "signed x text = (if x < 0 then text else CHR ''+'' # text)"

definition in_quotes :: "string \<Rightarrow> string" where
  "in_quotes s = [char_of (39 :: nat)] @ s @ [char_of (39 :: nat)]"

definition bool_text :: "bool \<Rightarrow> string" where
  "bool_text b = (if b then ''True'' else ''False'')"

section \<open>Shadow comparison\<close>

fun reason_text :: "reason \<Rightarrow> string" where
  "reason_text Isolation_violation =
     ''Downstream isolation violation: candidate output escaped to downstream bus''"
| "reason_text (Dps_regression cand act) = ''DPS regression detected: candidate DPS '' @ percent cand 2
     @ '' is lower than active DPS '' @ percent act 2"
| "reason_text (Critical_divergence x) =
     ''Critical semantic divergence '' @ percent x 2 @ '' exceeds 0% tolerance''"
| "reason_text (Retention_violation x) =
     ''Unknown field retention '' @ percent x 2 @ '' violates Rule 4 (100% required)''"
| "reason_text (Match_rate_below x) =
     ''Field match rate '' @ percent x 2 @ '' is below acceptable baseline (90%)''"
| "reason_text (Match_rate_review x) =
     ''Field match rate '' @ percent x 2 @ '' requires review (between 90% and 98%)''"
| "reason_text (Latency_regression pct ms) =
     ''Latency regression +'' @ fixed pct 1 @ ''% ('' @ fixed ms 2 @ ''ms) exceeds 50% threshold''"
| "reason_text (Detail_diverged i f a c) = ''Event #'' @ show_nat i @ '': Critical '' @ in_quotes f
     @ '' diverged (active='' @ in_quotes (py_str a) @ '', candidate='' @ in_quotes (py_str c) @ '')''"
| "reason_text (Detail_critical_dropped i f) =
     ''Event #'' @ show_nat i @ '': Critical field '' @ in_quotes f @ '' dropped in candidate''"
| "reason_text (Detail_unknown_dropped i k) =
     ''Event #'' @ show_nat i @ '': Unknown field '' @ in_quotes k @ '' dropped in candidate''"
| "reason_text (Detail_dps cand lost act) = ''Candidate DPS ('' @ percent cand 2 @ '') regressed by ''
     @ percent lost 2 @ '' compared to active DPS ('' @ percent act 2 @ '')''"
| "reason_text (Detail_latency pct cand act) = ''Candidate p95 latency increased by '' @ fixed pct 1
     @ ''% ('' @ fixed cand 2 @ ''ms vs '' @ fixed act 2 @ ''ms)''"
| "reason_text Ok_no_divergence = ''Zero critical semantic divergence observed across evaluation window''"
| "reason_text (Ok_dps x) = ''Detection preservation score (DPS) fully preserved at '' @ percent x 2"
| "reason_text Ok_retention = ''Unknown field retention maintained at 100%''"
| "reason_text (Ok_latency pct cand act) = ''p95 latency delta: '' @ signed pct (fixed pct 1) @ ''% (''
     @ fixed cand 2 @ ''ms vs active '' @ fixed act 2 @ ''ms)''"
| "reason_text Ok_isolation = ''Downstream bus isolation successfully verified''"

section \<open>Drift\<close>

definition names_text :: "string list \<Rightarrow> string" where
  "names_text ks = py_repr (PList (map PStr ks))"

fun drift_text :: "drift_detail \<Rightarrow> string" where
  "drift_text (Parse_failures x t) =
     ''Parse failure rate '' @ percent x 2 @ '' exceeds threshold '' @ percent t 2"
| "drift_text (Key_set_changed x t added removed) =
     ''Key-set structural distance '' @ fixed x 3 @ '' exceeds threshold '' @ fixed t 3
     @ '' (new fields: '' @ names_text added @ '', removed fields: '' @ names_text removed @ '')''"
| "drift_text (Unknown_fields x t) =
     ''Unknown field ratio '' @ percent x 2 @ '' exceeds threshold '' @ percent t 2"
| "drift_text (Type_violations x t ms) =
     ''Type violation rate '' @ percent x 2 @ '' exceeds threshold '' @ percent t 2 @ '': ''
     @ str_join ''; '' (map (\<lambda>(k, b, c). ''field '' @ in_quotes k @ '' mutated from '' @ b @ '' to '' @ c) ms)"
| "drift_text (Format_divergence x t) =
     ''Format distribution divergence '' @ fixed x 3 @ '' exceeds threshold '' @ fixed t 3"
| "drift_text Within_bounds = ''All observed metrics within configured baseline stability bounds''"
| "drift_text (Mapping_dropped f raw) = ''Critical field '' @ in_quotes f
     @ '' mapping dropped in candidate spec (previously mapped from '' @ in_quotes raw @ '')''"
| "drift_text (Mapping_changed f base cand) =
     ''Critical field '' @ in_quotes f @ '' remapped from '' @ in_quotes base @ '' to '' @ in_quotes cand"
| "drift_text (Enum_inverted raw cand base) =
     ''Action enum inversion detected: raw '' @ in_quotes raw @ '' mapped to '' @ in_quotes (py_str cand)
     @ '' (previously '' @ in_quotes (py_str base) @ '')''"
| "drift_text (Enum_unmapped x) =
     ''Enum unmapped value ratio '' @ percent x 2 @ '' exceeds baseline enum vocabulary''"
| "drift_text (Family_divergence x base cand) = ''Event family divergence '' @ fixed x 2
     @ '' (primary baseline: '' @ in_quotes base @ '', primary candidate: '' @ in_quotes cand @ '')''"
| "drift_text (Dps_dropped x base cand) = ''Mandatory DPS regression of '' @ percent x 2
     @ '' detected (baseline DPS '' @ percent base 2 @ '', candidate DPS '' @ percent cand 2 @ '')''"
| "drift_text Within_semantic_bounds =
     ''All observed semantic metrics within configured baseline stability bounds''"

section \<open>Repair\<close>

fun refusal_text :: "refusal \<Rightarrow> string" where
  "refusal_text (Refusal_1_schema details) =
     ''Refusal condition 1 met: candidate parser schema is invalid ('' @ details @ '')''"
| "refusal_text (Refusal_2_validation ok ext sem) =
     ''Refusal condition 2 met: empirical validation failed or incomplete (passed='' @ bool_text ok
     @ '', extraction_acc='' @ percent ext 2 @ '', semantic_acc='' @ percent sem 2 @ '')''"
| "refusal_text (Refusal_3_detection d delta) =
     ''Refusal condition 3 met: mandatory detection preservation failed (candidate DPS='' @ percent d 2
     @ '', DPS delta='' @ signed delta (percent delta 2) @ '')''"
| "refusal_text (Refusal_4_retention raw unk) =
     ''Refusal condition 4 met: retention below 100% (raw_retention='' @ percent raw 2
     @ '', unknown_retention='' @ percent unk 2 @ '')''"
| "refusal_text (Refusal_5_shadow ok state isolated) =
     ''Refusal condition 5 met: shadow state unpassed or isolation unverified (shadow_passed=''
     @ bool_text ok @ '', shadow_state='' @ in_quotes state @ '', downstream_isolation=''
     @ bool_text isolated @ '')''"

section \<open>Mapping evidence\<close>

fun evidence_line :: "evidence \<Rightarrow> string" where
  "evidence_line ExactCanonicalPathMatch = ''exact_canonical_path_match''"
| "evidence_line ExactAliasMatch = ''exact_alias_match''"
| "evidence_line (LexicalSimilarity x) = ''lexical_similarity:'' @ fixed x 2"
| "evidence_line (HardTypeConflict expected got) =
     ''hard_type_conflict:expected_'' @ names_text expected @ ''_got_'' @ got"
| "evidence_line (DatatypeCompatible t) = ''datatype_compatible:'' @ t"
| "evidence_line (DatatypeMismatch expected got) =
     ''datatype_mismatch:expected_'' @ names_text expected @ ''_got_'' @ got"
| "evidence_line IpCandidateBonus = ''is_ip_candidate_bonus''"
| "evidence_line TimestampCandidateBonus = ''is_timestamp_candidate_bonus''"
| "evidence_line EnumCandidateBonus = ''is_enum_candidate_bonus''"
| "evidence_line (EventFamilyContext f) = ''event_family_context:'' @ f"
| "evidence_line AbstainPreserveExtension = ''abstain_preserve_extension''"
| "evidence_line NoMatchFound = ''no_match_found''"

end
