(* ===== verification/Reports.thy ===== *)
theory Reports
  imports Messages SemanticDrift Passport
begin

text \<open>
  The \<open>to_dict\<close> functions: \<open>ml/shadow/comparator.py\<close>, \<open>ml/drift/structural.py\<close>,
  \<open>ml/self_healing/workflow.py\<close> and \<open>ml/semantic_mapper/mapper.py\<close>. The helper \<open>iso_ts\<close> that three of
  them define is the \<open>timestamp\<close> of the passport, except that it reads a naive datetime as UTC.
\<close>

definition iso_ts :: "datetime \<Rightarrow> pyval result" where
  "iso_ts t = timestamp (\<lambda>_. 0) t"

abbreviation "p_float x \<equiv> PFloat (py_round x 4)"
abbreviation "p_strs ss \<equiv> PList (map PStr ss)"

section \<open>Shadow comparison\<close>

definition metrics_to_dict :: "ShadowMetrics \<Rightarrow> pyval" where
  "metrics_to_dict m = PDict [
     (''field_match_rate'', p_float (sm_field_match_rate m)),
     (''critical_semantic_divergence'', p_float (sm_critical_semantic_divergence m)),
     (''unknown_field_retention'', p_float (sm_unknown_field_retention m)),
     (''active_dps'', p_float (sm_active_dps m)),
     (''candidate_dps'', p_float (sm_candidate_dps m)),
     (''dps_delta'', p_float (sm_dps_delta m)),
     (''active_latency_p95_ms'', p_float (sm_active_latency_p95_ms m)),
     (''candidate_latency_p95_ms'', p_float (sm_candidate_latency_p95_ms m)),
     (''latency_delta_pct'', PFloat (py_round (sm_latency_delta_pct m) 2))]"

fun divergence_value :: "divergence_type \<Rightarrow> string" where
  "divergence_value VALUE_MISMATCH = ''VALUE_MISMATCH''"
| "divergence_value FIELD_MISSING_IN_CANDIDATE = ''FIELD_MISSING_IN_CANDIDATE''"
| "divergence_value NEW_FIELD_IN_CANDIDATE = ''NEW_FIELD_IN_CANDIDATE''"
| "divergence_value TYPE_MISMATCH = ''TYPE_MISMATCH''"

text \<open>The comparator always gives an example of the mismatch.\<close>

definition divergence_to_dict :: "FieldDivergence \<Rightarrow> pyval" where
  "divergence_to_dict fd = PDict [
     (''field'', PStr (fd_field fd)),
     (''match_rate'', p_float (fd_match_rate fd)),
     (''divergence_type'', PStr (divergence_value (fd_type fd))),
     (''example_mismatch'', PDict [(''active'', fd_active fd), (''candidate'', fd_candidate fd)])]"

fun recommendation_value :: "ShadowRecommendation \<Rightarrow> string" where
  "recommendation_value READY_FOR_PROMOTION = ''READY_FOR_PROMOTION''"
| "recommendation_value SH_REJECT = ''REJECT''"
| "recommendation_value REQUIRE_HUMAN_REVIEW = ''REQUIRE_HUMAN_REVIEW''"

definition shadow_to_dict :: "ShadowComparisonReport \<Rightarrow> pyval result" where
  "shadow_to_dict r =
     res_bind (iso_ts (sc_evaluated_at r)) (\<lambda>evaluated.
     res_bind (iso_ts (sc_start_time r)) (\<lambda>started.
     res_bind (iso_ts (sc_end_time r)) (\<lambda>ended.
     Inr (PDict [
       (''schema_version'', PStr ''1.0''),
       (''source_id'', PStr (sc_source_id r)),
       (''active_parser'', PDict [(''id'', sc_active_parser_id r), (''version'', sc_active_parser_version r)]),
       (''candidate_parser'', PDict [(''id'', sc_candidate_parser_id r), (''version'', sc_candidate_parser_version r)]),
       (''shadow_state'', PStr (ShadowState_value (sc_shadow_state r))),
       (''evaluated_at'', evaluated),
       (''evaluation_window'', PDict [(''start_time'', started), (''end_time'', ended),
          (''sample_count'', PInt (int (sc_sample_count r)))]),
       (''metrics'', metrics_to_dict (sc_metrics r)),
       (''field_divergences'', PList (map divergence_to_dict (sc_field_divergences r))),
       (''downstream_isolation_verified'', PBool (sc_downstream_isolation_verified r)),
       (''recommendation'', PStr (recommendation_value (sc_recommendation r))),
       (''recommendation_reasons'', p_strs (map reason_text (sc_recommendation_reasons r)))]))))"

section \<open>Drift\<close>

definition p_floats :: "(string \<times> rat) list \<Rightarrow> pyval" where
  "p_floats d = PDict (map (\<lambda>(k, x). (k, PFloat x)) d)"

definition drift_to_dict :: "DriftReport \<Rightarrow> pyval result" where
  "drift_to_dict r =
     res_bind (iso_ts (dr_observed_at r)) (\<lambda>observed.
     res_bind (iso_ts (dr_start_time r)) (\<lambda>started.
     res_bind (iso_ts (dr_end_time r)) (\<lambda>ended.
     Inr (PDict [
       (''schema_version'', PStr ''1.0''),
       (''source_id'', PStr (dr_source r)),
       (''parser'', PDict [(''id'', PStr (dr_parser_id r)), (''version'', PStr (dr_parser_version r))]),
       (''drift_state'', PStr (DriftState_value (dr_drift_state r))),
       (''observed_at'', observed),
       (''window'', PDict [(''start_time'', started), (''end_time'', ended),
          (''baseline_run_id'', case dr_baseline_run_id r of None \<Rightarrow> PNone | Some s \<Rightarrow> PStr s),
          (''sample_count'', PInt (int (dr_sample_count r)))]),
       (''signals'', p_floats (signals_to_dict (dr_signals r))),
       (''thresholds'', p_floats (thresholds_to_dict (dr_thresholds r))),
       (''drift_details'', p_strs (map drift_text (dr_drift_details r))),
       (''remediation_recommended'', PBool (dr_remediation_recommended r))]))))"

section \<open>Repair\<close>

fun mode_value :: "PromotionMode \<Rightarrow> string" where
  "mode_value MANUAL_APPROVAL = ''MANUAL_APPROVAL''"
| "mode_value AUTOMATIC_CONDITIONAL = ''AUTOMATIC_CONDITIONAL''"

fun decision_value :: "PromotionDecision \<Rightarrow> string" where
  "decision_value PROMOTED = ''PROMOTED''"
| "decision_value REJECTED = ''REJECTED''"
| "decision_value ESCALATED_FOR_APPROVAL = ''ESCALATED_FOR_APPROVAL''"

definition gates_to_dict :: "GateResults \<Rightarrow> pyval" where
  "gates_to_dict g = PDict [
     (''schema_validation'', PDict [(''passed'', PBool (schema_passed g)), (''details'', PStr (schema_details g))]),
     (''empirical_validation'', PDict [
        (''passed'', PBool (validation_passed g)),
        (''extraction_accuracy'', p_float (extraction_accuracy g)),
        (''semantic_accuracy'', p_float (semantic_accuracy g)),
        (''dps'', p_float (dps g)),
        (''raw_retention'', p_float (raw_retention g)),
        (''unknown_retention'', p_float (unknown_retention g))]),
     (''shadow_evaluation'', PDict [
        (''passed'', PBool (shadow_passed g)),
        (''shadow_state'', PStr (shadow_state g)),
        (''field_match_rate'', p_float (field_match_rate g)),
        (''dps_delta'', p_float (dps_delta g)),
        (''downstream_isolation_verified'', PBool (downstream_isolation_verified g))])]"

definition trigger_text :: "drift_detail option \<Rightarrow> string" where
  "trigger_text d = (case d of None \<Rightarrow> ''Drift detected'' | Some x \<Rightarrow> drift_text x)"

definition repair_to_dict :: "SelfHealingReport \<Rightarrow> pyval result" where
  "repair_to_dict r =
     res_bind (iso_ts (sh_detected_at r)) (\<lambda>detected.
     res_bind (iso_ts (sh_decided_at r)) (\<lambda>decided.
     Inr (PDict [
       (''schema_version'', PStr ''1.0''),
       (''source_id'', PStr (sh_source_id r)),
       (''incident_id'', PStr (sh_incident_id r)),
       (''trigger'', PDict [(''drift_state'', PStr (sh_drift_state r)), (''detected_at'', detected),
          (''summary'', PStr (trigger_text (sh_trigger_summary r)))]),
       (''active_parser'', PDict [(''id'', fst (sh_active_parser r)), (''version'', snd (sh_active_parser r))]),
       (''candidate_parser'', PDict [(''id'', fst (sh_candidate_parser r)), (''version'', snd (sh_candidate_parser r)),
          (''spec_hash'', PStr (sh_candidate_spec_hash r))]),
       (''gates'', gates_to_dict (sh_gates r)),
       (''promotion_policy'', PDict [
          (''mode'', PStr (mode_value (sh_promotion_mode r))),
          (''refusal_conditions_checked'', p_strs (sh_refusal_conditions_checked r)),
          (''refusal_reasons'', p_strs (map refusal_text (sh_refusal_reasons r)))]),
       (''decision'', PStr (decision_value (sh_decision r))),
       (''decided_at'', decided),
       (''applied_by'', PStr (sh_applied_by r))])))"

section \<open>Mapping\<close>

fun ReviewStatus_value :: "ReviewStatus \<Rightarrow> string" where
  "ReviewStatus_value AUTO_ACCEPTED = ''AUTO_ACCEPTED''"
| "ReviewStatus_value HUMAN_REVIEW = ''HUMAN_REVIEW''"
| "ReviewStatus_value ABSTAIN = ''ABSTAIN''"

definition p_opt :: "string option \<Rightarrow> pyval" where
  "p_opt x = (case x of None \<Rightarrow> PNone | Some s \<Rightarrow> PStr s)"

definition candidate_to_dict :: "MappingCandidate \<Rightarrow> pyval" where
  "candidate_to_dict c = PDict [
     (''raw_field'', PStr (mc_raw_field c)),
     (''canonical_path'', PStr (mc_canonical_path c)),
     (''mapping_score'', p_float (mc_mapping_score c)),
     (''evidence'', p_strs (map evidence_line (mc_evidence c))),
     (''review_status'', PStr (ReviewStatus_value (mc_review_status c))),
     (''is_critical'', PBool (mc_is_critical c)),
     (''hard_type_conflict'', PBool (mc_hard_type_conflict c)),
     (''suggested_transformation'', p_opt (mc_suggested_transformation c)),
     (''preserve_in_extensions'', PBool (mc_preserve_in_extensions c)),
     (''destination_path'', PStr (mc_destination_path c))]"

definition field_result_to_dict :: "FieldMappingResult \<Rightarrow> pyval" where
  "field_result_to_dict f = PDict [
     (''raw_field'', PStr (fm_raw_field f)),
     (''chosen_mapping'', candidate_to_dict (fm_chosen_mapping f)),
     (''top_candidates'', PList (map candidate_to_dict (fm_top_candidates f)))]"

definition summary_to_dict :: "MappingSummary \<Rightarrow> pyval" where
  "summary_to_dict s = PDict [
     (''total_fields'', PInt (int (ms_total_fields s))),
     (''auto_accepted_count'', PInt (int (ms_auto_accepted_count s))),
     (''human_review_count'', PInt (int (ms_human_review_count s))),
     (''abstained_count'', PInt (int (ms_abstained_count s))),
     (''critical_fields_mapped'', PInt (int (ms_critical_fields_mapped s)))]"

definition mapping_to_dict :: "SourceMappingReport \<Rightarrow> pyval" where
  "mapping_to_dict r = PDict [
     (''source_id'', p_opt (sm_source_id r)),
     (''event_family'', p_opt (sm_event_family r)),
     (''summary'', summary_to_dict (sm_summary r)),
     (''mappings'', PDict (map (\<lambda>(k, f). (k, field_result_to_dict f)) (sm_mappings r)))]"

end
