(* ===== verification/Contracts.thy ===== *)
theory Contracts
  imports JsonSchema Reports
begin

text \<open>
  The published contracts of the reports, \<open>packages/contracts/drift_report.schema.json\<close>,
  \<open>shadow_comparison.schema.json\<close> and \<open>self_healing_report.schema.json\<close>, and what the documents that
  the components write have to satisfy to conform to them.
\<close>

section \<open>The schemas\<close>

definition parser_schema :: schema where
  "parser_schema = J_Object [''id'', ''version''] [(''id'', J_Text), (''version'', J_Semver)]"

definition rates_schema :: schema where
  "rates_schema = J_Object
     [''parse_failure_rate'', ''unknown_field_ratio'', ''type_violation_rate'', ''key_set_distance'',
      ''distribution_divergence'']
     [(''parse_failure_rate'', J_Rate), (''unknown_field_ratio'', J_Rate), (''type_violation_rate'', J_Rate),
      (''key_set_distance'', J_Rate), (''distribution_divergence'', J_Rate), (''dps_regression'', J_Rate),
      (''enum_drift_score'', J_Rate), (''critical_mapping_drift'', J_Rate), (''event_family_drift'', J_Rate)]"

definition drift_window_schema :: schema where
  "drift_window_schema = J_Object [''start_time'', ''end_time'', ''sample_count'']
     [(''start_time'', J_DateTime), (''end_time'', J_DateTime),
      (''baseline_run_id'', J_Nullable (J_String 0)), (''sample_count'', J_Natural)]"

definition drift_report_schema :: schema where
  "drift_report_schema = J_Object
     [''schema_version'', ''source_id'', ''parser'', ''drift_state'', ''observed_at'', ''window'', ''signals'',
      ''thresholds'', ''drift_details'', ''remediation_recommended'']
     [(''schema_version'', J_Const (PStr ''1.0'')), (''source_id'', J_Text), (''parser'', parser_schema),
      (''drift_state'', J_Enum [''STABLE'', ''SUSPECTED'', ''DRIFTED'']), (''observed_at'', J_DateTime),
      (''window'', drift_window_schema), (''signals'', rates_schema), (''thresholds'', rates_schema),
      (''drift_details'', J_Array (J_String 0)), (''remediation_recommended'', J_Boolean)]"

definition metrics_schema :: schema where
  "metrics_schema = J_Object
     [''field_match_rate'', ''critical_semantic_divergence'', ''unknown_field_retention'', ''active_dps'',
      ''candidate_dps'', ''dps_delta'', ''active_latency_p95_ms'', ''candidate_latency_p95_ms'', ''latency_delta_pct'']
     [(''field_match_rate'', J_Rate), (''critical_semantic_divergence'', J_Rate),
      (''unknown_field_retention'', J_Rate), (''active_dps'', J_Rate), (''candidate_dps'', J_Rate),
      (''dps_delta'', J_Delta), (''active_latency_p95_ms'', J_Number (Some 0) None),
      (''candidate_latency_p95_ms'', J_Number (Some 0) None), (''latency_delta_pct'', J_Number None None)]"

definition divergence_schema :: schema where
  "divergence_schema = J_Object [''field'', ''match_rate'', ''divergence_type'']
     [(''field'', J_Text), (''match_rate'', J_Rate),
      (''divergence_type'', J_Enum [''VALUE_MISMATCH'', ''FIELD_MISSING_IN_CANDIDATE'',
         ''NEW_FIELD_IN_CANDIDATE'', ''TYPE_MISMATCH'']),
      (''example_mismatch'', J_Object [] [(''active'', J_Any), (''candidate'', J_Any)])]"

definition window_schema :: schema where
  "window_schema = J_Object [''start_time'', ''end_time'', ''sample_count'']
     [(''start_time'', J_DateTime), (''end_time'', J_DateTime), (''sample_count'', J_Natural)]"

definition shadow_comparison_schema :: schema where
  "shadow_comparison_schema = J_Object
     [''schema_version'', ''source_id'', ''active_parser'', ''candidate_parser'', ''shadow_state'', ''evaluated_at'',
      ''evaluation_window'', ''metrics'', ''field_divergences'', ''downstream_isolation_verified'',
      ''recommendation'', ''recommendation_reasons'']
     [(''schema_version'', J_Const (PStr ''1.0'')), (''source_id'', J_Text), (''active_parser'', parser_schema),
      (''candidate_parser'', parser_schema), (''shadow_state'', J_Enum [''PASSED'', ''FAILED'', ''SUSPECTED'']),
      (''evaluated_at'', J_DateTime), (''evaluation_window'', window_schema), (''metrics'', metrics_schema),
      (''field_divergences'', J_Array divergence_schema), (''downstream_isolation_verified'', J_Boolean),
      (''recommendation'', J_Enum [''READY_FOR_PROMOTION'', ''REJECT'', ''REQUIRE_HUMAN_REVIEW'']),
      (''recommendation_reasons'', J_Array (J_String 0))]"

definition gates_schema :: schema where
  "gates_schema = J_Object [''schema_validation'', ''empirical_validation'', ''shadow_evaluation'']
     [(''schema_validation'', J_Object [''passed'', ''details''] [(''passed'', J_Boolean), (''details'', J_String 0)]),
      (''empirical_validation'', J_Object
         [''passed'', ''extraction_accuracy'', ''semantic_accuracy'', ''dps'', ''raw_retention'', ''unknown_retention'']
         [(''passed'', J_Boolean), (''extraction_accuracy'', J_Rate), (''semantic_accuracy'', J_Rate),
          (''dps'', J_Rate), (''raw_retention'', J_Rate), (''unknown_retention'', J_Rate)]),
      (''shadow_evaluation'', J_Object
         [''passed'', ''shadow_state'', ''field_match_rate'', ''dps_delta'', ''downstream_isolation_verified'']
         [(''passed'', J_Boolean), (''shadow_state'', J_Enum [''PASSED'', ''FAILED'', ''SUSPECTED'']),
          (''field_match_rate'', J_Rate), (''dps_delta'', J_Delta),
          (''downstream_isolation_verified'', J_Boolean)])]"

definition trigger_schema :: schema where
  "trigger_schema = J_Object [''drift_state'', ''detected_at'', ''summary'']
     [(''drift_state'', J_Enum [''DRIFTED'', ''SUSPECTED'', ''MANUAL_TRIGGER'']),
      (''detected_at'', J_DateTime), (''summary'', J_String 0)]"

definition candidate_parser_schema :: schema where
  "candidate_parser_schema = J_Object [''id'', ''version'', ''spec_hash'']
     [(''id'', J_Text), (''version'', J_Semver), (''spec_hash'', J_Text)]"

definition promotion_schema :: schema where
  "promotion_schema = J_Object [''mode'', ''refusal_conditions_checked'', ''refusal_reasons'']
     [(''mode'', J_Enum [''MANUAL_APPROVAL'', ''AUTOMATIC_CONDITIONAL'']),
      (''refusal_conditions_checked'', J_Array (J_String 0)), (''refusal_reasons'', J_Array (J_String 0))]"

definition self_healing_schema :: schema where
  "self_healing_schema = J_Object
     [''schema_version'', ''source_id'', ''incident_id'', ''trigger'', ''active_parser'', ''candidate_parser'', ''gates'',
      ''promotion_policy'', ''decision'', ''decided_at'', ''applied_by'']
     [(''schema_version'', J_Const (PStr ''1.0'')), (''source_id'', J_Text), (''incident_id'', J_Text),
      (''trigger'', trigger_schema), (''active_parser'', parser_schema),
      (''candidate_parser'', candidate_parser_schema), (''gates'', gates_schema),
      (''promotion_policy'', promotion_schema),
      (''decision'', J_Enum [''PROMOTED'', ''REJECTED'', ''ESCALATED_FOR_APPROVAL'']),
      (''decided_at'', J_DateTime), (''applied_by'', J_Text)]"

section \<open>Parts of the documents\<close>

lemmas schema_simps = parser_schema_def rates_schema_def drift_window_schema_def metrics_schema_def
  divergence_schema_def window_schema_def gates_schema_def trigger_schema_def candidate_parser_schema_def
  promotion_schema_def

lemma parser_conforms:
  "conforms parser_schema (PDict [(''id'', i), (''version'', v)]) \<longleftrightarrow> nonempty_str i \<and> is_semver v"
  by (simp add: parser_schema_def)

lemma candidate_parser_conforms:
  "conforms candidate_parser_schema (PDict [(''id'', i), (''version'', v), (''spec_hash'', PStr h)])
     \<longleftrightarrow> nonempty_str i \<and> is_semver v \<and> h \<noteq> []"
  by (simp add: candidate_parser_schema_def)

lemma iso_ts_conforms: "iso_ts t = Inr ts \<Longrightarrow> conforms J_DateTime ts"
  unfolding iso_ts_def by (rule timestamp_conforms)

definition utc_ok :: "datetime \<Rightarrow> bool" where
  "utc_ok t \<longleftrightarrow> dt_in_range (dt_wall t - (case dt_offset t of None \<Rightarrow> 0 | Some z \<Rightarrow> z))"

lemma iso_ts_Inr: "(\<exists>ts. iso_ts t = Inr ts) \<longleftrightarrow> utc_ok t"
  by (auto simp: iso_ts_def timestamp_def astimezone_utc_def utc_ok_def Let_def result_simps split: option.splits)

text \<open>Rates: the signals and the thresholds of a drift report.\<close>

definition unit_rates :: "(string \<times> rat) list \<Rightarrow> bool" where
  "unit_rates d \<longleftrightarrow> (\<forall>(k, x)\<in>set d. 0 \<le> x \<and> x \<le> 1)"

lemma map_of_p_floats: "map_of (map (\<lambda>(k, x). (k, PFloat x)) d) k = map_option PFloat (map_of d k)"
  by (induction d) auto

lemma rates_conform:
  assumes "unit_rates d" "set (map fst d) \<subseteq> {''parse_failure_rate'', ''unknown_field_ratio'',
      ''type_violation_rate'', ''key_set_distance'', ''distribution_divergence'', ''dps_regression'',
      ''enum_drift_score'', ''critical_mapping_drift'', ''event_family_drift''}"
    and "{''parse_failure_rate'', ''unknown_field_ratio'', ''type_violation_rate'', ''key_set_distance'',
      ''distribution_divergence''} \<subseteq> set (map fst d)"
  shows "conforms rates_schema (p_floats d)"
proof -
  have "case map_of (map (\<lambda>(k, x). (k, PFloat x)) d) k of None \<Rightarrow> True | Some v \<Rightarrow> conforms J_Rate v" for k
    using assms(1) by (auto simp: unit_rates_def map_of_p_floats bounded_by_def dest!: map_of_SomeD split: option.split)
  moreover have "map fst (map (\<lambda>(k, x). (k, PFloat x)) d) = map fst d" by auto
  ultimately show ?thesis
    using assms(2,3) by (simp add: rates_schema_def p_floats_def list_all_iff subset_eq del: set_map map_map)
qed

text \<open>Field names: a comparison of events without empty keys reports no empty field.\<close>

definition named :: "(string \<times> 'v) list \<Rightarrow> bool" where
  "named d \<longleftrightarrow> [] \<notin> fst ` set d"

lemma named_update [simp]: "named (AList.update k v d) \<longleftrightarrow> k \<noteq> [] \<and> named d"
  by (auto simp: named_def dom_update)

lemma named_Nil [simp]: "named []"
  by (simp add: named_def)

lemma named_Cons [simp]: "named ((k, v) # d) \<longleftrightarrow> k \<noteq> [] \<and> named d"
  by (auto simp: named_def)

lemma named_dict_update: "named d \<Longrightarrow> named e \<Longrightarrow> named (dict_update d e)"
  unfolding dict_update_def by (induction e arbitrary: d) auto

lemma flat_key_named: "pre \<noteq> [] \<or> k \<noteq> [] \<Longrightarrow> flat_key pre k \<noteq> []"
  by (auto simp: flat_key_def)

lemma flatten_into_named: "named flat \<Longrightarrow> pre \<noteq> [] \<or> named d \<Longrightarrow> named (flatten_into pre flat d)"
proof (induction pre flat d rule: flatten_into.induct)
  case (2 pre flat k d r)
  have "flat_key pre k \<noteq> []" using 2(4) by (auto intro!: flat_key_named)
  then have "\<not> flat_skipped k \<Longrightarrow> named (flatten_into (flat_key pre k) [] d)" using 2(1) by simp
  with 2(2-4) show ?case by (auto simp: named_dict_update)
qed (auto simp: flat_key_named)

lemma flatten_event_named: "named ev \<Longrightarrow> named (flatten_event ev)"
  by (simp add: flatten_event_def flatten_into_named)

lemma add_example_tallies [simp]:
  "cg_total (add_example k ex st) = cg_total st" "cg_match (add_example k ex st) = cg_match st"
  by (simp_all add: add_example_def)

lemma compare_pair_named:
  assumes "named a" "named c" "named (cg_total st)"
  shows "named (cg_total (compare_pair st (a, c)))"
proof -
  have active: "named fs \<Longrightarrow> named (cg_total s) \<Longrightarrow> named (cg_total (foldl (compare_active_key cf) s fs))"
    for fs cf and s :: congruence
    by (induction fs arbitrary: s) (auto simp: compare_active_key_def Let_def split: option.splits)
  have new: "named fs \<Longrightarrow> named (cg_total s) \<Longrightarrow> named (cg_total (foldl (compare_new_key af) s fs))"
    for fs af and s :: congruence
    by (induction fs arbitrary: s) (auto simp: compare_new_key_def Let_def split: option.splits)
  show ?thesis
    unfolding compare_pair_def case_prod_conv Let_def
    using assms by (intro new active flatten_event_named)
qed

lemma compare_pairs_named:
  "\<forall>(a, c)\<in>set ps. named a \<and> named c \<Longrightarrow> named (cg_total st) \<Longrightarrow> named (cg_total (foldl compare_pair st ps))"
  by (induction ps arbitrary: st) (auto simp: compare_pair_named)

text \<open>No field matches more often than it is compared.\<close>

definition tallied :: "congruence \<Rightarrow> bool" where
  "tallied st \<longleftrightarrow> dict_ok (cg_total st)
     \<and> (\<forall>k. dict_get (cg_match st) k 0 \<le> dict_get (cg_total st) k 0)"

lemma add_example_tallied [simp]: "tallied (add_example k ex st) = tallied st"
  by (simp add: tallied_def)

lemma compare_active_key_tallied: "tallied st \<Longrightarrow> tallied (compare_active_key cf st p)"
  by (auto simp: compare_active_key_def tallied_def Let_def dict_get_update le_SucI
      split: prod.splits option.splits)

lemma compare_new_key_tallied: "tallied st \<Longrightarrow> tallied (compare_new_key af st p)"
  by (auto simp: compare_new_key_def tallied_def Let_def dict_get_update split: prod.splits)

lemma compare_pairs_tallied: "tallied st \<Longrightarrow> tallied (foldl compare_pair st ps)"
proof (induction ps arbitrary: st)
  case (Cons p ps)
  have active: "tallied s \<Longrightarrow> tallied (foldl (compare_active_key cf) s fs)" for s fs cf
    by (induction fs arbitrary: s) (auto simp: compare_active_key_tallied)
  have new: "tallied s \<Longrightarrow> tallied (foldl (compare_new_key af) s fs)" for s fs af
    by (induction fs arbitrary: s) (auto simp: compare_new_key_tallied)
  show ?case using Cons by (auto simp: compare_pair_def Let_def active new split: prod.splits)
qed simp

lemma divergences_wf:
  assumes "fd \<in> set (snd (evaluate_field_congruence as cs))"
    and "\<forall>(a, c)\<in>set (zip as cs). named a \<and> named c"
  shows "fd_field fd \<noteq> []" "0 \<le> fd_match_rate fd" "fd_match_rate fd \<le> 1"
proof -
  define st where "st = foldl compare_pair init_congruence (zip as cs)"
  obtain k n where kn: "(k, n) \<in> set (cg_total st)" and fd: "fd \<in> set (divergence_of st (k, n))"
    using assms(1) by (auto simp: evaluate_field_congruence_def Let_def st_def split: if_splits)
  have init: "named (cg_total init_congruence)" "tallied init_congruence"
    by (simp_all add: init_congruence_def tallied_def dict_ok_def dict_get_def)
  have "named (cg_total st)" unfolding st_def using assms(2) init(1) by (rule compare_pairs_named)
  with kn have "k \<noteq> []" by (force simp: named_def)
  moreover have "tallied st" unfolding st_def using init(2) by (rule compare_pairs_tallied)
  then have "dict_get (cg_match st) k 0 \<le> n"
    using kn by (auto simp: tallied_def dict_get_def dict_ok_def dest!: spec [of _ k])
  ultimately show "fd_field fd \<noteq> []" "0 \<le> fd_match_rate fd" "fd_match_rate fd \<le> 1"
    using fd ratio4_unit by (auto simp: divergence_of_def Let_def split: option.splits if_splits)
qed

lemma divergence_conforms:
  assumes "fd_field fd \<noteq> []" "0 \<le> fd_match_rate fd" "fd_match_rate fd \<le> 1"
  shows "conforms divergence_schema (divergence_to_dict fd)"
  using assms by (cases "fd_type fd") (simp_all add: divergence_schema_def divergence_to_dict_def bounded_by_def float_bounds)

section \<open>Shadow comparison\<close>

definition latencies_ok :: "rat list option \<Rightarrow> bool" where
  "latencies_ok l \<longleftrightarrow> (case l of None \<Rightarrow> True | Some xs \<Rightarrow> list_all (\<lambda>x. 0 \<le> x) xs)"

lemma p95_nonneg: "list_all (\<lambda>x. 0 \<le> x) xs \<Longrightarrow> 0 \<le> p95 xs"
proof (cases "xs = []")
  case False
  assume "list_all (\<lambda>x. 0 \<le> x) xs"
  then have "\<forall>x\<in>set (sort xs). 0 \<le> x" by (simp add: list_all_iff)
  moreover have "min n (length (sort xs) - 1) < length (sort xs)" for n using False by (cases xs) auto
  ultimately have "0 \<le> sort xs ! min n (length (sort xs) - 1)" for n using nth_mem by blast
  then show ?thesis using False by (simp add: p95_def Let_def)
qed (simp add: p95_def)

lemma latencies_nonneg:
  assumes "latencies_ok al" "latencies_ok cl"
  shows "0 \<le> sm_active_latency_p95_ms (fst (measure_streams order as cs al cl))"
    and "0 \<le> sm_candidate_latency_p95_ms (fst (measure_streams order as cs al cl))"
  using assms
  by (auto simp: measure_streams_def Let_def case_prod_unfold evaluate_latencies_def latencies_ok_def
      intro!: round4.nonneg p95_nonneg split: option.splits)

lemma metrics_conform:
  assumes "\<forall>x\<in>{sm_field_match_rate m, sm_critical_semantic_divergence m, sm_unknown_field_retention m,
             sm_active_dps m, sm_candidate_dps m}. 0 \<le> x \<and> x \<le> 1" "\<bar>sm_dps_delta m\<bar> \<le> 1"
    and "0 \<le> sm_active_latency_p95_ms m" "0 \<le> sm_candidate_latency_p95_ms m"
  shows "conforms metrics_schema (metrics_to_dict m)"
  using assms round4.abs_le_one [OF assms(2)]
  by (simp add: metrics_schema_def metrics_to_dict_def bounded_by_def float_bounds abs_le_iff)

lemma compare_streams_context:
  "sc_field_divergences (compare_streams order clock sid aid av cid cv as cs al cl isol st en ev)
     = snd (evaluate_field_congruence as cs)"
  "sc_source_id (compare_streams order clock sid aid av cid cv as cs al cl isol st en ev) = sid"
  "sc_active_parser_id (compare_streams order clock sid aid av cid cv as cs al cl isol st en ev) = aid"
  "sc_active_parser_version (compare_streams order clock sid aid av cid cv as cs al cl isol st en ev) = av"
  "sc_candidate_parser_id (compare_streams order clock sid aid av cid cv as cs al cl isol st en ev) = cid"
  "sc_candidate_parser_version (compare_streams order clock sid aid av cid cv as cs al cl isol st en ev) = cv"
  by (simp_all add: compare_streams_def measure_streams_def Let_def case_prod_unfold)

lemma shadow_state_conforms [simp]:
  "conforms (J_Enum [''PASSED'', ''FAILED'', ''SUSPECTED'']) (PStr (ShadowState_value s))"
  by (cases s) simp_all

lemma recommendation_conforms [simp]:
  "conforms (J_Enum [''READY_FOR_PROMOTION'', ''REJECT'', ''REQUIRE_HUMAN_REVIEW'']) (PStr (recommendation_value x))"
  by (cases x) simp_all

lemma shadow_conforms:
  assumes "conforms metrics_schema (metrics_to_dict (sc_metrics r))"
    and "\<forall>fd\<in>set (sc_field_divergences r). conforms divergence_schema (divergence_to_dict fd)"
    and "shadow_to_dict r = Inr doc"
  shows "conforms shadow_comparison_schema doc \<longleftrightarrow> sc_source_id r \<noteq> []
     \<and> nonempty_str (sc_active_parser_id r) \<and> is_semver (sc_active_parser_version r)
     \<and> nonempty_str (sc_candidate_parser_id r) \<and> is_semver (sc_candidate_parser_version r)"
proof -
  obtain evaluated started ended where ts: "iso_ts (sc_evaluated_at r) = Inr evaluated"
    "iso_ts (sc_start_time r) = Inr started" "iso_ts (sc_end_time r) = Inr ended"
    using assms(3) unfolding shadow_to_dict_def res_bind_Inr_iff by blast
  have w: "conforms window_schema (PDict [(''start_time'', started), (''end_time'', ended),
      (''sample_count'', PInt (int (sc_sample_count r)))])"
    using ts by (simp add: window_schema_def iso_ts_conforms)
  have d: "list_all (conforms divergence_schema) (map divergence_to_dict (sc_field_divergences r))"
    using assms(2) by (simp add: list_all_iff)
  show ?thesis
    using assms(3) unfolding shadow_to_dict_def ts res_bind.simps sum.inject shadow_comparison_schema_def
    by (elim subst)
      (simp add: parser_conforms w assms(1) iso_ts_conforms [OF ts(1)] d del: conforms.simps(4))
qed

lemma streams_conform:
  assumes "set crit_order = set CRITICAL_SECURITY_FIELDS" "\<forall>ev\<in>set as \<union> set cs. named ev"
    and "latencies_ok al" "latencies_ok cl"
    and "r = compare_streams crit_order clock sid aid av cid cv as cs al cl isol st en ev"
  shows "conforms metrics_schema (metrics_to_dict (sc_metrics r))"
    and "\<forall>fd\<in>set (sc_field_divergences r). conforms divergence_schema (divergence_to_dict fd)"
proof -
  have m: "sc_metrics r = fst (measure_streams crit_order as cs al cl)"
    by (simp add: assms(5) compare_streams_fields)
  note bounds = shadow_metrics_bounded [OF assms(1) arg_cong [where f = sc_metrics, OF assms(5)]]
  show "conforms metrics_schema (metrics_to_dict (sc_metrics r))"
    by (rule metrics_conform [OF bounds [THEN conjunct1] bounds [THEN conjunct2]])
      (simp_all add: m latencies_nonneg [OF assms(3,4)])
  have "\<forall>(a, c)\<in>set (zip as cs). named a \<and> named c"
    using assms(2) by (auto dest: set_zip_leftD set_zip_rightD)
  then show "\<forall>fd\<in>set (sc_field_divergences r). conforms divergence_schema (divergence_to_dict fd)"
    using divergences_wf by (auto simp: assms(5) compare_streams_context intro!: divergence_conforms)
qed

section \<open>Drift\<close>

lemma drift_state_conforms [simp]:
  "conforms (J_Enum [''STABLE'', ''SUSPECTED'', ''DRIFTED'']) (PStr (DriftState_value s))"
  by (cases s) simp_all

lemma signals_rates:
  assumes "signals_unit s"
    and "\<forall>x\<in>set_option (ds_dps_regression s) \<union> set_option (ds_enum_drift_score s)
         \<union> set_option (ds_critical_mapping_drift s) \<union> set_option (ds_event_family_drift s). 0 \<le> x \<and> x \<le> 1"
  shows "unit_rates (signals_to_dict s)"
  using assms
  by (auto simp: signals_unit_def unit_rates_def signals_to_dict_def Let_def opt_entry_def float_bounds split: option.splits)

lemma signals_conform:
  "unit_rates (signals_to_dict s) \<Longrightarrow> conforms rates_schema (p_floats (signals_to_dict s))"
  by (rule rates_conform) (auto simp: signals_to_dict_def Let_def opt_entry_def split: option.splits)

lemma thresholds_conform:
  "conforms rates_schema (p_floats (thresholds_to_dict t)) \<longleftrightarrow> unit_rates (thresholds_to_dict t)"
proof
  assume c: "conforms rates_schema (p_floats (thresholds_to_dict t))"
  have "distinct (map fst (thresholds_to_dict t))"
    by (auto simp: thresholds_to_dict_def opt_entry_def split: option.splits)
  then have "map_of (map (\<lambda>(k, x). (k, PFloat x)) (thresholds_to_dict t)) k = Some (PFloat x)" if "(k, x) \<in> set (thresholds_to_dict t)" for k x
    using that by (simp add: map_of_p_floats)
  note entry = this
  have "0 \<le> x \<and> x \<le> 1" if "(k, x) \<in> set (thresholds_to_dict t)" for k x
  proof -
    have "k \<in> {''parse_failure_rate'', ''unknown_field_ratio'', ''type_violation_rate'', ''key_set_distance'',
        ''distribution_divergence'', ''dps_regression'', ''enum_drift_score'', ''critical_mapping_drift'', ''event_family_drift''}"
      using that by (auto simp: thresholds_to_dict_def opt_entry_def split: option.splits)
    then have "conforms J_Rate (PFloat x)"
      using c entry [OF that] by (auto simp: rates_schema_def p_floats_def)
    then show ?thesis by (simp add: bounded_by_def)
  qed
  then show "unit_rates (thresholds_to_dict t)" by (auto simp: unit_rates_def)
next
  assume "unit_rates (thresholds_to_dict t)"
  then show "conforms rates_schema (p_floats (thresholds_to_dict t))"
    by (rule rates_conform) (auto simp: thresholds_to_dict_def opt_entry_def split: option.splits)
qed

lemma drift_conforms:
  assumes "conforms rates_schema (p_floats (signals_to_dict (dr_signals r)))" "drift_to_dict r = Inr doc"
  shows "conforms drift_report_schema doc \<longleftrightarrow> unit_rates (thresholds_to_dict (dr_thresholds r))
     \<and> dr_source r \<noteq> [] \<and> dr_parser_id r \<noteq> [] \<and> is_semver (PStr (dr_parser_version r))"
proof -
  obtain observed started ended where ts: "iso_ts (dr_observed_at r) = Inr observed"
    "iso_ts (dr_start_time r) = Inr started" "iso_ts (dr_end_time r) = Inr ended"
    using assms(2) unfolding drift_to_dict_def res_bind_Inr_iff by blast
  have w: "conforms drift_window_schema (PDict [(''start_time'', started), (''end_time'', ended),
      (''baseline_run_id'', case dr_baseline_run_id r of None \<Rightarrow> PNone | Some s \<Rightarrow> PStr s),
      (''sample_count'', PInt (int (dr_sample_count r)))])"
    using ts by (simp add: drift_window_schema_def iso_ts_conforms split: option.split)
  show ?thesis
    using assms(2) unfolding drift_to_dict_def ts res_bind.simps sum.inject drift_report_schema_def
    by (elim subst) (simp add: parser_conforms w assms(1) thresholds_conform
        iso_ts_conforms [OF ts(1)] conj_ac del: conforms.simps(4))
qed

lemma drift_parameters:
  "dr_source (compare_profiles enum clock t b cur sid pid ver run obs) = sid"
  "dr_parser_id (compare_profiles enum clock t b cur sid pid ver run obs) = pid"
  "dr_parser_version (compare_profiles enum clock t b cur sid pid ver run obs) = ver"
  "dr_thresholds (compare_profiles enum clock t b cur sid pid ver run obs) = t"
  "dr_signals (compare_profiles enum clock t b cur sid pid ver run obs) = profile_signals enum b cur"
  by (simp_all add: compare_profiles_def Let_def)

lemma profile_report_rates:
  assumes "dict_ok (sp_fields b)" "dict_ok (sp_fields cur)" "sp_corrupted_records cur \<le> sp_total_records cur"
  shows "unit_rates (signals_to_dict (profile_signals enum b cur))"
  by (rule signals_rates [OF profile_signals_unit [OF assms]]) (simp add: profile_signals_def Let_def)

lemma map_sum_Inr: "map_sum id f v = Inr x \<longleftrightarrow> (\<exists>y. v = Inr y \<and> f y = x)"
  by (cases v) auto

lemma dps_regression_unit:
  "0 \<le> fst (check_dps_regression be ce) \<and> fst (check_dps_regression be ce) \<le> 1"
proof -
  let ?e = "length (filter security_event be)"
  let ?b = "if 0 < ?e then fl (of_nat (length (filter (\<lambda>e. security_event e \<and> attributed e) be)) / of_nat ?e) else 1"
  let ?c = "if 0 < ?e then fl (of_nat (length (filter (\<lambda>e. security_event e \<and> attributed e) ce)) / of_nat ?e) else 1"
  have "?b \<le> 1" using ieee.ratio_unit [OF detections_le] by auto
  moreover have "0 \<le> ?c" by (simp add: float_bounds)
  ultimately have "fl (?b - ?c) \<le> 1" by (intro ieee.le_one) linarith
  then have "0 \<le> max 0 (fl (?b - ?c)) \<and> max 0 (fl (?b - ?c)) \<le> 1" by simp
  then have "0 \<le> py_round (max 0 (fl (?b - ?c))) 4 \<and> py_round (max 0 (fl (?b - ?c))) 4 \<le> 1"
    using round4.unit_interval by blast
  then show ?thesis by (simp only: check_dps_regression_def eval_blocked_eq Let_def case_prod_conv fst_conv)
qed

lemma flagged_unit:
  assumes "list_all2 R xs flags"
  shows "0 \<le> py_round (fl (of_nat (length (filter P flags)) / of_nat (length xs))) 4
    \<and> py_round (fl (of_nat (length (filter P flags)) / of_nat (length xs))) 4 \<le> 1"
  using ratio4_unit [OF length_filter_le, of P flags] list_all2_lengthD [OF assms] by simp

lemma semantic_rates:
  assumes "detect_semantic_drift enum clock t s bs cs be ce sid pid ver run obs = Inr r"
  shows "conforms rates_schema (p_floats (signals_to_dict (dr_signals r)))"
proof -
  from assms obtain crit enm fam where
    crit: "map_sum id fst (check_critical_mapping_drift bs cs) = Inr crit" and
    enm: "map_sum id fst (check_enum_behavior_drift bs cs ce) = Inr enm" and
    fam: "map_sum id fst (check_event_family_drift enum t be ce) = Inr fam" and
    s: "dr_signals r = semantic_signals (fst (check_dps_regression be ce)) enm crit fam"
    by (rule detect_result)
  let ?unit = "\<lambda>x :: rat. 0 \<le> x \<and> x \<le> 1"
  have "?unit crit"
    using crit ratio4_unit [OF mapping_mismatches_le]
    by (auto simp: check_critical_mapping_drift_def Let_def result_simps map_sum_Inr split: if_splits)
  moreover have "?unit enm"
    using enm by (auto simp: check_enum_behavior_drift_def Let_def result_simps map_sum_Inr flagged_unit
      split: if_splits)
  moreover have "?unit fam"
    using fam tvd_over_unit round4.unit_interval
    by (auto simp: check_event_family_drift_def Let_def result_simps map_sum_Inr split: if_splits)
  moreover have "?unit (fst (check_dps_regression be ce))"
    by (rule dps_regression_unit)
  ultimately show ?thesis
    unfolding s by (intro signals_conform signals_rates) (auto simp: semantic_signals_def signals_unit_def)
qed

lemma semantic_parameters:
  assumes "detect_semantic_drift enum clock t s bs cs be ce sid pid ver run obs = Inr r"
  shows "dr_source r = sid" "dr_parser_id r = pid" "dr_parser_version r = ver"
    "dr_thresholds r = combined_thresholds t s"
  using assms by (auto simp: detect_semantic_drift_def Let_def result_simps case_prod_unfold)

section \<open>Repair\<close>

definition gates_wf :: "GateResults \<Rightarrow> bool" where
  "gates_wf g \<longleftrightarrow> (\<forall>x\<in>{extraction_accuracy g, semantic_accuracy g, dps g, raw_retention g, unknown_retention g,
        field_match_rate g}. 0 \<le> x \<and> x \<le> 1)
     \<and> \<bar>dps_delta g\<bar> \<le> 1 \<and> shadow_state g \<in> range ShadowState_value"

lemma gates_conform: "gates_wf g \<Longrightarrow> conforms gates_schema (gates_to_dict g)"
  using round4.abs_le_one [of "dps_delta g"]
  by (auto simp: gates_schema_def gates_to_dict_def gates_wf_def bounded_by_def float_bounds abs_le_iff
      simp del: conforms.simps(4))

lemma empirical_unit:
  assumes "validation_gate c ok samples = Inr (v, ext, sem, d, raw, unk)"
  shows "\<forall>x\<in>{ext, sem, d, raw, unk}. 0 \<le> x \<and> x \<le> 1"
  using assms
  by (auto simp: validation_gate_def run_empirical_validation_def Let_def result_simps
      split: if_splits pyval.splits)

lemma shadow_gate_wf:
  assumes "set (env_crit_order env) = set CRITICAL_SECURITY_FIELDS"
    and "shadow_gate env sid a c ok samples = Inr (sh, st, rate, delta, isol)"
  shows "0 \<le> rate \<and> rate \<le> 1 \<and> \<bar>delta\<bar> \<le> 1 \<and> st \<in> range ShadowState_value"
proof (cases "ok \<and> samples \<noteq> []")
  case True
  then obtain r where run: "snd (execute_dual (env_json_loads env) (env_crit_order env) (env_perf env) (env_start env)
      (env_end env) (map PStr samples) a c sid None True) = Inr r"
    and g: "rate = sm_field_match_rate (sc_metrics r)" "delta = sm_dps_delta (sc_metrics r)"
      "st = ShadowState_value (sc_shadow_state r)"
    using assms(2) by (auto simp: shadow_gate_def result_simps)
  from run obtain bus where "execute_dual (env_json_loads env) (env_crit_order env) (env_perf env) (env_start env)
      (env_end env) (map PStr samples) a c sid None True = (bus, Inr r)" by (metis prod.collapse)
  from execute_dual_report [OF this] obtain evs cs ident isol' al cl aid av where
    r: "r = compare_streams (env_crit_order env) (env_end env) sid aid av (fst ident) (snd ident) evs
      (map (tag_shadow ident) cs) (Some al) (Some cl) isol' (Some (env_start env)) (Some (env_end env))
      (Some (env_end env))" by blast
  show ?thesis
    using shadow_metrics_bounded [OF assms(1) arg_cong [where f = sc_metrics, OF r]] by (simp add: g)
next
  case False
  then have "rate = 0 \<and> delta = - 1 \<and> st = ShadowState_value SH_FAILED"
    using assms(2) by (auto simp: shadow_gate_def)
  then show ?thesis using rangeI [of ShadowState_value SH_FAILED] by simp
qed

lemma collected_gates_wf:
  assumes "set (env_crit_order env) = set CRITICAL_SECURITY_FIELDS"
    and "collect_gates env sid a c samples = Inr g"
  shows "gates_wf g"
  using assms(2)
proof (rule collect_gates_Inr)
  assume v: "validation_gate c (schema_passed g) samples = Inr (validation_passed g, extraction_accuracy g,
       semantic_accuracy g, dps g, raw_retention g, unknown_retention g)"
    and s: "shadow_gate env sid a c (schema_passed g) samples = Inr (shadow_passed g, shadow_state g,
       field_match_rate g, dps_delta g, downstream_isolation_verified g)"
  from empirical_unit [OF v] shadow_gate_wf [OF assms(1) s] show ?thesis by (simp add: gates_wf_def)
qed

lemma trigger_state_conforms:
  "conforms (J_Enum [''DRIFTED'', ''SUSPECTED'', ''MANUAL_TRIGGER'']) (PStr (DriftState_value s)) \<longleftrightarrow> s \<noteq> STABLE"
  by (cases s) simp_all

lemma mode_conforms [simp]:
  "conforms (J_Enum [''MANUAL_APPROVAL'', ''AUTOMATIC_CONDITIONAL'']) (PStr (mode_value m))"
  by (cases m) simp_all

lemma decision_conforms [simp]:
  "conforms (J_Enum [''PROMOTED'', ''REJECTED'', ''ESCALATED_FOR_APPROVAL'']) (PStr (decision_value d))"
  by (cases d) simp_all

lemma repair_conforms:
  assumes "gates_wf (sh_gates r)" "sh_drift_state r = DriftState_value s" "sh_incident_id r \<noteq> []"
    and "sh_candidate_spec_hash r \<noteq> []" "sh_applied_by r \<noteq> []" "repair_to_dict r = Inr doc"
  shows "conforms self_healing_schema doc \<longleftrightarrow> sh_source_id r \<noteq> [] \<and> s \<noteq> STABLE
     \<and> nonempty_str (fst (sh_active_parser r)) \<and> is_semver (snd (sh_active_parser r))
     \<and> nonempty_str (fst (sh_candidate_parser r)) \<and> is_semver (snd (sh_candidate_parser r))"
proof -
  obtain detected decided where ts: "iso_ts (sh_detected_at r) = Inr detected"
    "iso_ts (sh_decided_at r) = Inr decided"
    using assms(6) unfolding repair_to_dict_def res_bind_Inr_iff by blast
  have t: "conforms trigger_schema (PDict [(''drift_state'', PStr (DriftState_value s)), (''detected_at'', detected),
      (''summary'', PStr (trigger_text (sh_trigger_summary r)))]) \<longleftrightarrow> s \<noteq> STABLE"
    using ts by (simp add: trigger_schema_def trigger_state_conforms iso_ts_conforms del: conforms.simps(4))
  have p: "conforms promotion_schema (PDict [(''mode'', PStr (mode_value (sh_promotion_mode r))),
      (''refusal_conditions_checked'', p_strs (sh_refusal_conditions_checked r)),
      (''refusal_reasons'', PList (map (PStr \<circ> refusal_text) (sh_refusal_reasons r)))])"
    by (simp add: promotion_schema_def list_all_iff del: conforms.simps(4))
  show ?thesis
    using assms(6) unfolding repair_to_dict_def ts res_bind.simps sum.inject self_healing_schema_def assms(2)
    by (elim subst) (auto simp: parser_conforms candidate_parser_conforms t p gates_conform [OF assms(1)]
        assms(3-5) iso_ts_conforms [OF ts(2)] simp del: conforms.simps(4))
qed

lemma apply_decision_names: "apply_decision env e sid c cand d = Inr (e', applied) \<Longrightarrow> applied \<noteq> []"
  by (auto simp: apply_decision_def result_simps split: PromotionDecision.splits)

lemma repair_to_dict_total: "utc_ok (sh_detected_at r) \<Longrightarrow> utc_ok (sh_decided_at r) \<Longrightarrow> \<exists>doc. repair_to_dict r = Inr doc"
  unfolding repair_to_dict_def iso_ts_Inr [symmetric] by (auto simp: result_simps)

lemma drift_to_dict_total:
  "utc_ok (dr_observed_at r) \<Longrightarrow> utc_ok (dr_start_time r) \<Longrightarrow> utc_ok (dr_end_time r) \<Longrightarrow> \<exists>doc. drift_to_dict r = Inr doc"
  unfolding drift_to_dict_def iso_ts_Inr [symmetric] by (auto simp: result_simps)

lemma shadow_to_dict_total:
  "utc_ok (sc_evaluated_at r) \<Longrightarrow> utc_ok (sc_start_time r) \<Longrightarrow> utc_ok (sc_end_time r) \<Longrightarrow> \<exists>doc. shadow_to_dict r = Inr doc"
  unfolding shadow_to_dict_def iso_ts_Inr [symmetric] by (auto simp: result_simps)

section \<open>Properties\<close>

text \<open>
  C11. The shadow comparison writes documents of its published contract: for events without empty
  field names and latencies that are not negative, \<open>to_dict\<close> of every report the comparator returns
  succeeds when its times are representable in UTC, and the document conforms to
  \<open>shadow_comparison.schema.json\<close> exactly when the source and both parsers have a name and both
  versions are semantic versions. The comparator checks none of these.
\<close>

theorem shadow_report_conforms:
  assumes "set crit_order = set CRITICAL_SECURITY_FIELDS" "\<forall>ev\<in>set as \<union> set cs. named ev"
    and "latencies_ok al" "latencies_ok cl"
    and "r = compare_streams crit_order clock sid aid av cid cv as cs al cl isol st en ev"
    and "utc_ok (sc_evaluated_at r)" "utc_ok (sc_start_time r)" "utc_ok (sc_end_time r)"
  shows "\<exists>doc. shadow_to_dict r = Inr doc
    \<and> (conforms shadow_comparison_schema doc \<longleftrightarrow> sid \<noteq> [] \<and> nonempty_str aid \<and> is_semver av
         \<and> nonempty_str cid \<and> is_semver cv)"
proof -
  obtain doc where doc: "shadow_to_dict r = Inr doc" using shadow_to_dict_total [OF assms(6-8)] ..
  show ?thesis
    using shadow_conforms [OF streams_conform [OF assms(1-5)] doc] doc
    by (auto simp: assms(5) compare_streams_context)
qed

text \<open>
  C12. The structural detector writes documents of its published contract: for profiles with distinct
  field names and no more corrupted records than records, \<open>to_dict\<close> of the report succeeds when its time
  is representable in UTC, every signal in it is a rate between 0 and 1, and the document conforms to
  \<open>drift_report.schema.json\<close> exactly when the configured thresholds are rates too, source and
  parser have a name and the version is a semantic version.
\<close>

theorem drift_report_conforms:
  assumes "dict_ok (sp_fields baseline)" "dict_ok (sp_fields current)"
    and "sp_corrupted_records current \<le> sp_total_records current"
    and "utc_ok (case obs of None \<Rightarrow> clock | Some d \<Rightarrow> d)"
    and "r = compare_profiles enum clock t baseline current sid pid ver run obs"
  shows "(\<forall>(name, x)\<in>set (signals_to_dict (dr_signals r)). 0 \<le> x \<and> x \<le> 1)
    \<and> (\<exists>doc. drift_to_dict r = Inr doc
    \<and> (conforms drift_report_schema doc \<longleftrightarrow> (\<forall>(name, x)\<in>set (thresholds_to_dict t). 0 \<le> x \<and> x \<le> 1)
         \<and> sid \<noteq> [] \<and> pid \<noteq> [] \<and> is_semver (PStr ver)))"
proof -
  have "utc_ok (dr_observed_at r)" "utc_ok (dr_start_time r)" "utc_ok (dr_end_time r)"
    using assms(4) by (simp_all add: assms(5) compare_profiles_def Let_def)
  from drift_to_dict_total [OF this] obtain doc where doc: "drift_to_dict r = Inr doc" ..
  have rates: "unit_rates (signals_to_dict (dr_signals r))"
    using profile_report_rates [OF assms(1-3)] by (simp add: assms(5) drift_parameters)
  from drift_conforms [OF signals_conform [OF this] doc] have "conforms drift_report_schema doc \<longleftrightarrow> unit_rates (thresholds_to_dict t)
      \<and> sid \<noteq> [] \<and> pid \<noteq> [] \<and> is_semver (PStr ver)"
    by (simp add: assms(5) drift_parameters)
  then show ?thesis using doc rates unfolding unit_rates_def by blast
qed

text \<open>
  So does the semantic detector whenever it returns, with the four semantic signals and thresholds
  in the document.
\<close>

theorem semantic_report_conforms:
  assumes "detect_semantic_drift enum clock t s bs cs be ce sid pid ver run obs = Inr r"
    and "unit_rates (thresholds_to_dict (combined_thresholds t s))" "drift_to_dict r = Inr doc"
  shows "conforms drift_report_schema doc \<longleftrightarrow> sid \<noteq> [] \<and> pid \<noteq> [] \<and> is_semver (PStr ver)"
  using drift_conforms [OF semantic_rates [OF assms(1)] assms(3)] assms(2)
  by (simp add: semantic_parameters [OF assms(1)])

text \<open>
  C10. A repair that returns is recorded in a document, and the document conforms to
  \<open>self_healing_report.schema.json\<close> exactly when the source and both parsers have a name, both
  versions are semantic versions, and the drift report that triggered the repair was not STABLE:
  the workflow repairs on a STABLE report as well, and its record is then outside the contract.
\<close>

theorem repair_report_conforms:
  assumes "handle_repair env dm e sid drift a c samples pm inc = Inr (e', r)"
    and "set (env_crit_order env) = set CRITICAL_SECURITY_FIELDS" "env_new_incident env \<noteq> []"
    and "utc_ok (dr_observed_at drift)" "utc_ok (env_decided env)"
  shows "\<exists>doc active cand. repair_to_dict r = Inr doc
    \<and> parser_identity a (sid @ ''.active'') ''1.0.0'' = Inr active
    \<and> parser_identity c (sid @ ''.candidate'') ''1.1.0'' = Inr cand
    \<and> (conforms self_healing_schema doc \<longleftrightarrow> sid \<noteq> [] \<and> dr_drift_state drift \<noteq> STABLE
         \<and> nonempty_str (fst active) \<and> is_semver (snd active)
         \<and> nonempty_str (fst cand) \<and> is_semver (snd cand))"
  using assms(1)
proof (rule handle_repair_report)
  fix active cand gates d rs ch applied
  assume ids: "parser_identity a (sid @ ''.active'') ''1.0.0'' = Inr active"
      "parser_identity c (sid @ ''.candidate'') ''1.1.0'' = Inr cand"
    and gates: "collect_gates env sid a c samples = Inr gates"
    and "apply_decision env e sid c cand d = Inr (e', applied)"
    and r: "r = repair_report env sid inc drift pm dm active cand c gates d rs ch applied"
  then have applied: "applied \<noteq> []" by (blast dest: apply_decision_names)
  have "utc_ok (sh_detected_at r)" "utc_ok (sh_decided_at r)"
    using assms(4,5) by (simp_all add: r repair_report_def)
  from repair_to_dict_total [OF this] obtain doc where doc: "repair_to_dict r = Inr doc" ..
  have "conforms self_healing_schema doc \<longleftrightarrow> sh_source_id r \<noteq> [] \<and> dr_drift_state drift \<noteq> STABLE
     \<and> nonempty_str (fst (sh_active_parser r)) \<and> is_semver (snd (sh_active_parser r))
     \<and> nonempty_str (fst (sh_candidate_parser r)) \<and> is_semver (snd (sh_candidate_parser r))"
    by (rule repair_conforms [OF _ _ _ _ _ doc])
      (use applied assms(3) collected_gates_wf [OF assms(2) gates] in
        \<open>simp_all add: r repair_report_def spec_hash_def split: option.split\<close>)
  then show ?thesis using doc ids by (simp add: r repair_report_def)
qed

section \<open>Witnesses\<close>

definition epoch :: datetime where
  "epoch = \<lparr>dt_wall = 0, dt_offset = Some 0\<rparr>"

lemma early_ok [simp]: "0 \<le> i \<Longrightarrow> i \<le> 6 \<Longrightarrow> dt_in_range i"
  by (simp add: dt_in_range_def days_before_year_def)

lemma epoch_ok [simp]: "utc_ok epoch"
  by (simp add: epoch_def utc_ok_def)

lemma sample_semver: "is_semver (PStr ''1.0.0'')" "\<not> is_semver (PStr ''1'')" "is_semver (PStr ''2.0.0'')"
  by code_simp+

lemma sample_rates: "unit_rates (thresholds_to_dict default_thresholds)"
  "unit_rates (thresholds_to_dict (combined_thresholds default_semantic_thresholds default_thresholds))"
  by (simp_all add: unit_rates_def thresholds_to_dict_def opt_entry_def default_thresholds_def
      combined_thresholds_def default_semantic_thresholds_def float_bounds)

definition shadow_doc :: "string \<Rightarrow> pyval result" where
  "shadow_doc ver = shadow_to_dict (compare_streams CRITICAL_SECURITY_FIELDS epoch ''s'' (PStr ''a'') (PStr ''1.0.0'')
     (PStr ''c'') (PStr ver) [sample_event] [sample_event] None None True None None None)"

theorem shadow_report_conforms_witness:
  "\<exists>doc doc'. shadow_doc ''1.0.0'' = Inr doc \<and> conforms shadow_comparison_schema doc
     \<and> shadow_doc ''1'' = Inr doc' \<and> \<not> conforms shadow_comparison_schema doc'"
proof -
  have ev: "\<forall>ev\<in>set [sample_event] \<union> set [sample_event]. named ev" by (simp add: sample_event_def)
  have lat: "latencies_ok None" by (simp add: latencies_ok_def)
  have t: "utc_ok (sc_evaluated_at r)" "utc_ok (sc_start_time r)" "utc_ok (sc_end_time r)"
    if "r = compare_streams CRITICAL_SECURITY_FIELDS epoch sid aid av cid cv as cs al cl isol None None None"
    for r sid aid av cid cv as cs al cl isol
    by (simp_all add: that compare_streams_def Let_def case_prod_unfold)
  show ?thesis
    using shadow_report_conforms [OF refl ev lat lat refl t [OF refl], of "''s''" "PStr ''a''" "PStr ''1.0.0''"
        "PStr ''c''" "PStr ''1.0.0''" True]
      shadow_report_conforms [OF refl ev lat lat refl t [OF refl], of "''s''" "PStr ''a''" "PStr ''1.0.0''"
        "PStr ''c''" "PStr ''1''" True] sample_semver
    by (auto simp: shadow_doc_def)
qed

theorem drift_report_conforms_witness:
  "\<exists>doc. drift_to_dict (compare_profiles (\<lambda>xs. xs) epoch default_thresholds sample_profile sample_profile
      ''s'' ''p'' ''1.0.0'' None None) = Inr doc \<and> conforms drift_report_schema doc"
proof -
  have n: "sp_corrupted_records sample_profile \<le> sp_total_records sample_profile" by (simp add: sample_profile_def)
  have t: "utc_ok (case None of None \<Rightarrow> epoch | Some d \<Rightarrow> d)" by simp
  show ?thesis
    using drift_report_conforms [OF sample_profile_ok(1) sample_profile_ok(1) n t refl,
        of "\<lambda>xs. xs" default_thresholds "''s''" "''p''" "''1.0.0''" None] sample_semver(1) sample_rates(1)
    unfolding unit_rates_def by auto
qed

theorem semantic_report_conforms_witness:
  "\<exists>r doc. detect_semantic_drift (\<lambda>xs. xs) \<lparr>dt_wall = 0, dt_offset = None\<rparr> default_semantic_thresholds
     default_thresholds base_spec inverted_spec [blocked_event] [blocked_event] ''s'' ''p'' ''1'' None None = Inr r
   \<and> drift_to_dict r = Inr doc \<and> \<not> conforms drift_report_schema doc"
proof -
  obtain r where r: "detect_semantic_drift (\<lambda>xs. xs) \<lparr>dt_wall = 0, dt_offset = None\<rparr> default_semantic_thresholds
     default_thresholds base_spec inverted_spec [blocked_event] [blocked_event] ''s'' ''p'' ''1'' None None = Inr r"
    using moved_detected by (metis old.sum.exhaust)
  have "utc_ok \<lparr>dt_wall = 0, dt_offset = None\<rparr>" by (simp add: utc_ok_def)
  then have "utc_ok (dr_observed_at r)" "utc_ok (dr_start_time r)" "utc_ok (dr_end_time r)"
    using r by (auto simp: detect_semantic_drift_def Let_def result_simps case_prod_unfold)
  from drift_to_dict_total [OF this] obtain doc where doc: "drift_to_dict r = Inr doc" ..
  show ?thesis
    using semantic_report_conforms [OF r sample_rates(2) doc] r doc sample_semver(2) by auto
qed

text \<open>The repair of the sample source, once on a drifted and once on a stable report.\<close>

theorem repair_report_conforms_witness:
  "\<exists>e' r doc. demo_repair = Inr (e', r) \<and> repair_to_dict r = Inr doc \<and> conforms self_healing_schema doc"
proof -
  obtain e' r where run: "handle_repair demo_env AUTOMATIC_CONDITIONAL init_engine ''s'' demo_drift log_spec log_spec
      log_lines None None = Inr (e', r)"
    using demo_repair_promoted unfolding demo_repair_def by blast
  have env: "set (env_crit_order demo_env) = set CRITICAL_SECURITY_FIELDS" "env_new_incident demo_env \<noteq> []"
    "utc_ok (dr_observed_at demo_drift)" "utc_ok (env_decided demo_env)" "dr_drift_state demo_drift \<noteq> STABLE"
    by (simp_all add: demo_env_def demo_drift_def utc_ok_def)
  show ?thesis
    using repair_report_conforms [OF run env(1-4)] run env(5) demo_candidate(4,7) sample_semver(3) unfolding demo_repair_def by auto
qed

end
