(* ===== verification/Golden.thy ===== *)
theory Golden
  imports Validator
begin

text \<open>
  \<open>ValidationEngine.validate_golden_source\<close> of \<open>ml/validation/validator.py\<close>. A golden directory is what
  the method sees of it: its name, whether it is a directory, and the texts of its files, already
  decoded. Entries of another type than \<open>validate_event\<close> declares for its parameters are outside the
  model; a text that is not JSON is a \<open>ValueError\<close>, of which \<open>JSONDecodeError\<close> is a subclass.
\<close>

record golden_dir =
  gd_name :: string
  gd_is_dir :: bool
  gd_file :: "string \<Rightarrow> string option"

definition GOLDEN_FILES :: "string list" where
  "GOLDEN_FILES = [''metadata.json'', ''raw/events.raw'', ''expected/events.json'', ''parser/parser_spec.json'']"

definition read_json :: "(string \<Rightarrow> pyval option) \<Rightarrow> string \<Rightarrow> pyval result" where
  "read_json json_loads s = (case json_loads s of None \<Rightarrow> Inl (ValueError ''not JSON'') | Some v \<Rightarrow> Inr v)"

fun texts_of :: "pyval list \<Rightarrow> string list option" where
  "texts_of [] = Some []"
| "texts_of (PStr s # vs) = map_option (Cons s) (texts_of vs)"
| "texts_of _ = None"

definition typed_validation ::
    "(string \<Rightarrow> pyval option) \<Rightarrow> datetime \<Rightarrow> string \<Rightarrow> pyval \<Rightarrow> pyval \<Rightarrow> pyval \<Rightarrow> pyval \<Rightarrow> pyval \<Rightarrow> pyval
     \<Rightarrow> ValidationReport result" where
  "typed_validation json_loads now raw spec extracted critical unknown min_accuracy source_id =
     (case (spec, extracted, critical, unknown, source_id) of
        (PDict sp, PDict ex, PList cs, PDict un, PStr sid) \<Rightarrow>
          (case (texts_of cs, num_of min_accuracy) of
             (Some ks, Some mn) \<Rightarrow> validate_event json_loads now raw sp ex ks un mn sid
           | _ \<Rightarrow> Inl OutsideModel)
      | _ \<Rightarrow> Inl OutsideModel)"

definition validate_golden_source ::
    "(string \<Rightarrow> pyval option) \<Rightarrow> datetime \<Rightarrow> golden_dir \<Rightarrow> ValidationReport result" where
  "validate_golden_source json_loads now g =
     (if \<not> gd_is_dir g then Inl FileNotFoundError
      else case map (gd_file g) GOLDEN_FILES of
        [Some meta_text, Some raw_text, Some expected_text, Some spec_text] \<Rightarrow>
          res_bind (read_json json_loads meta_text) (\<lambda>metadata.
          res_bind (read_json json_loads expected_text) (\<lambda>expected.
          res_bind (read_json json_loads spec_text) (\<lambda>spec.
          res_bind (py_get expected ''extracted'' (PDict [])) (\<lambda>extracted.
          res_bind (py_get expected ''critical_fields'' PNone) (\<lambda>listed.
          res_bind (if truthy listed then Inr listed else py_get metadata ''critical_fields'' (PList [])) (\<lambda>critical.
          res_bind (py_get expected ''unknown_fields'' (PDict [])) (\<lambda>unknown.
          res_bind (py_get metadata ''min_extraction_accuracy'' (PFloat (fl (95 / 100)))) (\<lambda>min_accuracy.
          res_bind (py_get metadata ''source_id'' (PStr (gd_name g))) (\<lambda>source_id.
            typed_validation json_loads now (str_strip raw_text) spec extracted critical unknown min_accuracy
              source_id)))))))))
      | _ \<Rightarrow> Inl FileNotFoundError)"

section \<open>Lemmas\<close>

lemma typed_validation_Inr:
  assumes "typed_validation json_loads now raw spec extracted critical unknown min_accuracy source_id = Inr r"
  obtains sp ex cs ks un mn sid where "spec = PDict sp" "extracted = PDict ex" "critical = PList cs"
    "texts_of cs = Some ks" "unknown = PDict un" "num_of min_accuracy = Some mn" "source_id = PStr sid"
    "validate_event json_loads now raw sp ex ks un mn sid = Inr r"
  using assms by (auto simp: typed_validation_def split: pyval.splits option.splits)

lemma read_json_Inr: "read_json json_loads s = Inr v \<longleftrightarrow> json_loads s = Some v"
  by (auto simp: read_json_def split: option.splits)

lemma py_get_Inr: "py_get v k d = Inr w \<longleftrightarrow> (\<exists>e. v = PDict e \<and> w = dict_get e k d)"
  by (cases v) auto

text \<open>The annotated shape of the documents of a golden directory, with the fields a run reads.\<close>

definition golden_inputs ::
    "(string \<Rightarrow> pyval option) \<Rightarrow> golden_dir \<Rightarrow> string \<Rightarrow> dict \<Rightarrow> dict \<Rightarrow> string list \<Rightarrow> dict \<Rightarrow> rat \<Rightarrow> string \<Rightarrow> bool" where
  "golden_inputs json_loads g raw sp ex ks un mn sid \<longleftrightarrow>
     (\<exists>m r e s metadata expected cs. map (gd_file g) GOLDEN_FILES = [Some m, Some r, Some e, Some s]
        \<and> raw = str_strip r \<and> json_loads m = Some (PDict metadata)
        \<and> json_loads e = Some (PDict expected) \<and> json_loads s = Some (PDict sp)
        \<and> dict_get expected ''extracted'' (PDict []) = PDict ex
        \<and> (if truthy (dict_get expected ''critical_fields'' PNone) then dict_get expected ''critical_fields'' PNone
            else dict_get metadata ''critical_fields'' (PList [])) = PList cs \<and> texts_of cs = Some ks
        \<and> dict_get expected ''unknown_fields'' (PDict []) = PDict un
        \<and> num_of (dict_get metadata ''min_extraction_accuracy'' (PFloat (fl (95 / 100)))) = Some mn
        \<and> dict_get metadata ''source_id'' (PStr (gd_name g)) = PStr sid)"

lemma validate_golden_Inr:
  assumes "validate_golden_source json_loads now g = Inr res"
  obtains raw sp ex ks un mn sid where "gd_is_dir g" "golden_inputs json_loads g raw sp ex ks un mn sid"
    "validate_event json_loads now raw sp ex ks un mn sid = Inr res"
proof -
  obtain m r e s where dir: "gd_is_dir g"
    and files: "map (gd_file g) GOLDEN_FILES = [Some m, Some r, Some e, Some s]"
    using assms by (auto simp: validate_golden_source_def GOLDEN_FILES_def split: if_splits option.splits)
  from assms obtain metadata expected spec extracted listed critical unknown mv source_id where
    json: "read_json json_loads m = Inr metadata" "read_json json_loads e = Inr expected"
      "read_json json_loads s = Inr spec" and
    get: "py_get expected ''extracted'' (PDict []) = Inr extracted"
      "py_get expected ''critical_fields'' PNone = Inr listed"
      "(if truthy listed then Inr listed else py_get metadata ''critical_fields'' (PList [])) = Inr critical"
      "py_get expected ''unknown_fields'' (PDict []) = Inr unknown"
      "py_get metadata ''min_extraction_accuracy'' (PFloat (fl (95 / 100))) = Inr mv"
      "py_get metadata ''source_id'' (PStr (gd_name g)) = Inr source_id" and
    run: "typed_validation json_loads now (str_strip r) spec extracted critical unknown mv source_id = Inr res"
    unfolding validate_golden_source_def files using dir by (auto simp: res_bind_Inr_iff)
  from run show thesis
  proof (rule typed_validation_Inr)
    fix sp ex cs ks un mn sid
    assume t: "spec = PDict sp" "extracted = PDict ex" "critical = PList cs" "texts_of cs = Some ks"
      "unknown = PDict un" "num_of mv = Some mn" "source_id = PStr sid"
      and v: "validate_event json_loads now (str_strip r) sp ex ks un mn sid = Inr res"
    have "golden_inputs json_loads g (str_strip r) sp ex ks un mn sid"
      unfolding golden_inputs_def files using json get t
      by (auto simp: read_json_Inr py_get_Inr split: if_splits)
    with dir v show thesis using that by blast
  qed
qed

lemma golden_files_present:
  "golden_inputs json_loads g raw sp ex ks un mn sid \<Longrightarrow> \<forall>f\<in>set GOLDEN_FILES. gd_file g f \<noteq> None"
  by (auto simp: golden_inputs_def GOLDEN_FILES_def)

lemma passed_expects_critical:
  assumes "validate_event json_loads now raw sp ex ks un mn sid = Inr res" "vr_passed res" "k \<in> set ks"
  shows "dict_get ex k PNone \<noteq> PNone"
proof -
  obtain mapped unmapped pid pv where r: "res = measure mapped unmapped ex ks un mn now (PStr sid) pid pv"
    using validate_event_Inr [OF assms(1)] .
  have "list_all (critical_ok mapped ex) ks"
    using assms(2) measure_fields(1) [of mapped unmapped ex ks un mn now "PStr sid" pid pv] by (simp add: r)
  with assms(3) show ?thesis by (auto simp: list_all_iff critical_ok_def Let_def)
qed

section \<open>Properties\<close>

text \<open>
  A golden directory is validated exactly when it exists with its four files, their documents have
  the annotated shape and the validation of the stripped raw event against them returns; a missing
  directory or file is a \<open>FileNotFoundError\<close>.
\<close>

theorem golden_runs_validation:
  "(validate_golden_source json_loads now g = Inr res \<longleftrightarrow> gd_is_dir g
      \<and> (\<exists>raw sp ex ks un mn sid. golden_inputs json_loads g raw sp ex ks un mn sid
            \<and> validate_event json_loads now raw sp ex ks un mn sid = Inr res))
   \<and> (\<not> gd_is_dir g \<or> (\<exists>f\<in>set GOLDEN_FILES. gd_file g f = None) \<longrightarrow>
        validate_golden_source json_loads now g = Inl FileNotFoundError)"
proof (intro conjI)
  show "validate_golden_source json_loads now g = Inr res \<longleftrightarrow> gd_is_dir g
      \<and> (\<exists>raw sp ex ks un mn sid. golden_inputs json_loads g raw sp ex ks un mn sid
            \<and> validate_event json_loads now raw sp ex ks un mn sid = Inr res)" (is "?L \<longleftrightarrow> ?R")
  proof
    assume ?L then show ?R by (rule validate_golden_Inr) blast
  next
    assume ?R then show ?L
      by (auto simp: golden_inputs_def validate_golden_source_def read_json_def typed_validation_def
          split: if_splits)
  qed
  show "\<not> gd_is_dir g \<or> (\<exists>f\<in>set GOLDEN_FILES. gd_file g f = None) \<longrightarrow>
      validate_golden_source json_loads now g = Inl FileNotFoundError"
    by (auto simp: validate_golden_source_def GOLDEN_FILES_def split: option.splits)
qed

text \<open>
  C26. From a golden directory to a passport: when its validation returns, at an aware completion
  time and with a non-blank run number, the evidence is accepted by the passport builder for every
  non-blank identity, the passport is certified exactly when the validation passed, with the
  measured scores, and a validation that passed has a non-null expected value for every critical
  field the directory names.
\<close>

theorem golden_certification:
  assumes "validate_golden_source json_loads now g = Inr res"
    and "dt_aware now" "astimezone_utc local now = Inr u" "str_strip run \<noteq> []"
    and "\<forall>v\<in>{psid, pid, ver}. \<exists>s. v = PStr s \<and> str_strip s \<noteq> []"
  shows "\<exists>raw sp ex ks un mn sid p. golden_inputs json_loads g raw sp ex ks un mn sid
    \<and> (vr_passed res \<longrightarrow> (\<forall>k\<in>set ks. dict_get ex k PNone \<noteq> PNone))
    \<and> build_passport local psid pid ver (Some (to_evidence res run None ''STABLE'')) = Inr p
    \<and> (member (member p ''certification'') ''status'' = PStr ''CERTIFIED'' \<longleftrightarrow> vr_passed res)
    \<and> (vr_passed res \<longrightarrow> (\<forall>(n, x)\<in>set (vr_metrics res). member (member p ''scores'') n = PFloat x))"
  using assms(1)
proof (rule validate_golden_Inr)
  fix raw sp ex ks un mn sid
  assume g: "golden_inputs json_loads g raw sp ex ks un mn sid"
    and v: "validate_event json_loads now raw sp ex ks un mn sid = Inr res"
  have "vr_passed res \<longrightarrow> (\<forall>k\<in>set ks. dict_get ex k PNone \<noteq> PNone)" using passed_expects_critical [OF v] by blast
  with g validation_certifiable [OF v assms(2-5)] show ?thesis by blast
qed

section \<open>Witnesses\<close>

definition sample_dir :: golden_dir where
  "sample_dir = \<lparr>gd_name = ''fw'', gd_is_dir = True, gd_file = map_of [(''metadata.json'', ''{}''),
     (''raw/events.raw'', '' {1} ''), (''expected/events.json'', ''{2}''), (''parser/parser_spec.json'', ''{3}'')]\<rparr>"

definition sample_json :: "string \<Rightarrow> pyval option" where
  "sample_json s = (if s = ''{}'' then Some (PDict []) else if s = ''{3}'' then Some (PDict golden_spec)
     else if s = ''{2}'' then Some (PDict [
       (''extracted'', PDict [(''event.action'', PStr ''deny''), (''src.ip'', PStr ''10.0.0.1''), (''src.port'', PInt 443)]),
       (''critical_fields'', PList [PStr ''event.action'', PStr ''src.port'']),
       (''unknown_fields'', PDict [(''x'', PStr ''7'')])])
     else golden_json s)"

lemma sample_dir_passes:
  "case validate_golden_source sample_json golden_now sample_dir of Inl e \<Rightarrow> False | Inr res \<Rightarrow> vr_passed res"
  by code_simp

theorem golden_certification_witness:
  "\<exists>res p. validate_golden_source sample_json golden_now sample_dir = Inr res
     \<and> build_passport (\<lambda>_. 0) (PStr ''fw'') (PStr ''fw'') (PStr ''2.0.0'') (Some (to_evidence res ''run'' None ''STABLE'')) = Inr p
     \<and> member (member p ''certification'') ''status'' = PStr ''CERTIFIED''"
proof -
  obtain res where r: "validate_golden_source sample_json golden_now sample_dir = Inr res" "vr_passed res"
    using sample_dir_passes by (auto split: sum.splits)
  have t: "dt_aware golden_now" "astimezone_utc (\<lambda>_. 0) golden_now = Inr golden_now"
    "str_strip ''run'' \<noteq> []" "str_strip ''fw'' \<noteq> []" "str_strip ''2.0.0'' \<noteq> []"
    by code_simp+
  then have "\<forall>v\<in>{PStr ''fw'', PStr ''fw'', PStr ''2.0.0''}. \<exists>s. v = PStr s \<and> str_strip s \<noteq> []" by simp
  from golden_certification [OF r(1) t(1-3) this] r show ?thesis by blast
qed

theorem golden_runs_validation_witness:
  "validate_golden_source sample_json golden_now (sample_dir\<lparr>gd_is_dir := False\<rparr>) = Inl FileNotFoundError"
  using golden_runs_validation [of sample_json golden_now "sample_dir\<lparr>gd_is_dir := False\<rparr>"] by simp

end
