(* ===== verification/Rehearsal.thy ===== *)
theory Rehearsal
  imports Golden
begin

text \<open>
  The rehearsal, \<open>tools/demo/rehearse.py\<close>: the golden directories a manifest names are validated,
  and each must lead to a certified passport with measured scores. The manifest is the decoded
  document, \<open>dirs\<close> the directory a fixture path leads to, \<open>now k\<close> the completion time of the \<open>k\<close>-th
  validation, and \<open>uuid\<close> the run number that a report would make up, which is never used here.
\<close>

definition source_outcome :: "ValidationReport \<Rightarrow> pyval \<Rightarrow> pyval" where
  "source_outcome report passport = PDict [
     (''source_id'', vr_source_id report),
     (''parser'', member passport ''parser''),
     (''certification'', member (member passport ''certification'') ''status''),
     (''scores'', member passport ''scores''),
     (''drift_state'', member (member passport ''drift'') ''state'')]"

definition measured_assurance :: "pyval \<Rightarrow> bool" where
  "measured_assurance passport \<longleftrightarrow>
     member (member passport ''certification'') ''status'' = PStr ''CERTIFIED''
     \<and> (case member passport ''scores'' of
          PDict scores \<Rightarrow> \<not> list_ex (\<lambda>(_, v). py_eq v NOT_YET_MEASURED) scores
        | _ \<Rightarrow> False)"

definition run_id_of :: "ValidationReport \<Rightarrow> string" where
  "run_id_of report = ''demo-'' @ py_str (vr_source_id report) @ ''-'' @ py_str (vr_parser_version report)"

definition assure_report :: "(int \<Rightarrow> int) \<Rightarrow> string \<Rightarrow> ValidationReport \<Rightarrow> pyval result" where
  "assure_report local uuid report =
     res_bind (build_passport local (vr_source_id report) (vr_parser_id report) (vr_parser_version report)
         (Some (to_evidence report uuid (Some (run_id_of report)) ''STABLE''))) (\<lambda>passport.
       if measured_assurance passport then Inr (source_outcome report passport)
       else Inl (RuntimeError ''rehearsal did not obtain measured assurance''))"

definition rehearse_source ::
    "(string \<Rightarrow> pyval option) \<Rightarrow> (nat \<Rightarrow> datetime) \<Rightarrow> (int \<Rightarrow> int) \<Rightarrow> string \<Rightarrow> (string \<Rightarrow> golden_dir)
     \<Rightarrow> nat \<times> pyval \<Rightarrow> pyval result" where
  "rehearse_source json_loads now local uuid dirs entry = (case entry of (k, item) \<Rightarrow>
     res_bind (py_index item ''fixture'') (\<lambda>fixture.
     case fixture of
       PStr path \<Rightarrow>
         res_bind (validate_golden_source json_loads (now k) (dirs path)) (\<lambda>report.
         res_bind (py_index item ''expected_source_id'') (\<lambda>expected.
           if \<not> py_eq (vr_source_id report) expected \<or> \<not> vr_passed report
           then Inl (RuntimeError (''rehearsal validation failed for '' @ path))
           else assure_report local uuid report))
     | _ \<Rightarrow> Inl TypeError))"

definition run_rehearsal ::
    "(string \<Rightarrow> pyval option) \<Rightarrow> (nat \<Rightarrow> datetime) \<Rightarrow> (int \<Rightarrow> int) \<Rightarrow> string \<Rightarrow> (string \<Rightarrow> golden_dir)
     \<Rightarrow> pyval \<Rightarrow> pyval result" where
  "run_rehearsal json_loads now local uuid dirs manifest =
     res_bind (py_index manifest ''dashboard'') (\<lambda>dashboard.
     res_bind (py_index dashboard ''included'') (\<lambda>included.
     if truthy included then Inl (ValueError ''Stage 21 does not include a frontend dashboard'')
     else
       res_bind (py_index manifest ''sources'') (\<lambda>sources.
       res_bind (py_iter sources) (\<lambda>items.
       res_bind (res_map (rehearse_source json_loads now local uuid dirs) (enumerate 0 items)) (\<lambda>outcomes.
       res_bind (py_index manifest ''schema_version'') (\<lambda>version.
         Inr (PDict [(''schema_version'', version), (''sources'', PList outcomes),
                     (''frontend'', PStr ''NOT_IMPLEMENTED'')])))))))"

section \<open>Lemmas\<close>

text \<open>The evidence of a run with a given number, and the passport it leads to.\<close>

lemma evidence_run: "run \<noteq> [] \<Longrightarrow> to_evidence r uuid (Some run) state = to_evidence r run None state"
  by (simp add: to_evidence_def)

lemma strip_keeps: "\<not> p c \<Longrightarrow> rstrip_by p (lstrip_by p (c # s)) \<noteq> []"
  by (auto simp: rstrip_by_def lstrip_by_def)

lemma run_id_text: "str_strip (run_id_of r) \<noteq> []" "run_id_of r \<noteq> []"
proof -
  have "\<not> is_space (CHR ''d'')" by code_simp
  from strip_keeps [where p = is_space, OF this] show "str_strip (run_id_of r) \<noteq> []" by (simp add: str_strip_def run_id_of_def)
qed (simp add: run_id_of_def)

lemma res_map_lookup:
  assumes "distinct (map fst d)"
  shows "res_map (\<lambda>n. case map_of d n of None \<Rightarrow> Inl (KeyError n) | Some v \<Rightarrow> Inr (n, v)) (map fst d) = Inr d"
  unfolding res_map_Inr_iff list.rel_map
  using assms by (intro list.rel_refl_strong) (auto simp: map_of_eq_Some_iff)

definition identified :: "ValidationReport \<Rightarrow> bool" where
  "identified r \<longleftrightarrow> (\<forall>v\<in>{vr_source_id r, vr_parser_id r, vr_parser_version r}. \<exists>s. v = PStr s \<and> str_strip s \<noteq> [])"

definition measured_outcome :: "ValidationReport \<Rightarrow> pyval" where
  "measured_outcome r = PDict [
     (''source_id'', vr_source_id r),
     (''parser'', PDict [(''id'', vr_parser_id r), (''version'', vr_parser_version r)]),
     (''certification'', PStr ''CERTIFIED''),
     (''scores'', PDict (map (\<lambda>(k, x). (k, PFloat x)) (vr_metrics r))),
     (''drift_state'', PStr ''STABLE'')]"

lemma assured:
  assumes "validate_event json_loads now raw sp ex ks un mn sid = Inr r" "vr_passed r"
    and "dt_aware now" "astimezone_utc local now = Inr u" "identified r"
  shows "assure_report local uuid r = Inr (measured_outcome r)"
proof -
  let ?ev = "to_evidence r (run_id_of r) None ''STABLE''"
  let ?d = "map (\<lambda>(k, x). (k, PFloat x)) (vr_metrics r)"
  note fin = finished_validation [OF assms(1)]
  have ev: "to_evidence r uuid (Some (run_id_of r)) ''STABLE'' = ?ev"
    using run_id_text(2) by (simp add: to_evidence_def)
  have keys: "map fst ?d = METRIC_NAMES" using fin(1) by (simp add: comp_def case_prod_unfold)
  then have "distinct (map fst ?d)" by (simp add: METRIC_NAMES_def)
  from res_map_lookup [OF this]
  have scores: "res_map (\<lambda>n. case map_of ?d n of None \<Rightarrow> Inl (KeyError n) | Some v \<Rightarrow> Inr (n, v)) METRIC_NAMES = Inr ?d"
    unfolding keys .
  have "evidence_complete ?ev" by (rule evidence_of_validation [OF assms(1,3) run_id_text(1)])
  then have valid: "validate_evidence ?ev = Inr ()" by (simp add: validate_evidence_ok)
  have fields: "ve_metrics ?ev = ?d" "ve_passed ?ev" "ve_completed_at ?ev = now" "ve_drift_observed_at ?ev = Some now"
    "ve_drift_state ?ev = Some ''STABLE''"
    using assms(2) fin(3) by (simp_all add: to_evidence_def)
  obtain ts where ts: "timestamp local now = Inr ts" using assms(4) by (simp add: timestamp_def)
  obtain p where p: "build_passport local (vr_source_id r) (vr_parser_id r) (vr_parser_version r) (Some ?ev) = Inr p"
    and parts: "member p ''parser'' = PDict [(''id'', vr_parser_id r), (''version'', vr_parser_version r)]"
      "member (member p ''certification'') ''status'' = PStr ''CERTIFIED''" "member p ''scores'' = PDict ?d"
      "member (member p ''drift'') ''state'' = PStr ''STABLE''"
    using assms(5) valid
    by (auto simp: build_passport_def required_text_def identified_def certified_def fields ts scores
        member_def dict_get_def simp del: map_of_map)
  have "measured_assurance p"
    by (auto simp: measured_assurance_def parts NOT_YET_MEASURED_def list_ex_iff)
  then show ?thesis
    by (simp add: assure_report_def ev p source_outcome_def measured_outcome_def parts)
qed

lemma assured_identified:
  assumes "assure_report local uuid r = Inr res" "vr_passed r"
  shows "identified r"
  using assms
  by (auto simp: assure_report_def build_passport_def result_simps required_text_ok identified_def)

text \<open>What an entry of the manifest must lead to, and the outcome it is reported with.\<close>

definition reported ::
    "(string \<Rightarrow> pyval option) \<Rightarrow> (nat \<Rightarrow> datetime) \<Rightarrow> (string \<Rightarrow> golden_dir) \<Rightarrow> nat \<times> pyval \<Rightarrow> pyval \<Rightarrow> bool" where
  "reported json_loads now dirs entry res \<longleftrightarrow> (\<exists>path expected r.
       py_index (snd entry) ''fixture'' = Inr (PStr path)
     \<and> validate_golden_source json_loads (now (fst entry)) (dirs path) = Inr r
     \<and> py_index (snd entry) ''expected_source_id'' = Inr expected \<and> py_eq (vr_source_id r) expected
     \<and> vr_passed r \<and> identified r \<and> res = measured_outcome r)"

lemma rehearse_source_reported:
  assumes "dt_aware (now (fst entry))" "astimezone_utc local (now (fst entry)) = Inr u"
  shows "rehearse_source json_loads now local uuid dirs entry = Inr res \<longleftrightarrow> reported json_loads now dirs entry res"
proof
  assume run: "rehearse_source json_loads now local uuid dirs entry = Inr res"
  then obtain path where path: "py_index (snd entry) ''fixture'' = Inr (PStr path)"
    unfolding rehearse_source_def case_prod_unfold res_bind_Inr_iff by (fastforce split: pyval.splits)
  with run obtain r expected where v: "validate_golden_source json_loads (now (fst entry)) (dirs path) = Inr r"
    and idx: "py_index (snd entry) ''expected_source_id'' = Inr expected"
    and ok: "py_eq (vr_source_id r) expected" "vr_passed r" and a: "assure_report local uuid r = Inr res"
    by (auto simp: rehearse_source_def case_prod_unfold res_bind_Inr_iff split: if_splits)
  from a ok(2) have i: "identified r" by (rule assured_identified)
  from v obtain raw sp ex ks un mn sid where
    "validate_event json_loads (now (fst entry)) raw sp ex ks un mn sid = Inr r" by (rule validate_golden_Inr)
  from assured [OF this ok(2) assms i] a have "res = measured_outcome r" by simp
  with v path idx ok i show "reported json_loads now dirs entry res" by (auto simp: reported_def)
next
  assume "reported json_loads now dirs entry res"
  then obtain path expected r where v: "validate_golden_source json_loads (now (fst entry)) (dirs path) = Inr r"
    and idx: "py_index (snd entry) ''fixture'' = Inr (PStr path)"
      "py_index (snd entry) ''expected_source_id'' = Inr expected"
    and ok: "py_eq (vr_source_id r) expected" "vr_passed r" "identified r" "res = measured_outcome r"
    by (auto simp: reported_def)
  from v obtain raw sp ex ks un mn sid where
    "validate_event json_loads (now (fst entry)) raw sp ex ks un mn sid = Inr r" by (rule validate_golden_Inr)
  from assured [OF this ok(2) assms ok(3)] show "rehearse_source json_loads now local uuid dirs entry = Inr res"
    using v idx ok by (simp add: rehearse_source_def case_prod_unfold)
qed

section \<open>Properties\<close>

text \<open>
  C25. The rehearsal reports measured results only, and all of them: with clocks that are aware and
  representable in UTC it returns exactly for a manifest without a dashboard every entry of which
  names a golden directory whose validation passes under the expected, non-blank identity; the
  document then lists, in order, the certified status and the measured scores of each. The check
  for missing measured assurance never fires.
\<close>

theorem rehearsal_is_measured:
  assumes "\<forall>k. dt_aware (now k) \<and> (\<exists>u. astimezone_utc local (now k) = Inr u)"
  shows "run_rehearsal json_loads now local uuid dirs manifest = Inr doc \<longleftrightarrow>
    (\<exists>dashboard included sources items outcomes version.
        py_index manifest ''dashboard'' = Inr dashboard \<and> py_index dashboard ''included'' = Inr included
      \<and> \<not> truthy included \<and> py_index manifest ''sources'' = Inr sources \<and> py_iter sources = Inr items
      \<and> list_all2 (reported json_loads now dirs) (enumerate 0 items) outcomes
      \<and> py_index manifest ''schema_version'' = Inr version
      \<and> doc = PDict [(''schema_version'', version), (''sources'', PList outcomes),
                      (''frontend'', PStr ''NOT_IMPLEMENTED'')])"
proof -
  have "rehearse_source json_loads now local uuid dirs entry = Inr res \<longleftrightarrow> reported json_loads now dirs entry res"
    for entry res using rehearse_source_reported assms by blast
  then have "res_map (rehearse_source json_loads now local uuid dirs) es = Inr outs
      \<longleftrightarrow> list_all2 (reported json_loads now dirs) es outs" for es outs
    by (simp add: res_map_Inr_iff)
  then show ?thesis
    by (auto simp: run_rehearsal_def res_bind_Inr_iff)
qed

section \<open>Witnesses\<close>

definition sample_manifest :: pyval where
  "sample_manifest = PDict [(''schema_version'', PStr ''1.0''),
     (''sources'', PList [PDict [(''fixture'', PStr ''golden/fw''), (''expected_source_id'', PStr ''fw'')]]),
     (''dashboard'', PDict [(''included'', PBool False)])]"

lemma sample_dir_report:
  "case validate_golden_source sample_json golden_now sample_dir of Inl e \<Rightarrow> False | Inr r \<Rightarrow>
     vr_source_id r = PStr ''fw'' \<and> vr_parser_id r = PStr ''fw'' \<and> vr_parser_version r = PStr ''2.0.0''"
  by code_simp

theorem rehearsal_is_measured_witness:
  "\<exists>doc. run_rehearsal sample_json (\<lambda>_. golden_now) (\<lambda>_. 0) ''u'' (\<lambda>_. sample_dir) sample_manifest = Inr doc"
proof -
  obtain r where r: "validate_golden_source sample_json golden_now sample_dir = Inr r" "vr_passed r"
    "vr_source_id r = PStr ''fw''" "vr_parser_id r = PStr ''fw''" "vr_parser_version r = PStr ''2.0.0''"
    using sample_dir_passes sample_dir_report by (auto split: sum.splits)
  have s: "str_strip ''fw'' \<noteq> []" "str_strip ''2.0.0'' \<noteq> []" by code_simp+
  have t: "\<forall>k. dt_aware ((\<lambda>_. golden_now) (k :: nat)) \<and> (\<exists>u. astimezone_utc (\<lambda>_. 0) ((\<lambda>_. golden_now) k) = Inr u)"
  proof -
    have "dt_aware golden_now" "astimezone_utc (\<lambda>_. 0) golden_now = Inr golden_now" by code_simp+
    then show ?thesis by auto
  qed
  have "reported sample_json (\<lambda>_. golden_now) (\<lambda>_. sample_dir)
      (0, PDict [(''fixture'', PStr ''golden/fw''), (''expected_source_id'', PStr ''fw'')]) (measured_outcome r)"
    using r s by (auto simp: reported_def identified_def)
  then show ?thesis
    unfolding rehearsal_is_measured [OF t] by (auto simp: sample_manifest_def list_all2_Cons1)
qed

end
