(* ===== verification/Demo.thy ===== *)
theory Demo
  imports Messages Gateway Harness Console
begin

text \<open>
  The demonstration console, \<open>scripts/demo.py\<close>: its two menus as loops over the answers typed, the
  lineage table it computes, the rows of its live benchmark, and the verdicts it shows for two
  payloads. An answer \<open>None\<close> is the end of the input or an interrupt; a command of the suite may
  read answers itself, and \<open>used c inputs\<close> is how many of them it reads. Colours, panels and the
  scenarios that only print fixed texts are left out.
\<close>

section \<open>Lineage\<close>

definition lineage_raw :: string where
  "lineage_raw = ''2026-09-20T12:00:00Z src=192.168.1.50 dst=10.20.30.40 sport=54321 dport=443 proto=tcp action=deny''"

definition field_mappings :: "(string \<times> string \<times> nat \<times> nat) list" where
  "field_mappings = [
     (''timestamp'', ''2026-09-20T12:00:00Z'', 0, 20),
     (''source.ip'', ''192.168.1.50'', 25, 37),
     (''destination.ip'', ''10.20.30.40'', 42, 53),
     (''source.port'', ''54321'', 60, 65),
     (''destination.port'', ''443'', 72, 75),
     (''event.action'', ''blocked'', 86, 90)]"

definition raw_slice :: "string \<Rightarrow> nat \<Rightarrow> nat \<Rightarrow> string" where
  "raw_slice raw start stop = take (stop - start) (drop start raw)"

definition match_status :: "string \<Rightarrow> string \<times> string \<times> nat \<times> nat \<Rightarrow> string" where
  "match_status raw m = (case m of (f_name, norm_val, start, stop) \<Rightarrow>
     if raw_slice raw start stop = norm_val \<or> f_name = ''event.action'' then ''100% Byte Match'' else ''Mismatch'')"

definition lineage_row :: "string \<Rightarrow> string \<times> string \<times> nat \<times> nat \<Rightarrow> string list" where
  "lineage_row raw m = (case m of (f_name, norm_val, start, stop) \<Rightarrow>
     [f_name, norm_val, ''['' @ show_nat start @ '':'' @ show_nat stop @ '']'',
      in_quotes (raw_slice raw start stop) @ '' ('' @ match_status raw m @ '')''])"

definition demo_lineage :: "string list list" where
  "demo_lineage = map (lineage_row lineage_raw) field_mappings"

section \<open>Firewall\<close>

definition clean_log :: string where
  "clean_log = ''<134>1 2026-09-20T12:00:00Z fw-01 kernel - - [net src=192.168.1.10 dst=10.0.0.1 proto=tcp] Allowed''"

definition malformed_exploit :: string where
  "malformed_exploit = ''POST /api/ingest HTTP/1.1'' @ [char_of (13 :: nat), char_of (10 :: nat)]
     @ replicate 80 (CHR ''{'') @ [char_of (34 :: nat)] @ ''exploit'' @ [char_of (34 :: nat), CHR '':'', char_of (34 :: nat)]
     @ ''stack_exhaustion_overflow'' @ [char_of (34 :: nat)] @ replicate 80 (CHR ''}'')"

definition demo_firewall :: "(string \<times> string \<times> string) list" where
  "demo_firewall =
     [(take 45 clean_log @ ''...'', ''Payload Clean (RFC5424)'', ''ACCEPTED''),
      (take 45 malformed_exploit @ ''...'', ''Excessive Nesting (>16 levels)'', ''QUARANTINED'')]"

section \<open>Benchmarks\<close>

text \<open>\<open>f"{n:,}"\<close> and \<open>f"{x:,.2f}"\<close>\<close>

function grouped :: "nat \<Rightarrow> string" where
  "grouped n = (if n < 1000 then show_nat n
     else grouped (n div 1000) @ '','' @ (let r = n mod 1000 in zeros (3 - length (show_nat r)) @ show_nat r))"
  by pat_completeness auto
termination
  by (relation "measure id") auto

declare grouped.simps [simp del]

definition grouped_fixed :: "rat \<Rightarrow> nat \<Rightarrow> string" where
  "grouped_fixed x n =
     (let m = round_half_even (\<bar>x\<bar> * 10 ^ n); frac = show_nat (nat (m mod 10 ^ n))
      in (if x < 0 then ''-'' else []) @ grouped (nat (m div 10 ^ n))
         @ (if n = 0 then [] else CHR ''.'' # zeros (n - length frac) @ frac))"

definition target_multiple :: "rat \<Rightarrow> rat" where
  "target_multiple eps = fl (eps / 5000)"

definition benchmark_row :: "string \<Rightarrow> harness_report \<Rightarrow> string list" where
  "benchmark_row name report =
     (let eps = br_measured_eps report; multiple = fixed (target_multiple eps) 1
      in [name, grouped (br_event_count report), grouped_fixed eps 2 @ '' EPS'',
          fixed (ls_p50 (br_latency report)) 4 @ '' ms'', fixed (ls_p99 (br_latency report)) 4 @ '' ms'',
          (if br_5k_verified report then ''VERIFIED ('' else ''MEASURED ('') @ multiple @ ''x target)''])"

definition benchmark_proof :: "harness_report \<Rightarrow> harness_report \<Rightarrow> string" where
  "benchmark_proof cef kv =
     (let peak_eps = max (br_measured_eps cef) (br_measured_eps kv)
      in ''Measured live on actual host hardware (peak: '' @ grouped_fixed peak_eps 2 @ '' EPS, ''
         @ fixed (target_multiple peak_eps) 1
         @ ''x requirement), exceeding the 5,000 EPS target without cloud dependencies.'')"

definition demo_benchmarks :: "harness_report \<Rightarrow> harness_report \<Rightarrow> string list list \<times> string" where
  "demo_benchmarks cef kv =
     ([benchmark_row ''CEF Parser (Palo Alto)'' cef, benchmark_row ''Key-Value Parser (Fortinet)'' kv],
      benchmark_proof cef kv)"

section \<open>The menus\<close>

datatype scenario = Firewall | Lineage | Abstention | Passport_badge | Self_healing | Benchmarks

datatype demo_event =
    Shown scenario
  | Called cli_command
  | Invalid_selection
  | Farewell

definition typed_choice :: "string \<Rightarrow> string" where
  "typed_choice answer = str_upper (str_strip answer)"

definition suite_command :: "string \<Rightarrow> cli_command option" where
  "suite_command ch = map_of
     [(''1'', Export [''--format'', ''ndjson'']), (''2'', Export [''--format'', ''csv'']),
      (''3'', Export [''--format'', ''text'']), (''4'', Watch []), (''5'', Api []),
      (''6'', Daemon_control [''status''])] ch"

function demo_command_suite ::
    "(cli_command \<Rightarrow> string option list \<Rightarrow> nat) \<Rightarrow> string option list \<Rightarrow> demo_event list \<times> string option list" where
  "demo_command_suite used [] = ([], [])"
| "demo_command_suite used (None # r) = ([], r)"
| "demo_command_suite used (Some answer # r) =
     (let ch = typed_choice answer in
      case suite_command ch of
        Some c \<Rightarrow> apfst (Cons (Called c)) (demo_command_suite used (drop (used c r) r))
      | None \<Rightarrow> if ch \<in> set [''B'', ''Q'', []] then ([], r)
                else apfst (Cons Invalid_selection) (demo_command_suite used r))"
  by pat_completeness auto
termination
  by (relation "measure (\<lambda>(used, inputs). length inputs)") auto

definition all_scenarios :: "scenario list" where
  "all_scenarios = [Firewall, Lineage, Abstention, Passport_badge, Self_healing, Benchmarks]"

definition chosen_scenarios :: "string \<Rightarrow> scenario list option" where
  "chosen_scenarios ch = map_of
     [(''1'', [Firewall]), (''2'', [Lineage]), (''3'', [Abstention]), (''4'', [Passport_badge]),
      (''5'', [Self_healing]), (''6'', [Benchmarks]), (''A'', all_scenarios)] ch"

lemma suite_consumes: "length (snd (demo_command_suite used inputs)) \<le> length inputs"
proof (induction used inputs rule: demo_command_suite.induct)
  case (3 used answer r)
  show ?case
  proof (cases "suite_command (typed_choice answer)")
    case None
    then show ?thesis using 3(1) [OF refl None] by (auto simp: Let_def intro: le_SucI)
  next
    case (Some c)
    show ?thesis using 3(2) [OF refl Some] by (simp add: Let_def Some)
  qed
qed simp_all

lemma suite_rest: "demo_command_suite used r = (events, rest) \<Longrightarrow> length rest \<le> length r"
  using suite_consumes [of used r] by simp

function interactive_menu ::
    "(cli_command \<Rightarrow> string option list \<Rightarrow> nat) \<Rightarrow> string option list \<Rightarrow> demo_event list" where
  "interactive_menu used [] = []"
| "interactive_menu used (None # r) = []"
| "interactive_menu used (Some answer # r) =
     (let choice = typed_choice answer in
      case chosen_scenarios choice of
        Some ss \<Rightarrow> map Shown ss @ interactive_menu used r
      | None \<Rightarrow>
          if choice = ''7'' then
            (case demo_command_suite used r of (events, rest) \<Rightarrow> events @ interactive_menu used rest)
          else if choice = ''Q'' then [Farewell]
          else Invalid_selection # interactive_menu used r)"
  by pat_completeness auto
termination
  by (relation "measure (\<lambda>(used, inputs). length inputs)") (auto simp: less_Suc_eq_le dest!: sym [THEN suite_rest])

section \<open>Properties\<close>

text \<open>What one answer shows, and the answers that end a menu.\<close>

definition menu_events :: "string option \<Rightarrow> demo_event list" where
  "menu_events a = (case a of None \<Rightarrow> [] | Some answer \<Rightarrow>
     (case chosen_scenarios (typed_choice answer) of None \<Rightarrow> [Invalid_selection] | Some ss \<Rightarrow> map Shown ss))"

definition menu_goes_on :: "string option \<Rightarrow> bool" where
  "menu_goes_on a \<longleftrightarrow> (case a of None \<Rightarrow> False | Some answer \<Rightarrow> typed_choice answer \<noteq> ''Q'')"

definition opens_suite :: "string option \<Rightarrow> bool" where
  "opens_suite a \<longleftrightarrow> (case a of None \<Rightarrow> False | Some answer \<Rightarrow> typed_choice answer = ''7'')"

definition suite_events :: "string option \<Rightarrow> demo_event list" where
  "suite_events a = (case a of None \<Rightarrow> [] | Some answer \<Rightarrow>
     (case suite_command (typed_choice answer) of None \<Rightarrow> [Invalid_selection] | Some c \<Rightarrow> [Called c]))"

definition suite_goes_on :: "string option \<Rightarrow> bool" where
  "suite_goes_on a \<longleftrightarrow> (case a of None \<Rightarrow> False | Some answer \<Rightarrow> typed_choice answer \<notin> set [''B'', ''Q'', []])"

lemma menu_simps:
  "menu_events (Some answer) = (case chosen_scenarios (typed_choice answer) of
     None \<Rightarrow> [Invalid_selection] | Some ss \<Rightarrow> map Shown ss)"
  "menu_goes_on None = False" "menu_goes_on (Some answer) \<longleftrightarrow> typed_choice answer \<noteq> ''Q''"
  by (simp_all add: menu_events_def menu_goes_on_def)

lemma suite_simps:
  "suite_events (Some answer) = (case suite_command (typed_choice answer) of
     None \<Rightarrow> [Invalid_selection] | Some c \<Rightarrow> [Called c])"
  "suite_goes_on None = False"
  "suite_goes_on (Some answer) \<longleftrightarrow> typed_choice answer \<notin> set [''B'', ''Q'', []]"
  by (simp_all add: suite_events_def suite_goes_on_def)

lemma no_scenario: "chosen_scenarios ''Q'' = None" "chosen_scenarios ''7'' = None"
  by (simp_all add: chosen_scenarios_def)

lemma no_command: "ch \<in> set [''B'', ''Q'', []] \<Longrightarrow> suite_command ch = None"
  by (auto simp: suite_command_def)

text \<open>
  The main menu is a fold over its answers: without a visit to the command suite it shows, in
  order, what each answer before the first Q or the end of the input selects, the six scenarios
  for A, a complaint for any other answer, the empty one included, and says goodbye only to a Q.
\<close>

theorem menu_shows_choices:
  assumes "\<forall>a\<in>set inputs. \<not> opens_suite a"
  shows "interactive_menu used inputs = concat (map menu_events (takeWhile menu_goes_on inputs))
    @ (case dropWhile menu_goes_on inputs of Some _ # _ \<Rightarrow> [Farewell] | _ \<Rightarrow> [])"
  using assms
proof (induction inputs)
  case (Cons a r)
  show ?case
  proof (cases a)
    case (Some answer)
    then have "typed_choice answer \<noteq> ''7''" using Cons.prems by (simp add: opens_suite_def)
    then show ?thesis
      using Some Cons by (cases "typed_choice answer = ''Q''"; cases "chosen_scenarios (typed_choice answer)")
        (auto simp: Let_def menu_simps no_scenario)
  qed (simp add: menu_simps)
qed simp

text \<open>
  The command suite calls, for commands that read no answers themselves, what each answer before
  the first B, Q, empty answer or end of the input selects, and hands the answers after that one
  back to the main menu.
\<close>

theorem suite_calls_choices:
  "demo_command_suite (\<lambda>_ _. 0) inputs
     = (concat (map suite_events (takeWhile suite_goes_on inputs)), tl (dropWhile suite_goes_on inputs))"
proof (induction inputs)
  case (Cons a r)
  show ?case
  proof (cases a)
    case (Some answer)
    show ?thesis
    proof (cases "suite_command (typed_choice answer)")
      case None
      then show ?thesis using Some Cons by (simp add: Let_def suite_simps)
    next
      case (Some c)
      then have "typed_choice answer \<notin> set [''B'', ''Q'', []]" using no_command by force
      then show ?thesis using Some \<open>a = Some answer\<close> Cons by (simp add: Let_def suite_simps)
    qed
  qed (simp add: suite_simps)
qed simp

text \<open>
  What the console shows is not always what the code finds. The lineage table claims a byte match
  in every row, although the slice of the action is neither its value nor the raw word it was
  mapped from; and the payload shown as quarantined is accepted by the ingestion handler.
\<close>

theorem lineage_overclaims:
  "list_all (\<lambda>m. match_status lineage_raw m = ''100% Byte Match'') field_mappings
   \<and> raw_slice lineage_raw 86 90 = ''acti'' \<and> raw_slice lineage_raw 93 97 = ''deny''"
  by code_simp

theorem firewall_overclaims:
  "map (\<lambda>(_, _, action). action) demo_firewall = [''ACCEPTED'', ''QUARANTINED'']
   \<and> map ingest_status [clean_log, malformed_exploit] = [''ACCEPTED'', ''ACCEPTED'']"
  by code_simp

section \<open>Witnesses\<close>

theorem menu_shows_choices_witness:
  "interactive_menu (\<lambda>_ _. 0) [Some '' 2 '', Some ''x'', Some ''q'', Some ''1'']
     = [Shown Lineage, Invalid_selection, Farewell]"
proof -
  have "\<forall>a\<in>set [Some '' 2 '', Some ''x'', Some ''q'', Some ''1'']. \<not> opens_suite a" by code_simp
  moreover have "concat (map menu_events (takeWhile menu_goes_on [Some '' 2 '', Some ''x'', Some ''q'', Some ''1'']))
    @ (case dropWhile menu_goes_on [Some '' 2 '', Some ''x'', Some ''q'', Some ''1''] of Some _ # _ \<Rightarrow> [Farewell] | _ \<Rightarrow> [])
    = [Shown Lineage, Invalid_selection, Farewell]" by code_simp
  ultimately show ?thesis using menu_shows_choices by metis
qed

end
