(* ===== verification/LiveFeed.thy ===== *)
theory LiveFeed
  imports Gateway LoadGen
begin

text \<open>
  The running API server of \<open>scripts/cli.py\<close> with its threads: the background generator, whose global
  flag and threads \<open>start_continuous_generator\<close> and \<open>stop_continuous_generator\<close> manage, and one thread
  for every request, as \<open>ThreadingHTTPServer\<close> has it. A generator thread alternates between the test
  of the flag and the body of its loop; a request thread moves as in \<open>handler_step\<close>. A list of
  actions is a schedule: arrivals, moves of any thread, starts and stops in any order, so a
  property of all schedules holds however the threads interleave. The sleep between two rounds
  only delays a thread and is left out.
\<close>

section \<open>Definitions\<close>

datatype worker_point = At_test | In_body

record worker =
  w_point :: worker_point
  w_generator :: LoadGenerator

record live_feed =
  lf_running :: bool
  lf_workers :: "worker list"
  lf_requests :: "handler list"
  lf_gateway :: gateway

definition new_feed :: "rat \<Rightarrow> live_feed" where
  "new_feed now = \<lparr>lf_running = False, lf_workers = [], lf_requests = [], lf_gateway = start_gateway now\<rparr>"

definition new_worker :: worker where
  "new_worker = \<lparr>w_point = At_test, w_generator = new_generator ''cef'' None\<rparr>"

definition stop_continuous_generator :: "live_feed \<Rightarrow> live_feed" where
  "stop_continuous_generator f = f\<lparr>lf_running := False\<rparr>"

definition start_continuous_generator :: "live_feed \<Rightarrow> live_feed" where
  "start_continuous_generator f =
     (if lf_running f then f
      else f\<lparr>lf_running := True, lf_workers := lf_workers f @ [new_worker]\<rparr>)"

text \<open>The body of the loop: one event of the thread's generator; an exception is swallowed.\<close>

definition worker_body :: "export_env \<Rightarrow> nat \<Rightarrow> worker \<Rightarrow> gateway \<Rightarrow> worker \<times> gateway" where
  "worker_body env k w g = (case generate_single None (w_generator w) of
       Inl e \<Rightarrow> (w\<lparr>w_point := At_test\<rparr>, g)
     | Inr (raw, gen) \<Rightarrow> (w\<lparr>w_point := At_test, w_generator := gen\<rparr>, generator_tick env k raw g))"

text \<open>Thread \<open>i\<close> moves: it tests the flag, and leaves or enters the body, or it runs the body.\<close>

definition worker_step :: "export_env \<Rightarrow> nat \<Rightarrow> nat \<Rightarrow> live_feed \<Rightarrow> live_feed" where
  "worker_step env k i f =
     (if i < length (lf_workers f) then
        (let w = lf_workers f ! i in
         case w_point w of
           At_test \<Rightarrow>
             if lf_running f then f\<lparr>lf_workers := (lf_workers f)[i := w\<lparr>w_point := In_body\<rparr>]\<rparr>
             else f\<lparr>lf_workers := take i (lf_workers f) @ drop (Suc i) (lf_workers f)\<rparr>
         | In_body \<Rightarrow>
             (case worker_body env k w (lf_gateway f) of (w', g) \<Rightarrow>
                f\<lparr>lf_workers := (lf_workers f)[i := w'], lf_gateway := g\<rparr>))
      else f)"

text \<open>A request arrives and gets a thread, and thread \<open>i\<close> of the requests moves.\<close>

definition arrive :: "handler \<Rightarrow> live_feed \<Rightarrow> live_feed" where
  "arrive h f = f\<lparr>lf_requests := lf_requests f @ [h]\<rparr>"

definition request_step :: "nat \<Rightarrow> live_feed \<Rightarrow> live_feed" where
  "request_step i f =
     (if i < length (lf_requests f) then
        (case handler_step (lf_requests f ! i) (lf_gateway f) of (h, g) \<Rightarrow>
           f\<lparr>lf_requests := (lf_requests f)[i := h], lf_gateway := g\<rparr>)
      else f)"

datatype action =
    Start
  | Stop
  | Turn export_env nat nat
  | Post post_env string "string \<Rightarrow> string option" "int \<Rightarrow> string"
  | Get rat string "string option"
  | Move nat

fun act :: "action \<Rightarrow> live_feed \<Rightarrow> live_feed" where
  "act Start f = start_continuous_generator f"
| "act Stop f = stop_continuous_generator f"
| "act (Turn env k i) f = worker_step env k i f"
| "act (Post env path headers read) f = arrive (Got_POST env path headers read) f"
| "act (Get now path limit) f = arrive (Got_GET now path limit) f"
| "act (Move i) f = request_step i f"

text \<open>
  \<open>handle_api\<close> after the parsing of its arguments: the generator starts before the socket is bound, and
  only the keyboard interrupt that ends \<open>serve_forever\<close> stops it. \<open>acts\<close> is what happens in between.
\<close>

definition handle_api :: "exn option \<Rightarrow> action list \<Rightarrow> live_feed \<Rightarrow> live_feed \<times> int result" where
  "handle_api bind_error acts f =
     (let f1 = start_continuous_generator f in
      case bind_error of
        Some e \<Rightarrow> (f1, Inl e)
      | None \<Rightarrow> (stop_continuous_generator (fold act acts f1), Inr 0))"

text \<open>What is left for the threads of a stopped feed: a test each, after the body they may be in.\<close>

definition in_body :: "live_feed \<Rightarrow> nat" where
  "in_body f = sum_list (map (\<lambda>w. case w_point w of At_test \<Rightarrow> 0 | In_body \<Rightarrow> 1) (lf_workers f))"

definition steps_left :: "live_feed \<Rightarrow> nat" where
  "steps_left f = length (lf_workers f) + in_body f"

fun turns_taken :: "action list \<Rightarrow> live_feed \<Rightarrow> nat" where
  "turns_taken [] f = 0"
| "turns_taken (a # as) f =
     (case a of Turn env k i \<Rightarrow> if i < length (lf_workers f) then 1 else 0 | _ \<Rightarrow> 0) + turns_taken as (act a f)"

section \<open>Lemmas\<close>

lemmas feed_defs = start_continuous_generator_def stop_continuous_generator_def worker_step_def worker_body_def

lemma sum_list_focus:
  fixes f :: "'a \<Rightarrow> 'b :: comm_monoid_add"
  assumes "i < length xs"
  shows "sum_list (map f xs) = f (xs ! i) + sum_list (map f (take i xs @ drop (Suc i) xs))"
    and "sum_list (map f (xs[i := x])) = f x + sum_list (map f (take i xs @ drop (Suc i) xs))"
  using arg_cong [OF id_take_nth_drop [OF assms], of "\<lambda>ys. sum_list (map f ys)"] assms
  by (simp_all add: upd_conv_take_nth_drop add.left_commute)

lemma worker_body_point [simp]: "w_point (fst (worker_body env k w g)) = At_test"
  by (simp add: worker_body_def split: sum.splits)

lemma generator_tick_total:
  "rb_total_ingested (gw_ring (generator_tick env k raw g)) \<le> Suc (rb_total_ingested (gw_ring g))"
  by (cases rule: generator_tick_cases [of env k raw g]) (simp_all add: rb_append_fields)

lemma worker_body_total:
  "rb_total_ingested (gw_ring (snd (worker_body env k w g))) \<le> Suc (rb_total_ingested (gw_ring g))"
  by (simp add: worker_body_def generator_tick_total split: sum.splits)

lemma worker_step_length:
  "length (lf_workers (worker_step env k i f)) \<le> length (lf_workers f)"
  "lf_running f \<Longrightarrow> length (lf_workers (worker_step env k i f)) = length (lf_workers f)"
  by (auto simp: worker_step_def Let_def split: worker_point.splits prod.splits)

lemma worker_step_running [simp]: "lf_running (worker_step env k i f) = lf_running f"
  by (auto simp: worker_step_def Let_def split: worker_point.splits prod.splits)

text \<open>One move of a stopped feed uses up one step, and stores an event only from a body.\<close>

lemma stopped_move:
  fixes env k
  assumes "\<not> lf_running f" "i < length (lf_workers f)"
  defines "f' \<equiv> worker_step env k i f"
  shows "steps_left f = Suc (steps_left f')"
    and "rb_total_ingested (gw_ring (lf_gateway f')) + in_body f' \<le> rb_total_ingested (gw_ring (lf_gateway f)) + in_body f"
proof -
  define w where "w = lf_workers f ! i"
  define rest where "rest = take i (lf_workers f) @ drop (Suc i) (lf_workers f)"
  define weight where "weight = (\<lambda>w :: worker. case w_point w of At_test \<Rightarrow> 0 :: nat | In_body \<Rightarrow> 1)"
  note focus = sum_list_focus [OF assms(2), where f = weight, folded w_def rest_def]
  have size: "length (lf_workers f) = Suc (length rest)" using assms(2) by (simp add: rest_def)
  have "steps_left f = Suc (steps_left f')
    \<and> rb_total_ingested (gw_ring (lf_gateway f')) + in_body f' \<le> rb_total_ingested (gw_ring (lf_gateway f)) + in_body f"
  proof (cases "w_point w")
    case At_test
    with assms(1,2) have "f' = f\<lparr>lf_workers := rest\<rparr>"
      by (simp add: f'_def worker_step_def w_def [symmetric] rest_def)
    with focus(1) At_test size show ?thesis
      by (simp add: steps_left_def in_body_def weight_def [symmetric]) (simp add: weight_def)
  next
    case In_body
    obtain w' g where b: "worker_body env k w (lf_gateway f) = (w', g)" by fastforce
    then have "w_point w' = At_test" "rb_total_ingested (gw_ring g) \<le> Suc (rb_total_ingested (gw_ring (lf_gateway f)))"
      using worker_body_point [of env k w "lf_gateway f"] worker_body_total [of env k w "lf_gateway f"] by simp_all
    then have "weight w' = 0" "weight w = 1" using In_body by (simp_all add: weight_def)
    moreover from assms(2) In_body b have "f' = f\<lparr>lf_workers := (lf_workers f)[i := w'], lf_gateway := g\<rparr>"
      by (simp add: f'_def worker_step_def w_def [symmetric])
    ultimately show ?thesis
      using focus(1) focus(2) [of w'] \<open>rb_total_ingested (gw_ring g) \<le> _\<close>
      by (simp add: steps_left_def in_body_def weight_def [symmetric])
  qed
  then show "steps_left f = Suc (steps_left f')"
    "rb_total_ingested (gw_ring (lf_gateway f')) + in_body f' \<le> rb_total_ingested (gw_ring (lf_gateway f)) + in_body f"
    by simp_all
qed

lemma act_alive:
  assumes "lf_running f \<longrightarrow> lf_workers f \<noteq> []"
  shows "lf_running (act a f) \<longrightarrow> lf_workers (act a f) \<noteq> []"
proof (cases a)
  case (Turn env k i)
  with assms worker_step_length(2) [of f env k i] show ?thesis by (metis act.simps(3) length_0_conv worker_step_running)
qed (use assms in \<open>simp_all add: start_continuous_generator_def stop_continuous_generator_def arrive_def request_step_def split: prod.split\<close>)

lemma act_workers:
  "length (lf_workers (act a f)) \<le> length (lf_workers f) + (if a = Start then 1 else 0)"
  using worker_step_length(1) [of _ _ _ f] by (cases a) (simp_all add: start_continuous_generator_def stop_continuous_generator_def
    arrive_def request_step_def split: prod.split)

lemma fold_workers:
  "length (lf_workers (fold act acts f)) \<le> length (lf_workers f) + count_list acts Start"
proof (induction acts arbitrary: f)
  case (Cons a acts)
  from Cons.IH [of "act a f"] act_workers [of a f] show ?case by (simp split: if_splits)
qed simp

section \<open>Threads and counters\<close>

text \<open>
  Where the counters of the class stand against those of the buffer: what threads have stored but
  not yet counted, and what they have announced as quarantined but not yet stored.
\<close>

fun uncounted :: "handler \<Rightarrow> int" where
  "uncounted (Events_load p) = 1"
| "uncounted (Events_store p n) = 1"
| "uncounted h = 0"

fun unmeasured_bytes :: "handler \<Rightarrow> int" where
  "unmeasured_bytes (Events_load p) = int (length (pn_raw p))"
| "unmeasured_bytes (Events_store p n) = int (length (pn_raw p))"
| "unmeasured_bytes (Bytes_load p) = int (length (pn_raw p))"
| "unmeasured_bytes (Bytes_store p n) = int (length (pn_raw p))"
| "unmeasured_bytes h = 0"

fun unstored_alarm :: "handler \<Rightarrow> int" where
  "unstored_alarm (Append p) = (if quarantine (pn_raw p) then 1 else 0)"
| "unstored_alarm h = 0"

definition events_counted :: "live_feed \<Rightarrow> int" where
  "events_counted f = int (rb_total_ingested (gw_ring (lf_gateway f))) - sum_list (map uncounted (lf_requests f))"

definition bytes_counted :: "live_feed \<Rightarrow> int" where
  "bytes_counted f = rb_bytes_ingested (gw_ring (lf_gateway f)) - sum_list (map unmeasured_bytes (lf_requests f))"

definition alarms_raised :: "live_feed \<Rightarrow> int" where
  "alarms_raised f = int (rb_quarantined (gw_ring (lf_gateway f))) + sum_list (map unstored_alarm (lf_requests f))"

text \<open>
  Every step keeps the three sums or raises them; a value that was loaded stays below, however old
  it is, so whatever a thread stores does too.
\<close>

fun thread_ok :: "int \<Rightarrow> int \<Rightarrow> int \<Rightarrow> handler \<Rightarrow> bool" where
  "thread_ok e b q (Quarantine_load p) = quarantine (pn_raw p)"
| "thread_ok e b q (Quarantine_store p n) = (quarantine (pn_raw p) \<and> int n \<le> q)"
| "thread_ok e b q (Events_store p n) = (int n \<le> e)"
| "thread_ok e b q (Bytes_store p n) = (int n \<le> b)"
| "thread_ok e b q h = True"

definition gateway_ok :: "int \<Rightarrow> int \<Rightarrow> int \<Rightarrow> gateway \<Rightarrow> bool" where
  "gateway_ok e b q g \<longleftrightarrow> int (gw_events_count g) \<le> e \<and> int (gw_bytes_count g) \<le> b \<and> int (gw_quarantined_count g) \<le> q
     \<and> rb_capacity (gw_ring g) = 5000 \<and> length (rb_buffer (gw_ring g)) \<le> 5000"

definition feed_ok :: "live_feed \<Rightarrow> bool" where
  "feed_ok f \<longleftrightarrow> gateway_ok (events_counted f) (bytes_counted f) (alarms_raised f) (lf_gateway f)
     \<and> list_all (thread_ok (events_counted f) (bytes_counted f) (alarms_raised f)) (lf_requests f)"

text \<open>The state only grows: what is stored stays counted, and what was announced stays announced.\<close>

definition grows :: "live_feed \<Rightarrow> live_feed \<Rightarrow> bool" where
  "grows f f' \<longleftrightarrow> events_counted f \<le> events_counted f' \<and> bytes_counted f \<le> bytes_counted f' \<and> alarms_raised f \<le> alarms_raised f'
     \<and> rb_total_ingested (gw_ring (lf_gateway f)) \<le> rb_total_ingested (gw_ring (lf_gateway f'))
     \<and> rb_bytes_ingested (gw_ring (lf_gateway f)) \<le> rb_bytes_ingested (gw_ring (lf_gateway f'))
     \<and> rb_quarantined (gw_ring (lf_gateway f)) \<le> rb_quarantined (gw_ring (lf_gateway f'))"

lemma thread_ok_mono: "thread_ok e b q h \<Longrightarrow> e \<le> e' \<Longrightarrow> b \<le> b' \<Longrightarrow> q \<le> q' \<Longrightarrow> thread_ok e' b' q' h"
  by (cases h) auto

lemma weights_nonneg: "0 \<le> uncounted h" "0 \<le> unmeasured_bytes h" "0 \<le> unstored_alarm h"
  by (cases h; simp)+

lemma receive_cases:
  obtains r where "receive env headers read = Done r"
  | p where "receive env headers read = Quarantine_load p" "quarantine (pn_raw p)"
  | p where "receive env headers read = Append p" "\<not> quarantine (pn_raw p)"
proof -
  consider e where "content_length headers = Inl e" | n where "content_length headers = Inr n" "read n = []"
    | n e where "content_length headers = Inr n" "read n \<noteq> []" "generate_contract_ulid (pe_ms env) (pe_pick env) = Inl e"
    | n u where "content_length headers = Inr n" "read n \<noteq> []" "generate_contract_ulid (pe_ms env) (pe_pick env) = Inr u"
    by (metis old.sum.exhaust)
  then show ?thesis
  proof cases
    case (4 n u)
    let ?p = "\<lparr>pn_env = env, pn_headers = headers, pn_ulid = u, pn_raw = read n\<rparr>"
    from 4 show ?thesis using that(2,3) [of ?p] by (cases "quarantine (read n)") (simp_all add: receive_def Let_def)
  qed (use that(1) in \<open>simp_all add: receive_def Let_def\<close>)
qed

lemma pending_append:
  "rb_append (pending_event p) r =
     (r\<lparr>rb_buffer := deque_append (rb_capacity r) (pending_event p) (rb_buffer r),
        rb_total_ingested := rb_total_ingested r + 1, rb_bytes_ingested := rb_bytes_ingested r + int (length (pn_raw p)),
        rb_quarantined := rb_quarantined r + (if quarantine (pn_raw p) then 1 else 0)\<rparr>, None)"
  by (simp add: pending_event_def full_event_append)

lemma sums_nonneg:
  "0 \<le> sum_list (map uncounted hs)" "0 \<le> sum_list (map unmeasured_bytes hs)" "0 \<le> sum_list (map unstored_alarm hs)"
  by (auto intro!: sum_list_nonneg simp: weights_nonneg)

text \<open>One move of a request thread, with the change of its share in the three sums.\<close>

lemma handler_step_ok:
  assumes "thread_ok e b q h" "gateway_ok e b q g" "handler_step h g = (h', g')"
  defines "de \<equiv> int (rb_total_ingested (gw_ring g')) - int (rb_total_ingested (gw_ring g)) - (uncounted h' - uncounted h)"
    and "db \<equiv> rb_bytes_ingested (gw_ring g') - rb_bytes_ingested (gw_ring g) - (unmeasured_bytes h' - unmeasured_bytes h)"
    and "dq \<equiv> int (rb_quarantined (gw_ring g')) - int (rb_quarantined (gw_ring g)) + (unstored_alarm h' - unstored_alarm h)"
  shows "0 \<le> de \<and> 0 \<le> db \<and> 0 \<le> dq \<and> thread_ok (e + de) (b + db) (q + dq) h' \<and> gateway_ok (e + de) (b + db) (q + dq) g'
    \<and> rb_total_ingested (gw_ring g) \<le> rb_total_ingested (gw_ring g')
    \<and> rb_bytes_ingested (gw_ring g) \<le> rb_bytes_ingested (gw_ring g')
    \<and> rb_quarantined (gw_ring g) \<le> rb_quarantined (gw_ring g')"
proof (cases h)
  case (Got_POST env path headers read)
  consider "g' = g" "h' = receive env headers read"
    | r where "h' = Done r" "g' = g" | r s where "h' = Done r" "g' = g\<lparr>gw_snapshots := s\<rparr>"
    using assms(3) Got_POST by (auto simp: post_snapshot_def Let_def case_prod_unfold split: if_splits)
  then show ?thesis
  proof cases
    case 1
    then show ?thesis using assms(2) Got_POST
      by (cases rule: receive_cases [of env headers read]) (auto simp: de_def db_def dq_def)
  qed (use assms(2) Got_POST in \<open>auto simp: de_def db_def dq_def gateway_ok_def\<close>)
next
  case (Append p)
  then show ?thesis using assms(1-3)
    by (auto simp: de_def db_def dq_def gateway_ok_def pending_append deque_append_def)
qed (use assms(1-3) in \<open>auto simp: de_def db_def dq_def gateway_ok_def split: if_splits\<close>)

lemma request_step_ok:
  assumes "feed_ok f"
  shows "feed_ok (request_step i f) \<and> grows f (request_step i f)"
proof (cases "i < length (lf_requests f)")
  case True
  define h where "h = lf_requests f ! i"
  define rest where "rest = take i (lf_requests f) @ drop (Suc i) (lf_requests f)"
  obtain h' g' where step: "handler_step h (lf_gateway f) = (h', g')" by fastforce
  have f': "request_step i f = f\<lparr>lf_requests := (lf_requests f)[i := h'], lf_gateway := g'\<rparr>"
    using True step by (simp add: request_step_def h_def)
  note focus = sum_list_focus [OF True, folded h_def rest_def]
  have sets: "set (lf_requests f) = insert h (set rest)" "set ((lf_requests f)[i := h']) = insert h' (set rest)"
    using True by (simp_all add: h_def rest_def upd_conv_take_nth_drop) (metis id_take_nth_drop set_append list.simps(15) Un_insert_right)
  have "thread_ok (events_counted f) (bytes_counted f) (alarms_raised f) h"
    using assms sets(1) by (simp add: feed_ok_def list_all_iff)
  note ok = handler_step_ok [OF this _ step]
  define e b q where "e = events_counted (request_step i f)" and "b = bytes_counted (request_step i f)"
    and "q = alarms_raised (request_step i f)"
  have sums: "e = events_counted f + (int (rb_total_ingested (gw_ring g')) - int (rb_total_ingested (gw_ring (lf_gateway f))) - (uncounted h' - uncounted h))"
    "b = bytes_counted f + (rb_bytes_ingested (gw_ring g') - rb_bytes_ingested (gw_ring (lf_gateway f)) - (unmeasured_bytes h' - unmeasured_bytes h))"
    "q = alarms_raised f + (int (rb_quarantined (gw_ring g')) - int (rb_quarantined (gw_ring (lf_gateway f))) + (unstored_alarm h' - unstored_alarm h))"
    using focus(1) [where f = uncounted] focus(2) [where f = uncounted and x = h']
      focus(1) [where f = unmeasured_bytes] focus(2) [where f = unmeasured_bytes and x = h']
      focus(1) [where f = unstored_alarm] focus(2) [where f = unstored_alarm and x = h']
    by (simp_all add: e_def b_def q_def f' events_counted_def bytes_counted_def alarms_raised_def)
  have *: "events_counted f \<le> e" "bytes_counted f \<le> b" "alarms_raised f \<le> q" "thread_ok e b q h'" "gateway_ok e b q g'"
    "rb_total_ingested (gw_ring (lf_gateway f)) \<le> rb_total_ingested (gw_ring g')"
    "rb_bytes_ingested (gw_ring (lf_gateway f)) \<le> rb_bytes_ingested (gw_ring g')"
    "rb_quarantined (gw_ring (lf_gateway f)) \<le> rb_quarantined (gw_ring g')"
    using ok assms unfolding sums by (auto simp: feed_ok_def)
  have "list_all (thread_ok e b q) ((lf_requests f)[i := h'])"
    using assms *(1-4) sets by (auto simp: feed_ok_def list_all_iff intro: thread_ok_mono)
  with * show ?thesis
    unfolding feed_ok_def grows_def e_def [symmetric] b_def [symmetric] q_def [symmetric] by (simp add: f')
qed (use assms in \<open>simp add: request_step_def grows_def\<close>)

text \<open>The moves of the generator touch only the buffer, under its lock, and the other actions no counter.\<close>

lemma feed_ok_ring:
  assumes "feed_ok f" "lf_requests f' = lf_requests f" "lf_gateway f' = (lf_gateway f)\<lparr>gw_ring := r\<rparr>"
    and "rb_capacity r = rb_capacity (gw_ring (lf_gateway f))" "length (rb_buffer r) \<le> 5000"
    and "rb_total_ingested (gw_ring (lf_gateway f)) \<le> rb_total_ingested r"
      "rb_bytes_ingested (gw_ring (lf_gateway f)) \<le> rb_bytes_ingested r" "rb_quarantined (gw_ring (lf_gateway f)) \<le> rb_quarantined r"
  shows "feed_ok f' \<and> grows f f'"
proof -
  have grow: "events_counted f \<le> events_counted f'" "bytes_counted f \<le> bytes_counted f'" "alarms_raised f \<le> alarms_raised f'"
    using assms(2,3,6-8) by (simp_all add: events_counted_def bytes_counted_def alarms_raised_def)
  then have "list_all (thread_ok (events_counted f') (bytes_counted f') (alarms_raised f')) (lf_requests f')"
    using assms(1,2) by (auto simp: feed_ok_def list_all_iff intro: thread_ok_mono)
  with grow assms show ?thesis by (auto simp: feed_ok_def gateway_ok_def grows_def)
qed

lemma worker_step_ring:
  "\<exists>r. lf_requests (worker_step env k i f) = lf_requests f \<and> lf_gateway (worker_step env k i f) = (lf_gateway f)\<lparr>gw_ring := r\<rparr>
     \<and> (r = gw_ring (lf_gateway f) \<or> (\<exists>ev raw. live_event env k raw = Inr ev \<and> r = fst (rb_append ev (gw_ring (lf_gateway f)))))"
proof -
  have "\<exists>r. snd (worker_body env k w g) = g\<lparr>gw_ring := r\<rparr>
      \<and> (r = gw_ring g \<or> (\<exists>ev raw. live_event env k raw = Inr ev \<and> r = fst (rb_append ev (gw_ring g))))" for w g
  proof (cases "generate_single None (w_generator w)")
    case (Inr out)
    show ?thesis
    proof (cases rule: generator_tick_cases [of env k "fst out" g])
      case 1
      with Inr show ?thesis by (intro exI [of _ "gw_ring g"]) (simp add: worker_body_def case_prod_unfold)
    next
      case (2 ev)
      with Inr show ?thesis by (intro exI [of _ "fst (rb_append ev (gw_ring g))"]) (auto simp: worker_body_def case_prod_unfold)
    qed
  qed (auto simp: worker_body_def intro: exI [of _ "gw_ring g"])
  then obtain r where r: "snd (worker_body env k (lf_workers f ! i) (lf_gateway f)) = (lf_gateway f)\<lparr>gw_ring := r\<rparr>"
    "r = gw_ring (lf_gateway f) \<or> (\<exists>ev raw. live_event env k raw = Inr ev \<and> r = fst (rb_append ev (gw_ring (lf_gateway f))))"
    by blast
  show ?thesis
  proof (cases "i < length (lf_workers f) \<and> w_point (lf_workers f ! i) = In_body")
    case True
    then have "lf_requests (worker_step env k i f) = lf_requests f"
      "lf_gateway (worker_step env k i f) = (lf_gateway f)\<lparr>gw_ring := r\<rparr>"
      using r(1) by (simp_all add: worker_step_def Let_def case_prod_unfold)
    with r(2) show ?thesis by blast
  next
    case False
    then have "lf_requests (worker_step env k i f) = lf_requests f" "lf_gateway (worker_step env k i f) = lf_gateway f"
      by (auto simp: worker_step_def Let_def split: worker_point.splits)
    then show ?thesis by (intro exI [of _ "gw_ring (lf_gateway f)"]) simp
  qed
qed

lemma grows_refl: "grows f f"
  by (simp add: grows_def)

lemma grows_trans: "grows f g \<Longrightarrow> grows g h \<Longrightarrow> grows f h"
  unfolding grows_def by linarith

lemma act_ok:
  assumes "feed_ok f"
  shows "feed_ok (act a f) \<and> grows f (act a f)"
proof (cases a)
  case (Turn env k i)
  obtain r where r: "lf_requests (act a f) = lf_requests f" "lf_gateway (act a f) = (lf_gateway f)\<lparr>gw_ring := r\<rparr>"
    "r = gw_ring (lf_gateway f) \<or> (\<exists>ev raw. live_event env k raw = Inr ev \<and> r = fst (rb_append ev (gw_ring (lf_gateway f))))"
    using worker_step_ring [of env k i f] Turn by auto
  have l: "rb_capacity (gw_ring (lf_gateway f)) = 5000" "length (rb_buffer (gw_ring (lf_gateway f))) \<le> 5000"
    using assms by (simp_all add: feed_ok_def gateway_ok_def)
  from r(3) show ?thesis
  proof
    assume "r = gw_ring (lf_gateway f)"
    then show ?thesis using l by (intro feed_ok_ring [OF assms r(1,2)]) simp_all
  next
    assume "\<exists>ev raw. live_event env k raw = Inr ev \<and> r = fst (rb_append ev (gw_ring (lf_gateway f)))"
    then obtain ev raw where ev: "live_event env k raw = Inr ev" "r = fst (rb_append ev (gw_ring (lf_gateway f)))" by blast
    note fields = live_event_Inr [OF ev(1)]
    then have "r = (gw_ring (lf_gateway f))
        \<lparr>rb_buffer := deque_append 5000 ev (rb_buffer (gw_ring (lf_gateway f))),
         rb_total_ingested := rb_total_ingested (gw_ring (lf_gateway f)) + 1,
         rb_bytes_ingested := rb_bytes_ingested (gw_ring (lf_gateway f)) + utf8_length raw\<rparr>"
      using l(1) by (simp add: ev(2) rb_append_def)
    then show ?thesis
      using l utf8_length_nonneg [of raw] by (intro feed_ok_ring [OF assms r(1,2)]) (simp_all add: deque_append_def)
  qed
next
  case (Move i)
  then show ?thesis using request_step_ok [OF assms] by simp
qed (use assms in \<open>auto simp: start_continuous_generator_def stop_continuous_generator_def arrive_def feed_ok_def grows_def
      events_counted_def bytes_counted_def alarms_raised_def\<close>)

lemma new_feed_ok: "feed_ok (new_feed now)"
  by (simp add: feed_ok_def gateway_ok_def events_counted_def bytes_counted_def alarms_raised_def new_feed_def start_gateway_def new_buffer_def)

lemma schedule_ok: "feed_ok f \<Longrightarrow> feed_ok (fold act acts f) \<and> grows f (fold act acts f)"
proof (induction acts arbitrary: f)
  case (Cons a acts)
  then show ?case using act_ok [OF Cons.prems, of a] grows_trans by auto
qed (simp add: grows_refl)

section \<open>Answers to /stats\<close>

text \<open>
  What a thread that answers \<open>/stats\<close> holds, against the counts \<open>t\<close>, \<open>b\<close> and \<open>q\<close> of the buffer when
  its request arrived: everything it has read lies between those and the present ones.
\<close>

definition read_ok :: "nat \<Rightarrow> int \<Rightarrow> nat \<Rightarrow> live_feed \<Rightarrow> ring_stats \<Rightarrow> bool" where
  "read_ok t b q f s \<longleftrightarrow> (let r = gw_ring (lf_gateway f) in
     t \<le> st_events_received s \<and> st_events_received s \<le> rb_total_ingested r
     \<and> b \<le> st_bytes_ingested s \<and> st_bytes_ingested s \<le> rb_bytes_ingested r
     \<and> q \<le> st_quarantined s \<and> st_quarantined s \<le> rb_quarantined r
     \<and> st_ring_buffer_count s \<le> 5000 \<and> st_ring_buffer_capacity s = 5000 \<and> st_dps_ratio s = 1)"

fun answer_ok :: "nat \<Rightarrow> int \<Rightarrow> nat \<Rightarrow> live_feed \<Rightarrow> handler \<Rightarrow> bool" where
  "answer_ok t b q f (Got_GET now path limit) \<longleftrightarrow> path = ''/stats''
     \<and> t \<le> rb_total_ingested (gw_ring (lf_gateway f)) \<and> b \<le> rb_bytes_ingested (gw_ring (lf_gateway f))
     \<and> q \<le> rb_quarantined (gw_ring (lf_gateway f))"
| "answer_ok t b q f (Stats_read s) \<longleftrightarrow> read_ok t b q f s"
| "answer_ok t b q f (Stats_events s x) \<longleftrightarrow> read_ok t b q f s \<and> int t \<le> x \<and> x \<le> int (rb_total_ingested (gw_ring (lf_gateway f)))"
| "answer_ok t b q f (Stats_bytes s x y) \<longleftrightarrow> read_ok t b q f s \<and> int t \<le> x \<and> x \<le> int (rb_total_ingested (gw_ring (lf_gateway f)))
     \<and> b \<le> y \<and> y \<le> rb_bytes_ingested (gw_ring (lf_gateway f))"
| "answer_ok t b q f (Done r) \<longleftrightarrow> (\<exists>s x y z. r = Inr (json_response 200 (stats_reply s x y z)) \<and> read_ok t b q f s
     \<and> int t \<le> x \<and> x \<le> int (rb_total_ingested (gw_ring (lf_gateway f)))
     \<and> b \<le> y \<and> y \<le> rb_bytes_ingested (gw_ring (lf_gateway f)) \<and> int q \<le> z \<and> z \<le> alarms_raised f)"
| "answer_ok t b q f h \<longleftrightarrow> False"

lemma answer_ok_grows:
  assumes "grows f f'" "answer_ok t b q f h"
  shows "answer_ok t b q f' h"
proof -
  have "read_ok t b q f' s" if "read_ok t b q f s" for s
    using assms(1) that by (auto simp: read_ok_def grows_def Let_def)
  then show ?thesis using assms unfolding grows_def
    by (cases h) (force | (auto; meson order_trans))+
qed

lemma answer_step:
  assumes "feed_ok f" "answer_ok t b q f h" "handler_step h (lf_gateway f) = (h', g)"
  shows "answer_ok t b q f h'"
proof -
  have bounds: "int (gw_events_count (lf_gateway f)) \<le> int (rb_total_ingested (gw_ring (lf_gateway f)))"
    "int (gw_bytes_count (lf_gateway f)) \<le> rb_bytes_ingested (gw_ring (lf_gateway f))"
    "int (gw_quarantined_count (lf_gateway f)) \<le> alarms_raised f"
    "int (rb_quarantined (gw_ring (lf_gateway f))) \<le> alarms_raised f"
    "length (rb_buffer (gw_ring (lf_gateway f))) \<le> 5000" "rb_capacity (gw_ring (lf_gateway f)) = 5000"
    using assms(1) sums_nonneg [of "lf_requests f"]
    by (simp_all add: feed_ok_def gateway_ok_def events_counted_def bytes_counted_def alarms_raised_def)
  show ?thesis
  proof (cases h)
    case (Got_GET now path limit)
    then show ?thesis using assms(2,3) bounds by (auto simp: read_ok_def rb_stats_def Let_def)
  next
    case (Stats_bytes s x y)
    then have "read_ok t b q f s" using assms(2) by simp
    then have "int q \<le> int (st_quarantined s)" "int (st_quarantined s) \<le> alarms_raised f"
      using bounds(4) by (auto simp: read_ok_def Let_def)
    define z where "z = max (int (st_quarantined s)) (int (gw_quarantined_count (lf_gateway f)))"
    have z: "int q \<le> z" "z \<le> alarms_raised f"
      using \<open>int q \<le> _\<close> \<open>int (st_quarantined s) \<le> _\<close> bounds(3) by (simp_all add: z_def)
    have "answer_ok t b q f (Done (Inr (json_response 200 (stats_reply s x y z))))"
      unfolding answer_ok.simps
      by (rule exI [of _ s], rule exI [of _ x], rule exI [of _ y], rule exI [of _ z])
        (use z assms(2) Stats_bytes in simp)
    moreover have "h' = Done (Inr (json_response 200 (stats_reply s x y z)))"
      using assms(3) Stats_bytes by (auto simp: z_def)
    ultimately show ?thesis by (simp only:)
  next
    case (Done r)
    then have "h' = h" using assms(3) by simp
    with assms(2) show ?thesis by (simp only:)
  qed (use assms(2,3) bounds in \<open>auto simp: read_ok_def Let_def\<close>)
qed

lemma answer_act:
  assumes "feed_ok f" "i < length (lf_requests f)" "answer_ok t b q f (lf_requests f ! i)"
  shows "i < length (lf_requests (act a f)) \<and> answer_ok t b q (act a f) (lf_requests (act a f) ! i)"
proof -
  have same: ?thesis if "lf_requests (act a f) = lf_requests f @ hs" for hs
    using that assms(2) answer_ok_grows [OF _ assms(3)] act_ok [OF assms(1), of a] by (simp add: nth_append)
  show ?thesis
  proof (cases "\<exists>j. a = Move j")
    case False
    have "\<exists>hs. lf_requests (act a f) = lf_requests f @ hs"
    proof (cases a)
      case (Turn env k j)
      then show ?thesis using worker_step_ring [of env k j f] by auto
    qed (use False in \<open>simp_all add: start_continuous_generator_def stop_continuous_generator_def arrive_def\<close>)
    then show ?thesis using same by blast
  next
    case True
    then obtain j where Move: "a = Move j" ..
    obtain h' g where step: "handler_step (lf_requests f ! j) (lf_gateway f) = (h', g)" by fastforce
    show ?thesis
    proof (cases "j = i")
      case True
      then have "lf_requests (act a f) ! i = h'" "length (lf_requests (act a f)) = length (lf_requests f)"
        using Move step assms(2) by (simp_all add: request_step_def)
      moreover have "answer_ok t b q f h'" using answer_step [OF assms(1,3)] step True by simp
      ultimately show ?thesis using assms(2) answer_ok_grows act_ok [OF assms(1), of a] by auto
    next
      case False
      then have "lf_requests (act a f) ! i = lf_requests f ! i" "length (lf_requests (act a f)) = length (lf_requests f)"
        using Move by (simp_all add: request_step_def split: prod.split)
      then show ?thesis using assms(2) answer_ok_grows [OF _ assms(3)] act_ok [OF assms(1), of a] by simp
    qed
  qed
qed

lemma answer_schedule:
  assumes "feed_ok f" "i < length (lf_requests f)" "answer_ok t b q f (lf_requests f ! i)"
  shows "answer_ok t b q (fold act acts f) (lf_requests (fold act acts f) ! i)"
  using assms
proof (induction acts arbitrary: f)
  case (Cons a acts)
  then show ?case using answer_act [OF Cons.prems, of a] act_ok [OF Cons.prems(1), of a] by simp
qed simp

section \<open>Properties\<close>

text \<open>
  C29. What /stats answers, however the threads of the server interleave: the events and the bytes
  it reports lie between those the buffer had stored when the request arrived and those it has
  stored when the answer is complete, although the counters of the class, with which the answer
  is merged, are updated without a lock and can lose increments. The quarantined count, which the
  handler raises before it stores the event, is at least that of the buffer and exceeds it at most
  by the quarantined events that threads are about to store. The buffer holds at most 5000 events.
\<close>

theorem stats_report_the_buffer:
  fixes acts acts' now t limit
  defines "before \<equiv> fold act acts (new_feed now)"
  defines "later \<equiv> fold act acts' (act (Get t ''/stats'' limit) before)"
  assumes "lf_requests later ! length (lf_requests before) = Done r"
  shows "\<exists>events bytes quarantined count eps. r = Inr (json_response 200 (PDict [
      (''events_received'', PInt events), (''bytes_ingested'', PInt bytes), (''quarantined'', PInt quarantined),
      (''ring_buffer_count'', PInt count), (''ring_buffer_capacity'', PInt 5000),
      (''eps_rate'', PFloat eps), (''dps_ratio'', PFloat 1)]))
    \<and> int (rb_total_ingested (gw_ring (lf_gateway before))) \<le> events \<and> events \<le> int (rb_total_ingested (gw_ring (lf_gateway later)))
    \<and> rb_bytes_ingested (gw_ring (lf_gateway before)) \<le> bytes \<and> bytes \<le> rb_bytes_ingested (gw_ring (lf_gateway later))
    \<and> int (rb_quarantined (gw_ring (lf_gateway before))) \<le> quarantined
    \<and> quarantined \<le> int (rb_quarantined (gw_ring (lf_gateway later)))
        + int (length (filter (\<lambda>h. \<exists>p. h = Append p \<and> quarantine (pn_raw p)) (lf_requests later)))
    \<and> 0 \<le> count \<and> count \<le> 5000"
proof -
  let ?r = "gw_ring (lf_gateway before)"
  have ok: "feed_ok before" using schedule_ok [OF new_feed_ok] by (simp add: before_def)
  then have "feed_ok (act (Get t ''/stats'' limit) before)" using act_ok by blast
  then have "answer_ok (rb_total_ingested ?r) (rb_bytes_ingested ?r) (rb_quarantined ?r) later
      (lf_requests later ! length (lf_requests before))"
    unfolding later_def by (rule answer_schedule) (simp_all add: arrive_def)
  moreover have "sum_list (map unstored_alarm hs) = int (length (filter (\<lambda>h. \<exists>p. h = Append p \<and> quarantine (pn_raw p)) hs))" for hs
  proof (induction hs)
    case (Cons h hs)
    then show ?case by (cases h) simp_all
  qed simp
  ultimately show ?thesis
    unfolding assms(3) by (auto simp: alarms_raised_def read_ok_def Let_def stats_reply_def json_response_def)
qed

section \<open>Theorems\<close>

text \<open>
  Whatever the schedule, a feed that is running has a generator thread, and the counters of the
  class never exceed those of the buffer, but for quarantined events on their way to it.
\<close>

theorem feed_invariant:
  "(lf_running (fold act acts (new_feed now)) \<longrightarrow> lf_workers (fold act acts (new_feed now)) \<noteq> [])
   \<and> feed_ok (fold act acts (new_feed now))"
proof (induction acts rule: rev_induct)
  case Nil
  show ?case using new_feed_ok by (simp add: new_feed_def)
next
  case (snoc a acts)
  then show ?case using act_ok act_alive by simp
qed

text \<open>
  A feed that was stopped drains: without a new start, every schedule of turns and stops uses up
  the steps that were left, one with each move of a live thread, and stores at most one event
  for each thread that was in its body; nothing is left exactly when all threads have ended.
\<close>

theorem stopped_feed_drains:
  assumes "\<not> lf_running f" "\<forall>a \<in> set acts. \<exists>env k i. a = Stop \<or> a = Turn env k i"
  shows "turns_taken acts f + steps_left (fold act acts f) = steps_left f"
    and "rb_total_ingested (gw_ring (lf_gateway (fold act acts f))) \<le> rb_total_ingested (gw_ring (lf_gateway f)) + in_body f"
    and "steps_left (fold act acts f) = 0 \<longleftrightarrow> lf_workers (fold act acts f) = []"
proof -
  have "turns_taken acts f + steps_left (fold act acts f) = steps_left f
    \<and> rb_total_ingested (gw_ring (lf_gateway (fold act acts f))) + in_body (fold act acts f)
        \<le> rb_total_ingested (gw_ring (lf_gateway f)) + in_body f"
    using assms
  proof (induction acts arbitrary: f)
    case (Cons a acts)
    then consider "a = Stop" | env k i where "a = Turn env k i" by auto
    then show ?case
    proof cases
      case 1
      then have "act a f = f" using Cons.prems(1) by (simp add: stop_continuous_generator_def)
      with 1 Cons.IH [of f] Cons.prems show ?thesis by simp
    next
      case 2
      have r: "\<not> lf_running (act a f)" using Cons.prems(1) 2 by simp
      note ih = Cons.IH [OF r]
      show ?thesis
      proof (cases "i < length (lf_workers f)")
        case True
        from stopped_move [OF Cons.prems(1) True, of env k] ih Cons.prems 2 True show ?thesis by force
      next
        case False
        with 2 have "act a f = f" by (simp add: worker_step_def)
        with ih Cons.prems 2 False show ?thesis by simp
      qed
    qed
  qed simp
  then show "turns_taken acts f + steps_left (fold act acts f) = steps_left f"
    and "rb_total_ingested (gw_ring (lf_gateway (fold act acts f))) \<le> rb_total_ingested (gw_ring (lf_gateway f)) + in_body f"
    by simp_all
  show "steps_left (fold act acts f) = 0 \<longleftrightarrow> lf_workers (fold act acts f) = []"
    by (auto simp: steps_left_def in_body_def)
qed

text \<open>
  The API server of a fresh process runs one thread at most, as nothing starts another while it
  serves; after the interrupt it is stopped and reports 0. If the port is taken, the exception
  leaves the handler with the generator still running.
\<close>

theorem api_single_generator:
  assumes "Start \<notin> set acts"
  shows "length (lf_workers (fst (handle_api None acts (new_feed now)))) \<le> 1"
    and "\<not> lf_running (fst (handle_api None acts (new_feed now)))"
    and "snd (handle_api None acts (new_feed now)) = Inr 0"
    and "handle_api (Some e) acts (new_feed now) = (start_continuous_generator (new_feed now), Inl e)"
    and "lf_running (start_continuous_generator (new_feed now))"
  using fold_workers [of acts "start_continuous_generator (new_feed now)"] assms
  by (simp_all add: handle_api_def Let_def stop_continuous_generator_def start_continuous_generator_def new_feed_def)

text \<open>
  A restart before the old thread looks at the flag again revives it: after n stops and starts in
  a row, Suc n threads feed the buffer at once, although the flag is there to allow one.
\<close>

theorem restarts_accumulate_threads:
  "let f = fold act (concat (replicate n [Stop, Start])) (start_continuous_generator (new_feed now))
   in lf_running f \<and> lf_workers f = replicate (Suc n) new_worker"
proof (induction n)
  case 0
  show ?case by (simp add: start_continuous_generator_def new_feed_def)
next
  case (Suc n)
  have "concat (replicate (Suc n) [Stop, Start]) = concat (replicate n [Stop, Start]) @ [Stop, Start]"
    by (induction n) simp_all
  with Suc show ?case
    by (simp add: Let_def start_continuous_generator_def stop_continuous_generator_def replicate_append_same)
qed

section \<open>Lost updates\<close>

text \<open>Two requests whose threads both load the counter of the class before either stores it.\<close>

definition two_posts :: "action list" where
  "two_posts = (let post = Post post_demo ''/ingest'' length_header (\<lambda>_. ''hello, world'')
     in [post, post, Move 0, Move 0, Move 1, Move 1, Move 0, Move 1, Move 0, Move 1, Move 0, Move 0, Move 1, Move 1])"

text \<open>Both are stored and answered, but the class counts one; /stats still reports two.\<close>

theorem lost_update:
  "gw_events_count (lf_gateway (fold act two_posts (new_feed 0))) = 1
   \<and> rb_total_ingested (gw_ring (lf_gateway (fold act two_posts (new_feed 0)))) = 2"
proof -
  obtain u where u: "generate_contract_ulid (pe_ms post_demo) (pe_pick post_demo) = Inr u" using demo_ulid by blast
  have q: "\<not> quarantine ''hello, world''" by code_simp
  show ?thesis
    by (simp add: two_posts_def Let_def arrive_def request_step_def receive_def header_read u q pending_append
        new_feed_def start_gateway_def new_buffer_def)
qed

theorem stats_report_the_buffer_witness:
  "\<exists>r n. lf_requests (fold act [Move 2, Move 2, Move 2, Move 2] (act (Get 1 ''/stats'' None) (fold act two_posts (new_feed 0)))) ! 2 = Done r
     \<and> r = Inr (json_response 200 (PDict ((''events_received'', PInt 2) # n)))"
proof -
  let ?before = "fold act two_posts (new_feed 0)"
  let ?later = "fold act [Move 2, Move 2, Move 2, Move 2] (act (Get 1 ''/stats'' None) ?before)"
  obtain u where u: "generate_contract_ulid (pe_ms post_demo) (pe_pick post_demo) = Inr u" using demo_ulid by blast
  have q: "\<not> quarantine ''hello, world''" by code_simp
  obtain r where l: "length (lf_requests ?before) = 2" "lf_requests ?later ! 2 = Done r"
    by (simp add: two_posts_def Let_def arrive_def request_step_def receive_def header_read u q pending_append
        new_feed_def start_gateway_def new_buffer_def numeral_2_eq_2)
  have "rb_total_ingested (gw_ring (lf_gateway ?later)) = rb_total_ingested (gw_ring (lf_gateway ?before))"
    by (simp add: two_posts_def Let_def arrive_def request_step_def receive_def header_read u q pending_append
        new_feed_def start_gateway_def new_buffer_def)
  moreover have "rb_total_ingested (gw_ring (lf_gateway ?before)) = 2" using lost_update by blast
  ultimately show ?thesis
    using stats_report_the_buffer [where r = r and acts = two_posts and now = 0
        and acts' = "[Move 2, Move 2, Move 2, Move 2]" and t = 1 and limit = None] l by auto
qed

end
