(* ===== verification/Spec2Isabelle.thy ===== *)
theory Spec2Isabelle
  imports SpecCompiler Deployer Policy TestBench Passport Comparator Structural SemanticDrift Profiler Mapper Workflow Validator Assist Orchestrator Gateway Harness Assurance Daemon Observer Console Hardware Contracts Golden Rehearsal Demo LiveFeed
begin

text \<open>
  ULPF-X onboards sources of security telemetry. Its Python code profiles raw logs, maps their
  fields to a canonical schema, compiles a parser specification, tests and deploys it, watches the
  deployed parser for drift, and repairs it behind a chain of gates. A command suite generates,
  ingests, exports and benchmarks events. This library models that code and proves what makes each
  part correct; paths below are under \<open>src/\<close>.

  \<^bold>\<open>The fragment of Python.\<close> \<open>Prelude\<close>: exceptions as the left summand of \<open>'a result\<close>, values that
  are only known at run time as the datatype \<open>pyval\<close>, dictionaries as association lists in
  insertion order, strings as lists of characters (code points below 256) with the methods the
  sources call. \<open>PyFloat\<close>: binary64 as rationals with an explicit rounding \<open>fl\<close> after every
  operation; its locale \<open>rounding\<close> states what the components need of it. \<open>PyStr\<close>: \<open>str\<close> and \<open>repr\<close>.
  \<open>PyTime\<close> and \<open>PyConv\<close>: datetimes, and conversions from text. \<open>Regex\<close>: Python's \<open>re\<close> as a backtracking
  matcher, related to a relational semantics. \<open>SeqMatch\<close>: \<open>difflib.SequenceMatcher.ratio\<close>.

  \<^bold>\<open>Onboarding.\<close>
  \<^item> \<open>ProfileTypes\<close>, \<open>TypeInfer\<close>, \<open>LogParsers\<close>, \<open>Profiler\<close>: \<open>ml/source_profiler/profiler.py\<close>. Type
    inference, template masks, seven format parsers, detection, and the aggregation of a source
    into its profile. Shown: the accounting of lines and values, what parsing a line without a hint
    gives, with the two exceptions that escape, and the one comparison that makes the aggregation
    raise.
  \<^item> \<open>KnowledgeBase\<close>, \<open>Mapper\<close>: \<open>ml/semantic_mapper/mapper.py\<close>. The catalogue with its alias index,
    the scores with their bonuses and penalties, ranking, and the report on a source. Shown: the
    index agrees with a search of the catalogue, the mapping chosen scores highest and is decided
    by the two thresholds, and a hard type conflict never maps.
  \<^item> \<open>Assist\<close>: \<open>ml/ai_assist\<close>. Sanitising, prompts and the filter on proposals, whose targets are
    always canonical. \<open>Orchestrator\<close>: \<open>ml/orchestrator/orchestrator.py\<close>, the composition of these.
  \<^item> \<open>SpecCompiler\<close>: \<open>ml/spec_compiler\<close>. Merging by precedence, and generation of specifications,
    which satisfy their contract exactly when every mapped path is dotted. \<open>TestBench\<close>: \<open>ml/test_bench/sandbox.py\<close>. \<open>Deployer\<close>:
    \<open>ml/deployment/deployer.py\<close>, refined by a stack of revisions for each source.

  \<^bold>\<open>Assurance.\<close>
  \<^item> \<open>SpecDsl\<close>, \<open>Comparator\<close>, \<open>Runner\<close>: \<open>ml/shadow\<close>. Parsing by a specification, dual execution in
    which only the active parser reaches the downstream bus, and the verdict on two streams.
  \<^item> \<open>Structural\<close>, \<open>SemanticDrift\<close>: \<open>ml/drift\<close>. The signals, their bounds, and the verdicts.
  \<^item> \<open>Policy\<close>, \<open>Workflow\<close>: \<open>ml/self_healing\<close>. The gates, the decision, and the deployment of a repair;
    an engine changes only by a promoted repair, and a promoted repair preserves every critical
    field of the samples, of which there may be 20000 at most.
  \<^item> \<open>Validator\<close>: \<open>ml/validation/validator.py\<close>, with the exact condition on which a validation
    passes. \<open>Passport\<close>: \<open>ml/passport/passport.py\<close>, with the
    published contract as the predicate \<open>passport_valid\<close>; the evidence of a validation certifies
    exactly when it passed.
  \<^item> \<open>Messages\<close>, \<open>Reports\<close>: the f-strings of the reports, and their \<open>to_dict\<close> functions. \<open>JsonSchema\<close>,
    \<open>Contracts\<close>: JSON Schema as a datatype with an evaluator, and the schemas of
    \<open>packages/contracts\<close> for the drift, shadow and repair reports. Shown: a document conforms exactly
    when names and versions do, and, for drift, when the configured thresholds are rates, for a
    repair, when its trigger was not STABLE.
  \<^item> \<open>Golden\<close>, \<open>Rehearsal\<close>: \<open>validate_golden_source\<close> of the validator and \<open>tools/demo/rehearse.py\<close>, which
    compose validation, evidence and passport. Shown: a rehearsal returns exactly when every golden
    directory passes under its expected identity, and reports measured scores only.

  \<^bold>\<open>The command suite.\<close>
  \<^item> \<open>LoadGen\<close>, \<open>Latency\<close>, \<open>Harness\<close>, \<open>Hardware\<close>: \<open>ml/benchmark\<close>. Templates and streams, percentiles,
    the timed runs and the report with its throughput claim, and the profile of the host.
  \<^item> \<open>RingBuffer\<close>, \<open>EventExport\<close>, \<open>Gateway\<close>, \<open>LiveFeed\<close>, \<open>Daemon\<close>, \<open>Observer\<close>, \<open>Console\<close>: \<open>scripts/cli.py\<close>. The bounded
    buffer, an implementation of the interface \<open>bounded_log\<close>; ULIDs, normalised events and sinks,
    with a reader of CSV documents that gives back what was exported; the HTTP handlers, cut into
    the steps between which the server's other threads run; the schedules of the steps of request
    threads and of the threads of the background generator; the PID file, log rotation and the
    processes of the host; the observer window; and the export command with the dispatcher.
  \<^item> \<open>Assurance\<close>: \<open>scripts/audit.py\<close>. The suite, its verdict and the passport it exports. \<open>Demo\<close>:
    \<open>scripts/demo.py\<close>, its menus and the tables it computes, of which two claim more than the code finds.

  \<^bold>\<open>State and operations.\<close> Every class with state is a record (\<open>engine\<close>, \<open>EventRingBuffer\<close>,
  \<open>gateway\<close>, \<open>live_feed\<close>, \<open>host\<close>, \<open>observer\<close>, \<open>LoadGenerator\<close>, \<open>dual_state\<close>, \<open>profile_acc\<close>), every method a function
  that returns the new state, together with the exception where one leaves the state changed.
  Runs are inductive sets of reachable states, schedules of actions, or lists of rounds.

  \<^bold>\<open>Threads and processes.\<close> The server answers every request in a thread of its own, and the counters
  of its handler class have no lock. In \<open>Gateway\<close> a request is a \<open>handler\<close> whose \<open>handler_step\<close>
  reads one counter, writes one back, appends to the buffer under its lock, or answers; run alone,
  a request does what the methods \<open>do_GET\<close> and \<open>do_POST\<close> compute. \<open>LiveFeed\<close> interleaves any number of
  them with the generator threads: increments get lost, yet the answers to \<open>/stats\<close> stay within
  what the buffer stored. In \<open>Daemon\<close> a signal only marks a process, which ends later, and a launched
  daemon serves only once it has bound its port; the reachable hosts interleave commands, binding,
  exits and the reuse of process numbers.

  \<^bold>\<open>Parameters.\<close> What the code reads from elsewhere is an argument: \<open>json.loads\<close> and \<open>json.dumps\<close>,
  \<open>ast.parse\<close>, SHA-256, clocks and performance counters (as their successive readings), random
  choices, the order in which a set is enumerated, the provider of AI proposals, the outcome of
  a command, of a signal, of a rename, of a request, and the keys and answers typed. Theorems hold
  for all of them unless they name a hypothesis.

  \<^bold>\<open>Termination.\<close> Loops over data are structural recursion or have a measure. Two have a bound that is
  always enough: a run of a regular expression's star consumes a character in every round, so the
  length of the rest bounds it, and 17 digits always give back a double, so the search for its
  shortest representation stops there. The batch stream of the load generator, which need not end,
  is a partial function whose value \<open>None\<close> is a stream without end, and the theorem on it says exactly
  when it ends. The observer runs over a list of rounds, and the theorem on it says after which
  round it has left.

  \<^bold>\<open>Not modelled.\<close> Code points from 256 on, and floats beyond the largest double. The Go programs of
  the data plane, which the Python code only starts. The scenarios of \<open>scripts/demo.py\<close> that print
  fixed texts, and the printing of \<open>run_bench.py\<close>. The drawing of tables, panels and the terminal;
  argument parsing by \<open>argparse\<close>; the parsing of HTTP by the standard library; the Windows branches
  of the daemon. Reading of files (a golden directory is the texts in it), and the dictionary of a
  source profile, whose metadata the model keeps in part. Interleaving inside one command of the
  daemon controller, which is one step, so two simultaneous starts are outside the theorems.
\<close>

end
